theory Spec2Isabelle
  imports Main "HOL-Library.AList" "HOL-Library.Sublist"
begin

section \<open>Python values shared by the scripts\<close>

text \<open>
  Python strings are modelled as \<^typ>\<open>string\<close>; the line feed of the scripts' literals is
  the HOL character written \<open>\<newline>\<close> inside a literal.  \<open>s.endswith(t)\<close> compares
  the last \<open>len(t)\<close> characters of \<open>s\<close> with \<open>t\<close>.
\<close>

definition endswith :: "string \<Rightarrow> string \<Rightarrow> bool" where
  "endswith s t = (length t \<le> length s \<and> drop (length s - length t) s = t)"

section \<open>common\_words.py: the word-frequency aggregator\<close>

text \<open>
  \<open>word_counts\<close> is a \<open>defaultdict(int)\<close>.  It is kept as an association list in
  insertion order (what \<open>rank_words\<close> later iterates over); a missing key reads as 0.
  The statement \<open>word_counts[word] += count\<close> reads the entry (0 when the key is new),
  adds, and stores it: an existing key keeps its place, a new key goes to the end.
\<close>

type_synonym word_counts = "(string \<times> int) list"

definition getitem_wc :: "word_counts \<Rightarrow> string \<Rightarrow> int" where
  "getitem_wc wc w = (case map_of wc w of None \<Rightarrow> 0 | Some n \<Rightarrow> n)"

definition iadd_wc :: "word_counts \<Rightarrow> string \<Rightarrow> int \<Rightarrow> word_counts" where
  "iadd_wc wc w n = AList.update w (getitem_wc wc w + n) wc"

text \<open>
  The state of \<open>read_csv_files\<close>: the counts and the lines printed so far.
  \<open>int(count)\<close> is Python's built-in; it is the parameter \<open>int_py\<close>, with \<open>None\<close>
  where the built-in raises \<open>ValueError\<close>, so every result below holds for whatever
  strings Python accepts as integers.  A file is given as the rows \<open>csv.reader\<close>
  yields for it, a folder as the listing of its files in the order \<open>os.listdir\<close>
  returns them.
\<close>

type_synonym csv_state = "word_counts \<times> string list"

definition skip_message :: "string \<Rightarrow> string \<Rightarrow> string" where
  "skip_message w filename =
     ''Skipping invalid count for word '' @ [CHR 0x27] @ w @ [CHR 0x27] @ '' in file '' @ filename"

text \<open>Lines 17 to 23: the body of \<open>for row in reader\<close>.\<close>

fun row_step :: "(string \<Rightarrow> int option) \<Rightarrow> string \<Rightarrow> string list \<Rightarrow> csv_state \<Rightarrow> csv_state" where
  "row_step int_py filename [w, c] (wc, out) =
     (case int_py c of
        Some n \<Rightarrow> (iadd_wc wc w n, out)
      | None \<Rightarrow> (wc, out @ [skip_message w filename]))"
| "row_step int_py filename row (wc, out) = (wc, out)"

fun rows_loop :: "(string \<Rightarrow> int option) \<Rightarrow> string \<Rightarrow> string list list \<Rightarrow> csv_state \<Rightarrow> csv_state" where
  "rows_loop int_py filename [] st = st"
| "rows_loop int_py filename (row # rows) st =
     rows_loop int_py filename rows (row_step int_py filename row st)"

text \<open>Lines 10 to 23: the body of \<open>for filename in os.listdir(folder_path)\<close>.\<close>

fun files_loop :: "(string \<Rightarrow> int option) \<Rightarrow> (string \<times> string list list) list \<Rightarrow> csv_state \<Rightarrow> csv_state" where
  "files_loop int_py [] st = st"
| "files_loop int_py ((filename, rows) # files) st =
     files_loop int_py files
       (if endswith filename ''.csv'' then rows_loop int_py filename rows st else st)"

definition read_csv_files :: "(string \<Rightarrow> int option) \<Rightarrow> (string \<times> string list list) list \<Rightarrow> csv_state" where
  "read_csv_files int_py folder = files_loop int_py folder ([], [])"

text \<open>
  What the rows contribute, read off the input alone: the counts a row, a file and a
  folder give to the word \<open>w\<close>, and the messages they cause.  Only rows of exactly two
  fields whose second field is an integer count.
\<close>

fun row_counts :: "(string \<Rightarrow> int option) \<Rightarrow> string \<Rightarrow> string list \<Rightarrow> int list" where
  "row_counts int_py w [w', c] =
     (if w' = w then (case int_py c of Some n \<Rightarrow> [n] | None \<Rightarrow> []) else [])"
| "row_counts int_py w row = []"

fun row_messages :: "(string \<Rightarrow> int option) \<Rightarrow> string \<Rightarrow> string list \<Rightarrow> string list" where
  "row_messages int_py filename [w, c] =
     (case int_py c of Some n \<Rightarrow> [] | None \<Rightarrow> [skip_message w filename])"
| "row_messages int_py filename row = []"

definition file_counts :: "(string \<Rightarrow> int option) \<Rightarrow> string \<Rightarrow> string \<times> string list list \<Rightarrow> int list" where
  "file_counts int_py w f =
     (if endswith (fst f) ''.csv'' then concat (map (row_counts int_py w) (snd f)) else [])"

definition file_messages :: "(string \<Rightarrow> int option) \<Rightarrow> string \<times> string list list \<Rightarrow> string list" where
  "file_messages int_py f =
     (if endswith (fst f) ''.csv'' then concat (map (row_messages int_py (fst f)) (snd f)) else [])"

definition folder_counts :: "(string \<Rightarrow> int option) \<Rightarrow> string \<Rightarrow> (string \<times> string list list) list \<Rightarrow> int list" where
  "folder_counts int_py w folder = concat (map (file_counts int_py w) folder)"

definition folder_messages :: "(string \<Rightarrow> int option) \<Rightarrow> (string \<times> string list list) list \<Rightarrow> string list" where
  "folder_messages int_py folder = concat (map (file_messages int_py) folder)"

text \<open>The entry of \<open>w\<close> after adding the counts \<open>ns\<close> to a dictionary whose entry is \<open>m\<close>.\<close>

definition add_all :: "int option \<Rightarrow> int list \<Rightarrow> int option" where
  "add_all m ns =
     (if ns = [] then m else Some ((case m of None \<Rightarrow> 0 | Some k \<Rightarrow> k) + sum_list ns))"

text \<open>A sample integer reader for the concrete runs below: unsigned ASCII decimals.\<close>

fun digits_value :: "string \<Rightarrow> int \<Rightarrow> int option" where
  "digits_value [] acc = Some acc"
| "digits_value (c # cs) acc =
     (if (48::nat) \<le> of_char c \<and> of_char c \<le> (57::nat)
      then digits_value cs (10 * acc + (int (of_char c) - 48))
      else None)"

definition int_decimal :: "string \<Rightarrow> int option" where
  "int_decimal s = (if s = [] then None else digits_value s 0)"

section \<open>excel\_to\_markdown.py: from scene rows to chapter notes\<close>

subsection \<open>Cells, rows and errors\<close>

text \<open>
  A cell of the data frame is a Python \<open>str\<close> or some other object (the float \<open>nan\<close> of an
  empty cell, an \<open>int\<close>, a \<open>Timestamp\<close>): \<open>COther ty s\<close> is an object of the type named
  \<open>ty\<close> whose text in an f-string is \<open>s\<close>.  Only a \<open>str\<close> has the method \<open>split\<close>.
  Cells also serve as keys of the chapter dictionary; how the dictionary compares them
  is fixed below (\<open>same_key\<close>).
\<close>

datatype cell = CStr string | COther string string

fun fmt :: "cell \<Rightarrow> string" where
  "fmt (CStr s) = s"
| "fmt (COther ty s) = s"

fun is_str :: "cell \<Rightarrow> bool" where
  "is_str (CStr s) = True"
| "is_str (COther ty s) = False"

text \<open>
  The exceptions the script can meet, each with what its message needs: the missing key,
  the type without \<open>split\<close>, the text of a \<open>TypeError\<close> or \<open>OSError\<close>, the unbound
  local variable.  \<open>exc_str\<close> is the \<open>{e}\<close> of the handlers' f-strings.
\<close>

datatype error =
    KeyError string
  | IndexError
  | AttributeError string
  | TypeError string
  | UnboundLocalError string
  | OSError string

fun exc_str :: "error \<Rightarrow> string" where
  "exc_str (KeyError k) = [CHR 0x27] @ k @ [CHR 0x27]"
| "exc_str IndexError = ''list index out of range''"
| "exc_str (AttributeError ty) =
     [CHR 0x27] @ ty @ [CHR 0x27] @ '' object has no attribute '' @ [CHR 0x27] @ ''split'' @ [CHR 0x27]"
| "exc_str (TypeError msg) = msg"
| "exc_str (UnboundLocalError v) =
     ''cannot access local variable '' @ [CHR 0x27] @ v @ [CHR 0x27] @
     '' where it is not associated with a value''"
| "exc_str (OSError msg) = msg"

definition bnd :: "error + 'a \<Rightarrow> ('a \<Rightarrow> error + 'b) \<Rightarrow> error + 'b" where
  "bnd m f = (case m of Inl e \<Rightarrow> Inl e | Inr x \<Rightarrow> f x)"

text \<open>
  A row of \<open>df.iterrows()\<close> is a labelled series: the column labels with their cells.
  \<open>row["Week"]\<close> raises \<open>KeyError\<close> when the sheet has no such column.
\<close>

type_synonym row = "(string \<times> cell) list"

definition getitem_row :: "row \<Rightarrow> string \<Rightarrow> error + cell" where
  "getitem_row r c = (case map_of r c of None \<Rightarrow> Inl (KeyError c) | Some v \<Rightarrow> Inr v)"

text \<open>\<open>xs[i]\<close> for \<open>i\<close> from a \<open>range\<close>, so never negative.\<close>

definition getitem_list :: "'a list \<Rightarrow> nat \<Rightarrow> error + 'a" where
  "getitem_list xs i = (if i < length xs then Inr (xs ! i) else Inl IndexError)"

subsection \<open>Strings: split, join and decimal numbers\<close>

text \<open>
  \<open>s.split(sep)\<close> for a separator that is not empty (every call of the script passes a
  literal): the string is read from the left, each occurrence of the separator ends a
  piece and reading resumes after it.  \<open>piece\<close> is the piece being read.
\<close>

fun split_from :: "string \<Rightarrow> string \<Rightarrow> string \<Rightarrow> string list" where
  "split_from sep piece [] = [piece]"
| "split_from sep piece (c # cs) =
     (if take (length sep) (c # cs) = sep
      then piece # split_from sep [] (drop (length sep - 1) cs)
      else split_from sep (piece @ [c]) cs)"

definition split_py :: "string \<Rightarrow> string \<Rightarrow> string list" where
  "split_py s sep = split_from sep [] s"

fun join_py :: "string \<Rightarrow> string list \<Rightarrow> string" where
  "join_py sep [] = []"
| "join_py sep [x] = x"
| "join_py sep (x # y # ys) = x @ sep @ join_py sep (y # ys)"

definition digit :: "nat \<Rightarrow> char" where
  "digit d = ''0123456789'' ! d"

fun str_nat :: "nat \<Rightarrow> string" where
  "str_nat n = (if n < 10 then [digit n] else str_nat (n div 10) @ [digit (n mod 10)])"

text \<open>\<open>sub in s\<close> for strings.\<close>

fun contains :: "string \<Rightarrow> string \<Rightarrow> bool" where
  "contains [] sub = (sub = [])"
| "contains (c # cs) sub = (take (length sub) (c # cs) = sub \<or> contains cs sub)"

subsection \<open>The environment\<close>

text \<open>
  The environment fixes what the script cannot decide: the clock (the text of
  \<open>datetime.now()\<close> at the n-th chapter), the script's file name, whether \<open>os.makedirs\<close>
  raises, for which paths opening or writing the file raises, and which key objects
  that are not strings a \<open>dict\<close> takes for one key.  \<open>obj_eq a b\<close> says that a dictionary
  holding the key object \<open>a\<close> of an earlier row finds it when the key object \<open>b\<close> of a later
  row is looked up: the two are one object, or they hash alike and compare equal.  So the
  int \<open>1\<close> and the bool \<open>True\<close> can be one key, and the float \<open>nan\<close> of two empty cells, two
  objects of which none equals itself, can be two keys.
\<close>

record env =
  now :: "nat \<Rightarrow> string"
  script :: string
  makedirs_error :: "string option"
  open_error :: "string \<Rightarrow> string option"
  obj_eq :: "cell \<Rightarrow> cell \<Rightarrow> bool"

subsection \<open>The chapter aggregate and \<open>parse_scenes\<close>\<close>

text \<open>
  The dictionary built for a chapter at line 110, as a record of its keys.  The key
  \<open>temperature\<close> is not among the initial keys: it appears with the first assignment at
  line 122, hence the option.  \<open>scene_counter\<close> and the entries of \<open>scenes\<close> are Python
  integers that start at 1 and only grow.
\<close>

record chapter_data =
  scenes :: "nat list"
  settings :: "cell list"
  scene_counter :: nat
  day :: "cell list"
  POV :: cell
  description :: cell
  time :: "cell list"
  weather :: "cell list"
  descriptions :: "cell list"
  uniform :: "cell list"
  arc :: cell
  week :: "cell list"
  temperature :: "cell option"

definition new_chapter :: chapter_data where
  "new_chapter =
     \<lparr>scenes = [], settings = [], scene_counter = 1, day = [], POV = CStr [],
      description = CStr [], time = [], weather = [], descriptions = [], uniform = [],
      arc = COther ''int'' ''1'', week = [], temperature = None\<rparr>"

text \<open>
  \<open>chapters\<close> is a \<open>dict\<close>: its entries, each a stored key object with its value, in
  insertion order.  A lookup with the key object \<open>b\<close> finds the entry whose stored key \<open>a\<close>
  is the same object as \<open>b\<close>, or hashes like \<open>b\<close> and compares equal to it
  (\<open>same_key a b\<close>).  Two \<open>str\<close> objects are one key exactly when the strings are equal, a
  \<open>str\<close> is never the same key as another kind of cell, and for two other objects the
  environment decides.  Python's comparison of the objects a cell can hold is symmetric
  and transitive, so a lookup finds at most one entry; \<open>find_key\<close> gives the position of
  the first entry found among the stored keys.
\<close>

type_synonym chapters = "(cell \<times> chapter_data) list"

fun same_key :: "env \<Rightarrow> cell \<Rightarrow> cell \<Rightarrow> bool" where
  "same_key ev (CStr a) (CStr b) = (a = b)"
| "same_key ev (CStr a) (COther ty s) = False"
| "same_key ev (COther ty s) (CStr b) = False"
| "same_key ev (COther ty s) (COther ty' s') = obj_eq ev (COther ty s) (COther ty' s')"

fun find_key :: "env \<Rightarrow> cell list \<Rightarrow> cell \<Rightarrow> nat option" where
  "find_key ev [] k = None"
| "find_key ev (k' # ks) k =
     (if same_key ev k' k then Some 0 else map_option Suc (find_key ev ks k))"

text \<open>Lines 112 to 123, on the dictionary of the row's chapter.\<close>

definition add_scene ::
  "cell \<Rightarrow> cell \<Rightarrow> cell \<Rightarrow> cell \<Rightarrow> cell \<Rightarrow> cell \<Rightarrow> cell \<Rightarrow> cell \<Rightarrow> cell \<Rightarrow> cell \<Rightarrow>
   chapter_data \<Rightarrow> chapter_data" where
  "add_scene week' arc' setting uniform' time' weather' day' description' pov temp d =
     d\<lparr>scenes := scenes d @ [scene_counter d],
       arc := arc',
       scene_counter := scene_counter d + 1,
       day := day d @ [day'],
       settings := settings d @ [setting],
       uniform := uniform d @ [uniform'],
       weather := weather d @ [weather'],
       time := time d @ [time'],
       descriptions := descriptions d @ [description'],
       POV := pov,
       temperature := Some temp,
       week := week d @ [week']\<rparr>"

text \<open>
  Lines 97 to 123: the body of \<open>for index, row in df.iterrows()\<close>.  When the row's key is
  not found (line 109), the new dictionary is stored under the row's own key object, and
  the lookups of lines 112 to 123, made with that same object, reach it; otherwise they
  reach the entry found, whose stored key stays.
\<close>

definition parse_row :: "env \<Rightarrow> row \<Rightarrow> chapters \<Rightarrow> error + chapters" where
  "parse_row ev r chs =
     bnd (getitem_row r ''Week'') (\<lambda>week'.
     bnd (getitem_row r ''Arc'') (\<lambda>arc'.
     bnd (getitem_row r ''Chapter'') (\<lambda>chapter.
     bnd (getitem_row r ''Location'') (\<lambda>setting.
     bnd (getitem_row r ''Uniform'') (\<lambda>uniform'.
     bnd (getitem_row r ''Time'') (\<lambda>time'.
     bnd (getitem_row r ''Weather'') (\<lambda>weather'.
     bnd (getitem_row r ''Day'') (\<lambda>day'.
     bnd (getitem_row r ''Description'') (\<lambda>description'.
     bnd (getitem_row r ''POV'') (\<lambda>pov.
     bnd (getitem_row r ''Temperature'') (\<lambda>temp.
       Inr (case find_key ev (map fst chs) chapter of
              None \<Rightarrow>
                chs @ [(chapter,
                        add_scene week' arc' setting uniform' time' weather' day' description'
                          pov temp new_chapter)]
            | Some i \<Rightarrow>
                chs[i := (fst (chs ! i),
                          add_scene week' arc' setting uniform' time' weather' day' description'
                            pov temp (snd (chs ! i)))])
     )))))))))))"

fun parse_loop :: "env \<Rightarrow> row list \<Rightarrow> chapters \<Rightarrow> error + chapters" where
  "parse_loop ev [] chs = Inr chs"
| "parse_loop ev (r # rs) chs = bnd (parse_row ev r chs) (parse_loop ev rs)"

subsection \<open>The outside world\<close>

text \<open>
  What the script does to the outside is a trace of events: log records, printed lines,
  the creation of the output directory, a file written with its content, and an
  \<open>open\<close>/\<open>write\<close> that failed.  The world also knows whether the output directory exists.
  The clock, the failures of \<open>os.makedirs\<close> and of \<open>open\<close>/\<open>write\<close> come from the
  environment.
\<close>

datatype event =
    LogInfo string
  | LogError string
  | Print string
  | MakeDirs string
  | WriteFile string string
  | WriteFailed string

record world =
  dir_exists :: bool
  trace :: "event list"

definition emit :: "event \<Rightarrow> world \<Rightarrow> world" where
  "emit e w = w\<lparr>trace := trace w @ [e]\<rparr>"

datatype outcome = Returned | Raised error

definition fmt_opt :: "nat option \<Rightarrow> string" where
  "fmt_opt n = (case n of None \<Rightarrow> ''None'' | Some k \<Rightarrow> str_nat k)"

text \<open>
  \<open>parse_scenes\<close>: the loop inside \<open>try\<close>; the handler prints and logs and the function
  then returns \<open>None\<close>.  \<open>num_rows\<close> is what \<open>get_number_of_rows\<close> returned.
\<close>

definition parse_scenes ::
  "env \<Rightarrow> row list \<Rightarrow> nat option \<Rightarrow> world \<Rightarrow> chapters option \<times> world" where
  "parse_scenes ev df num_rows w =
     (let w1 = emit (LogInfo (''Parsing '' @ fmt_opt num_rows @ '' scenes.'')) w in
      case parse_loop ev df [] of
        Inr chs \<Rightarrow>
          (Some chs,
           emit (LogInfo (''Successfully parsed '' @ fmt_opt num_rows @ '' scenes into '' @
                          str_nat (length chs) @ '' chapters.'')) w1)
      | Inl e \<Rightarrow>
          (None,
           emit (LogError (''Error: An error occurred while parsing scenes: '' @ exc_str e))
             (emit (Print (''Error: An error occurred while parsing scenes: '' @ exc_str e)) w1)))"

subsection \<open>Rendering a chapter\<close>

definition add_metadata :: "env \<Rightarrow> nat \<Rightarrow> string \<Rightarrow> cell \<Rightarrow> cell \<Rightarrow> string \<Rightarrow> string" where
  "add_metadata ev n markdown_content arc' pov tags =
     markdown_content @ ''---\<newline>'' @
       ''created: '' @ now ev n @ ''\<newline>'' @
       ''generated_by: '' @ script ev @ ''\<newline>'' @
       ''tags: '' @ tags @ ''\<newline>'' @
       ''POV: '' @ fmt pov @ ''\<newline>'' @
       ''Arc: '' @ fmt arc' @ ''\<newline>'' @
       ''---\<newline>\<newline>''"

text \<open>Lines 186 to 188: \<open>for j in min_locs\<close>.\<close>

fun min_locs_loop :: "string list \<Rightarrow> string \<Rightarrow> string" where
  "min_locs_loop [] content = content"
| "min_locs_loop (j # js) content = min_locs_loop js (content @ ''     - '' @ j @ ''\<newline>'')"

text \<open>Lines 184 to 188: \<open>for i in range(1, len(subsubparts))\<close>.\<close>

fun subsubparts_loop :: "string list \<Rightarrow> nat list \<Rightarrow> string \<Rightarrow> string" where
  "subsubparts_loop subsubparts [] content = content"
| "subsubparts_loop subsubparts (i # is) content =
     subsubparts_loop subsubparts is
       (min_locs_loop (split_py (subsubparts ! i) '', '') content)"

text \<open>
  Lines 180 to 188: \<open>for subpart in parts\<close>.  \<open>split\<close> never returns an empty list, so
  \<open>subsubparts[0]\<close> exists.
\<close>

fun parts_loop :: "string list \<Rightarrow> string \<Rightarrow> string" where
  "parts_loop [] content = content"
| "parts_loop (subpart # parts) content =
     (let subsubparts = split_py subpart '' - '';
          major_loc = subsubparts ! 0;
          content = content @ '' - '' @ major_loc @ ''\<newline>''
      in parts_loop parts (subsubparts_loop subsubparts [1..<length subsubparts] content))"

text \<open>Lines 178 to 188: \<open>settings[i].split(". ")\<close> and the loops over its parts.\<close>

fun render_setting :: "cell \<Rightarrow> string \<Rightarrow> error + string" where
  "render_setting (CStr s) content = Inr (parts_loop (split_py s ''. '') content)"
| "render_setting (COther ty s) content = Inl (AttributeError ty)"

text \<open>
  Lines 164 to 190: the body of \<open>for i in range(len(scenes))\<close>, from the content so far to
  the content after the scene.  \<open>pov\<close> and \<open>temp\<close> are the chapter's values read at lines
  153 and 158.  The inner loop's reuse of the name \<open>i\<close> comes after every use of the
  scene's index and does not change what \<open>range\<close> yields next.
\<close>

definition scene_body :: "chapter_data \<Rightarrow> cell \<Rightarrow> cell \<Rightarrow> nat \<Rightarrow> string \<Rightarrow> error + string" where
  "scene_body cd pov temp i content =
     (let scene_number = i + 1;
          content = content @ ''### Scene '' @ str_nat scene_number @ ''\<newline>\<newline>'';
          content = content @ '' - POV: '' @ fmt pov @ ''\<newline>''
      in
      bnd (getitem_list (time cd) i) (\<lambda>t.
      let content = content @ '' - Date and Time: '' @ fmt t @ ''\<newline>'' in
      bnd (getitem_list (day cd) i) (\<lambda>dy.
      let content = content @ '' - Day: '' @ fmt dy @ ''\<newline>'' in
      bnd (getitem_list (week cd) i) (\<lambda>wk.
      let content = content @ '' - Week: '' @ fmt wk @ ''\<newline>'';
          content = content @ '' - Temperature: '' @ fmt temp @ ''\<newline>'' in
      bnd (getitem_list (weather cd) i) (\<lambda>we.
      let content = content @ '' - Weather: '' @ fmt we @ ''\<newline>'' in
      bnd (getitem_list (uniform cd) i) (\<lambda>un.
      let content = content @ '' - Uniform: '' @ fmt un @ ''\<newline>\<newline>'' in
      bnd (getitem_list (descriptions cd) i) (\<lambda>de.
      let content = content @ '' - Description: '' @ fmt de @ ''\<newline>\<newline>'';
          content = content @ '' #### Setting:\<newline>'' in
      bnd (getitem_list (settings cd) i) (\<lambda>loc.
      bnd (render_setting loc content) (\<lambda>content.
      Inr (content @ ''\<newline>''))))))))))"

text \<open>
  The loop over the scenes.  Its state is the content and the local variable
  \<open>scene_number\<close>, which is unbound (\<open>None\<close>) until a first scene is entered and keeps its
  value from one chapter to the next.  A failure carries the \<open>scene_number\<close> the handler
  at line 196 will read.
\<close>

fun scenes_loop ::
  "chapter_data \<Rightarrow> cell \<Rightarrow> cell \<Rightarrow> nat list \<Rightarrow> string \<times> nat option \<Rightarrow>
   (error \<times> nat option) + (string \<times> nat option)" where
  "scenes_loop cd pov temp [] st = Inr st"
| "scenes_loop cd pov temp (i # is) (content, sn) =
     (case scene_body cd pov temp i content of
        Inl e \<Rightarrow> Inl (e, Some (i + 1))
      | Inr content' \<Rightarrow> scenes_loop cd pov temp is (content', Some (i + 1)))"

text \<open>
  Lines 142 to 190 for one chapter: the text handed to \<open>write_markdown\<close>.  \<open>tags\<close> is
  \<open>None\<close> when the option \<open>--tags\<close> was not given; joining \<open>None\<close> raises \<open>TypeError\<close>.
\<close>

definition chapter_content ::
  "env \<Rightarrow> nat \<Rightarrow> string list option \<Rightarrow> bool \<Rightarrow> cell \<Rightarrow> chapter_data \<Rightarrow> nat option \<Rightarrow>
   (error \<times> nat option) + (string \<times> nat option)" where
  "chapter_content ev n tags am chapter_key cd sn =
     (case (if am
            then (case tags of
                    None \<Rightarrow> Inl (TypeError ''can only join an iterable'')
                  | Some ts \<Rightarrow> Inr (add_metadata ev n [] (arc cd) (POV cd) (join_py '', '' ts)))
            else Inr [])
      of
        Inl e \<Rightarrow> Inl (e, sn)
      | Inr markdown_content \<Rightarrow>
          (let markdown_content = markdown_content @ ''# Chapter '' @ fmt chapter_key @ ''\<newline>'' in
           case temperature cd of
             None \<Rightarrow> Inl (KeyError ''temperature'', sn)
           | Some temp \<Rightarrow>
               scenes_loop cd (POV cd) temp [0..<length (scenes cd)]
                 (markdown_content @ ''## Scenes\<newline>'', sn)))"

subsection \<open>Writing the files\<close>

definition md_name :: "string \<Rightarrow> string \<Rightarrow> string" where
  "md_name output_dir file_path =
     [CHR 0x27] @ ''/'' @ output_dir @ ''/'' @ file_path @ ''.md'' @ [CHR 0x27]"

definition md_path :: "string \<Rightarrow> string \<Rightarrow> string" where
  "md_path output_dir file_path = ''./'' @ output_dir @ ''/'' @ file_path @ ''.md''"

text \<open>
  \<open>write_markdown\<close>: \<open>os.makedirs\<close> stands outside the \<open>try\<close>, so its failure leaves the
  function as an exception; a failure of \<open>open\<close> or \<open>write\<close> is logged and printed and the
  function returns.
\<close>

definition write_markdown ::
  "env \<Rightarrow> string \<Rightarrow> string \<Rightarrow> string \<Rightarrow> world \<Rightarrow> error option \<times> world" where
  "write_markdown ev file_path output_dir content w =
     (let w1 = emit (LogInfo (''Writing .md file at '' @ md_name output_dir file_path)) w in
      case (if dir_exists w1 then Inr w1
            else (case makedirs_error ev of
                    Some msg \<Rightarrow> Inl (OSError msg)
                  | None \<Rightarrow> Inr (emit (MakeDirs output_dir) (w1\<lparr>dir_exists := True\<rparr>))))
      of
        Inl e \<Rightarrow> (Some e, w1)
      | Inr w2 \<Rightarrow>
          (case open_error ev (md_path output_dir file_path) of
             None \<Rightarrow>
               (None,
                emit (LogInfo (''Markdown file saved successfully: '' @ md_name output_dir file_path))
                  (emit (WriteFile (md_path output_dir file_path) content) w2))
           | Some msg \<Rightarrow>
               (None,
                emit (Print (''Error: An error occurred while saving the file '' @
                             md_name output_dir file_path @ '': '' @ msg))
                  (emit (LogError (''Error: An error occurred while saving the file '' @
                                   md_name output_dir file_path @ '': '' @ msg))
                     (emit (WriteFailed (md_path output_dir file_path)) w2)))))"

text \<open>
  Lines 142 to 194: the body of \<open>for chapter_key, chapter_data in chapters.items()\<close>.
  The state is the world and \<open>scene_number\<close>; the result says whether an exception left
  the body.  The log record of line 192 reads \<open>scene_number\<close>.
\<close>

definition chapter_step ::
  "env \<Rightarrow> string list option \<Rightarrow> string \<Rightarrow> bool \<Rightarrow> nat \<Rightarrow> cell \<times> chapter_data \<Rightarrow>
   world \<times> nat option \<Rightarrow> error option \<times> world \<times> nat option" where
  "chapter_step ev tags output_dir am n kc st =
     (case chapter_content ev n tags am (fst kc) (snd kc) (snd st) of
        Inl (e, sn) \<Rightarrow> (Some e, fst st, sn)
      | Inr (markdown_content, sn) \<Rightarrow>
          (case sn of
             None \<Rightarrow> (Some (UnboundLocalError ''scene_number''), fst st, sn)
           | Some scene_number \<Rightarrow>
               (let w1 = emit (LogInfo (''Chapter '' @ fmt (fst kc) @ '', Scene '' @
                                        str_nat scene_number @ '' created.'')) (fst st);
                    r = write_markdown ev (''Chapter '' @ fmt (fst kc)) output_dir markdown_content w1
                in (fst r, snd r, sn))))"

fun chapters_loop ::
  "env \<Rightarrow> string list option \<Rightarrow> string \<Rightarrow> bool \<Rightarrow> nat \<Rightarrow> chapters \<Rightarrow>
   world \<times> nat option \<Rightarrow> (error \<times> cell) option \<times> world \<times> nat option" where
  "chapters_loop ev tags output_dir am n [] st = (None, st)"
| "chapters_loop ev tags output_dir am n (kc # rest) st =
     (case chapter_step ev tags output_dir am n kc st of
        (Some e, st') \<Rightarrow> (Some (e, fst kc), st')
      | (None, st') \<Rightarrow> chapters_loop ev tags output_dir am (Suc n) rest st')"

text \<open>
  \<open>generate_markdown_content\<close>.  The first log record takes \<open>len(chapters)\<close> before the
  \<open>try\<close>: with the \<open>None\<close> that \<open>parse_scenes\<close> returns after a failure this raises
  \<open>TypeError\<close> out of the function.  The handler at lines 195 to 197 covers the whole
  loop: it logs and prints once and the function returns, the chapters not yet reached
  are not rendered.  The handler itself reads \<open>scene_number\<close>.
\<close>

definition generate_markdown_content ::
  "env \<Rightarrow> chapters option \<Rightarrow> string list option \<Rightarrow> string \<Rightarrow> bool \<Rightarrow> world \<Rightarrow> outcome \<times> world" where
  "generate_markdown_content ev chs tags output_dir am w =
     (case chs of
        None \<Rightarrow>
          (Raised (TypeError (''object of type '' @ [CHR 0x27] @ ''NoneType'' @ [CHR 0x27] @
                              '' has no len()'')), w)
      | Some chs' \<Rightarrow>
          (let w1 = emit (LogInfo (''Generating .md markdown files for '' @
                                   str_nat (length chs') @ '' chapters.'')) w
           in case chapters_loop ev tags output_dir am 0 chs' (w1, None) of
                (None, w2, sn) \<Rightarrow> (Returned, w2)
              | (Some (e, chapter_key), w2, sn) \<Rightarrow>
                  (case sn of
                     None \<Rightarrow> (Raised (UnboundLocalError ''scene_number''), w2)
                   | Some scene_number \<Rightarrow>
                       (Returned,
                        emit (Print (''Error: An error occured while parsing Chapter '' @
                                     fmt chapter_key @ '', Scene '' @ str_nat scene_number @
                                     '': '' @ exc_str e))
                          (emit (LogError (''Error: An error occured while parsing Chapter '' @
                                           fmt chapter_key @ '', Scene '' @ str_nat scene_number @
                                           '': '' @ exc_str e)) w2)))))"

text \<open>
  \<open>main\<close> from line 266 on, for a data frame that \<open>read_excel_file\<close> has loaded and with
  the option \<open>--generate_metrics\<close> left at its default (no charts).  An exception that
  leaves \<open>generate_markdown_content\<close> ends the run.
\<close>

definition main ::
  "env \<Rightarrow> string \<Rightarrow> row list \<Rightarrow> nat option \<Rightarrow> string list option \<Rightarrow> bool \<Rightarrow> string \<Rightarrow> world \<Rightarrow>
   outcome \<times> world" where
  "main ev input_file df num_rows tags am output_dir w =
     (let w1 = emit (Print ''Script started.'') (emit (LogInfo ''Script started'') w);
          p = parse_scenes ev df num_rows w1;
          g = generate_markdown_content ev (fst p) tags output_dir am (snd p)
      in case (fst g, fst p) of
           (Returned, Some chs) \<Rightarrow>
             (Returned,
              emit (Print (''Script complete. Excel file: '' @ [CHR 0x27] @ input_file @ [CHR 0x27] @
                           '' converted to '' @ str_nat (length chs) @ '' .md files.''))
                (emit (LogInfo (''Script complete. Excel file: '' @ [CHR 0x27] @ input_file @
                                [CHR 0x27] @ '' converted to '' @ str_nat (length chs) @
                                '' .md files.'')) (snd g)))
         | (Returned, None) \<Rightarrow>
             (Raised (TypeError (''object of type '' @ [CHR 0x27] @ ''NoneType'' @ [CHR 0x27] @
                                 '' has no len()'')), snd g)
         | (Raised e, _) \<Rightarrow> (Raised e, snd g))"

text \<open>Reading a trace: the files written, and the paths \<open>open\<close> was called on.\<close>

fun files_written :: "event list \<Rightarrow> (string \<times> string) list" where
  "files_written [] = []"
| "files_written (WriteFile p c # es) = (p, c) # files_written es"
| "files_written (e # es) = files_written es"

fun opened :: "event list \<Rightarrow> string list" where
  "opened [] = []"
| "opened (WriteFile p c # es) = p # opened es"
| "opened (WriteFailed p # es) = p # opened es"
| "opened (e # es) = opened es"

subsection \<open>What the rows say\<close>

text \<open>
  The notions the statements below are phrased in, read off the input rows alone: the
  columns the script reads, a row that has them all, the cell of such a row in a column
  (\<open>col\<close>, used for rows that have the column), and the aggregate a list of rows builds
  when the steps of lines 112 to 123 are applied to the initial dictionary one row after
  the other.

  The chapters of an input are read off its rows in input order.  \<open>keys_of\<close> keeps the key
  object of each row whose key no kept key object is the same key as.  \<open>chapter_rows\<close>
  files every row under the first kept key that is the same key as its own, or opens a
  new chapter for it: it pairs each chapter key with the rows the chapter is built from.
  \<open>rows_of k\<close> are the rows whose \<open>Chapter\<close> cell equals \<open>k\<close>; where the dictionary's
  comparison of the keys of the input is plain equality of the cells (\<open>plain_keys\<close>, as
  for keys that are all strings), these are the rows of the chapter \<open>k\<close>.
\<close>

definition columns :: "string list" where
  "columns = [''Week'', ''Arc'', ''Chapter'', ''Location'', ''Uniform'', ''Time'', ''Weather'',
              ''Day'', ''Description'', ''POV'', ''Temperature'']"

definition complete :: "row \<Rightarrow> bool" where
  "complete r = list_all (\<lambda>c. map_of r c \<noteq> None) columns"

definition col :: "row \<Rightarrow> string \<Rightarrow> cell" where
  "col r c = the (map_of r c)"

definition chapter_of :: "row \<Rightarrow> cell" where
  "chapter_of r = col r ''Chapter''"

definition rows_of :: "cell \<Rightarrow> row list \<Rightarrow> row list" where
  "rows_of k rows = filter (\<lambda>r. chapter_of r = k) rows"

definition insert_key :: "env \<Rightarrow> cell list \<Rightarrow> cell \<Rightarrow> cell list" where
  "insert_key ev ks k = (if list_ex (\<lambda>k'. same_key ev k' k) ks then ks else ks @ [k])"

definition keys_of :: "env \<Rightarrow> row list \<Rightarrow> cell list" where
  "keys_of ev rows = foldl (insert_key ev) [] (map chapter_of rows)"

definition file_row :: "env \<Rightarrow> (cell \<times> row list) list \<Rightarrow> row \<Rightarrow> (cell \<times> row list) list" where
  "file_row ev g r =
     (case find_key ev (map fst g) (chapter_of r) of
        None \<Rightarrow> g @ [(chapter_of r, [r])]
      | Some i \<Rightarrow> g[i := (fst (g ! i), snd (g ! i) @ [r])])"

definition chapter_rows :: "env \<Rightarrow> row list \<Rightarrow> (cell \<times> row list) list" where
  "chapter_rows ev rows = foldl (file_row ev) [] rows"

definition plain_keys :: "env \<Rightarrow> row list \<Rightarrow> bool" where
  "plain_keys ev rows =
     list_all (\<lambda>a. list_all (\<lambda>b. same_key ev (chapter_of a) (chapter_of b) =
                                    (chapter_of a = chapter_of b)) rows) rows"

definition add_row :: "row \<Rightarrow> chapter_data \<Rightarrow> chapter_data" where
  "add_row r =
     add_scene (col r ''Week'') (col r ''Arc'') (col r ''Location'') (col r ''Uniform'')
       (col r ''Time'') (col r ''Weather'') (col r ''Day'') (col r ''Description'')
       (col r ''POV'') (col r ''Temperature'')"

definition aggregate :: "row list \<Rightarrow> chapter_data" where
  "aggregate rs = foldl (\<lambda>d r. add_row r d) new_chapter rs"

definition aggregated :: "(cell \<times> row list) list \<Rightarrow> chapters" where
  "aggregated g = map (\<lambda>x. (fst x, aggregate (snd x))) g"

definition table :: "env \<Rightarrow> row list \<Rightarrow> chapters" where
  "table ev rows = aggregated (chapter_rows ev rows)"

text \<open>
  The text of a document, written out from the rows of its chapter: the bullets of a
  location, the labelled fields of a scene, a scene section with its heading, the
  sections of a chapter numbered from 1 in the order of the rows, and the document.
  The chapter's point of view, temperature and arc are those of its last row.
\<close>

definition setting_text :: "string \<Rightarrow> string" where
  "setting_text loc = parts_loop (split_py loc ''. '') []"

definition scene_fields :: "cell \<Rightarrow> cell \<Rightarrow> row \<Rightarrow> string" where
  "scene_fields pov temp r =
     '' - POV: '' @ fmt pov @ ''\<newline>'' @
     '' - Date and Time: '' @ fmt (col r ''Time'') @ ''\<newline>'' @
     '' - Day: '' @ fmt (col r ''Day'') @ ''\<newline>'' @
     '' - Week: '' @ fmt (col r ''Week'') @ ''\<newline>'' @
     '' - Temperature: '' @ fmt temp @ ''\<newline>'' @
     '' - Weather: '' @ fmt (col r ''Weather'') @ ''\<newline>'' @
     '' - Uniform: '' @ fmt (col r ''Uniform'') @ ''\<newline>\<newline>'' @
     '' - Description: '' @ fmt (col r ''Description'') @ ''\<newline>\<newline>'' @
     '' #### Setting:\<newline>'' @
     setting_text (fmt (col r ''Location'')) @ ''\<newline>''"

definition scene_section :: "cell \<Rightarrow> cell \<Rightarrow> nat \<Rightarrow> row \<Rightarrow> string" where
  "scene_section pov temp n r =
     ''### Scene '' @ str_nat n @ ''\<newline>\<newline>'' @ scene_fields pov temp r"

definition scene_sections :: "cell \<Rightarrow> cell \<Rightarrow> row list \<Rightarrow> string list" where
  "scene_sections pov temp rs =
     map (\<lambda>i. scene_section pov temp (Suc i) (rs ! i)) [0..<length rs]"

definition tag_list :: "string list option \<Rightarrow> string list" where
  "tag_list tags = (case tags of None \<Rightarrow> [] | Some ts \<Rightarrow> ts)"

definition chapter_doc ::
  "env \<Rightarrow> nat \<Rightarrow> string list option \<Rightarrow> bool \<Rightarrow> cell \<Rightarrow> row list \<Rightarrow> string" where
  "chapter_doc ev n tags am k rs =
     (if am
      then add_metadata ev n [] (col (last rs) ''Arc'') (col (last rs) ''POV'')
             (join_py '', '' (tag_list tags))
      else []) @
     ''# Chapter '' @ fmt k @ ''\<newline>'' @ ''## Scenes\<newline>'' @
     concat (scene_sections (col (last rs) ''POV'') (col (last rs) ''Temperature'') rs)"

text \<open>
  A run is free of rendering faults when every row has all columns and a \<open>str\<close> in the
  column \<open>Location\<close>, and a tag list was given if the metadata block is asked for.
\<close>

definition str_locations :: "row list \<Rightarrow> bool" where
  "str_locations rs = list_all (\<lambda>r. is_str (col r ''Location'')) rs"

definition good_rows :: "string list option \<Rightarrow> bool \<Rightarrow> row list \<Rightarrow> bool" where
  "good_rows tags am rs \<longleftrightarrow> rs \<noteq> [] \<and> str_locations rs \<and> (am \<longrightarrow> tags \<noteq> None)"

definition chapter_file :: "string \<Rightarrow> cell \<Rightarrow> string" where
  "chapter_file output_dir k = md_path output_dir (''Chapter '' @ fmt k)"

fun errors_logged :: "event list \<Rightarrow> string list" where
  "errors_logged [] = []"
| "errors_logged (LogError m # es) = m # errors_logged es"
| "errors_logged (e # es) = errors_logged es"

text \<open>
  What a chapter is expected to leave in the world: the file with its document unless
  opening or writing that file fails, and then the error record of line 221 instead.
  \<open>documents\<close> are the files of a run in which no file fails: one per chapter, named
  after the chapter's stored key.
\<close>

definition save_error :: "string \<Rightarrow> cell \<Rightarrow> string \<Rightarrow> string" where
  "save_error output_dir k msg =
     ''Error: An error occurred while saving the file '' @
     md_name output_dir (''Chapter '' @ fmt k) @ '': '' @ msg"

definition written_for ::
  "env \<Rightarrow> string \<Rightarrow> string list option \<Rightarrow> bool \<Rightarrow> nat \<times> cell \<times> row list \<Rightarrow> (string \<times> string) list" where
  "written_for ev output_dir tags am x =
     (case x of (n, k, rs) \<Rightarrow>
        (case open_error ev (chapter_file output_dir k) of
           None \<Rightarrow> [(chapter_file output_dir k, chapter_doc ev n tags am k rs)]
         | Some msg \<Rightarrow> []))"

definition logged_for :: "env \<Rightarrow> string \<Rightarrow> cell \<times> row list \<Rightarrow> string list" where
  "logged_for ev output_dir x =
     (case open_error ev (chapter_file output_dir (fst x)) of
        None \<Rightarrow> []
      | Some msg \<Rightarrow> [save_error output_dir (fst x) msg])"

definition documents ::
  "env \<Rightarrow> string \<Rightarrow> string list option \<Rightarrow> bool \<Rightarrow> row list \<Rightarrow> (string \<times> string) list" where
  "documents ev output_dir tags am df =
     map (\<lambda>x. (chapter_file output_dir (fst (snd x)),
               chapter_doc ev (fst x) tags am (fst (snd x)) (snd (snd x))))
       (enumerate 0 (chapter_rows ev df))"

definition no_len_of_None :: string where
  "no_len_of_None = ''object of type '' @ [CHR 0x27] @ ''NoneType'' @ [CHR 0x27] @ '' has no len()''"

text \<open>
  The scene section expected for a row whose location is \<open>Forest - Clearing, River\<close>:
  the heading with the scene's number, the labelled fields of the row, and a setting
  block of one top-level bullet with two sub-bullets.
\<close>

definition forest_section :: "cell \<Rightarrow> cell \<Rightarrow> string \<Rightarrow> row \<Rightarrow> string" where
  "forest_section pov temp number r =
     ''### Scene '' @ number @ ''\<newline>\<newline>'' @
     '' - POV: '' @ fmt pov @ ''\<newline>'' @
     '' - Date and Time: '' @ fmt (col r ''Time'') @ ''\<newline>'' @
     '' - Day: '' @ fmt (col r ''Day'') @ ''\<newline>'' @
     '' - Week: '' @ fmt (col r ''Week'') @ ''\<newline>'' @
     '' - Temperature: '' @ fmt temp @ ''\<newline>'' @
     '' - Weather: '' @ fmt (col r ''Weather'') @ ''\<newline>'' @
     '' - Uniform: '' @ fmt (col r ''Uniform'') @ ''\<newline>\<newline>'' @
     '' - Description: '' @ fmt (col r ''Description'') @ ''\<newline>\<newline>'' @
     '' #### Setting:\<newline>'' @
     '' - Forest\<newline>'' @
     ''     - Clearing\<newline>'' @
     ''     - River\<newline>'' @
     ''\<newline>''"

text \<open>Sample values for the concrete runs below.\<close>

definition sample_row :: "string \<Rightarrow> cell \<Rightarrow> string \<Rightarrow> row" where
  "sample_row ch loc d =
     [(''Week'', COther ''int'' ''1''), (''Arc'', COther ''int'' ''2''), (''Chapter'', CStr ch),
      (''Location'', loc), (''Uniform'', CStr ''Coat''), (''Time'', CStr ''Noon''),
      (''Weather'', CStr ''Rain''), (''Day'', CStr ''Monday''), (''Description'', CStr d),
      (''POV'', CStr ''Ann''), (''Temperature'', COther ''int'' ''20'')]"

definition keyed_row :: "cell \<Rightarrow> cell \<Rightarrow> string \<Rightarrow> row" where
  "keyed_row k loc d =
     [(''Week'', COther ''int'' ''1''), (''Arc'', COther ''int'' ''2''), (''Chapter'', k),
      (''Location'', loc), (''Uniform'', CStr ''Coat''), (''Time'', CStr ''Noon''),
      (''Weather'', CStr ''Rain''), (''Day'', CStr ''Monday''), (''Description'', CStr d),
      (''POV'', CStr ''Ann''), (''Temperature'', COther ''int'' ''20'')]"

text \<open>
  In the sample environment two key objects that are not strings are one key when they
  are equal cells, except that a float \<open>nan\<close> is never found again, and the int \<open>1\<close> and
  the bool \<open>True\<close> are one key.
\<close>

definition sample_obj_eq :: "cell \<Rightarrow> cell \<Rightarrow> bool" where
  "sample_obj_eq a b =
     ((a = b \<and> a \<noteq> COther ''float'' ''nan'') \<or>
      (a = COther ''int'' ''1'' \<and> b = COther ''bool'' ''True'') \<or>
      (a = COther ''bool'' ''True'' \<and> b = COther ''int'' ''1''))"

definition sample_env :: env where
  "sample_env =
     \<lparr>now = (\<lambda>n. ''2024-01-01 10:00:00''), script = ''excel_to_markdown.py'',
      makedirs_error = None, open_error = (\<lambda>p. None), obj_eq = sample_obj_eq\<rparr>"

definition locked_env :: env where
  "locked_env =
     sample_env\<lparr>open_error :=
       (\<lambda>p. if p = ''./out/Chapter 1.md'' then Some ''Permission denied'' else None)\<rparr>"

definition fresh_world :: world where
  "fresh_world = \<lparr>dir_exists = False, trace = []\<rparr>"

subsection \<open>The aggregator, step by step\<close>

lemma map_of_iadd_wc:
  "map_of (iadd_wc wc w n) w' =
     (if w' = w then Some (getitem_wc wc w + n) else map_of wc w')"
  by (simp add: iadd_wc_def update_conv')

lemma add_all_Nil: "add_all m [] = m"
  by (simp add: add_all_def)

lemma add_all_Cons:
  "add_all m (n # ns) = add_all (Some ((case m of None \<Rightarrow> 0 | Some k \<Rightarrow> k) + n)) ns"
  by (simp add: add_all_def)

lemma add_all_append: "add_all m (xs @ ys) = add_all (add_all m xs) ys"
  by (cases "xs = []"; cases "ys = []") (simp_all add: add_all_def)

lemma row_step_other:
  "length row \<noteq> 2 \<Longrightarrow> row_step int_py filename row (wc, out) = (wc, out)"
  by (cases "(int_py, filename, row, (wc, out))" rule: row_step.cases) auto

lemma row_counts_other: "length row \<noteq> 2 \<Longrightarrow> row_counts int_py w row = []"
  by (cases "(int_py, w, row)" rule: row_counts.cases) auto

lemma row_messages_other: "length row \<noteq> 2 \<Longrightarrow> row_messages int_py filename row = []"
  by (cases "(int_py, filename, row)" rule: row_messages.cases) auto

lemma two_fields: "length row = 2 \<Longrightarrow> \<exists>a b. row = [a, b]"
  by (cases row; cases "tl row") auto

lemma row_step_counts:
  "map_of (fst (row_step int_py filename row (wc, out))) w =
     add_all (map_of wc w) (row_counts int_py w row)"
proof (cases "length row = 2")
  case True
  then obtain a b where row: "row = [a, b]" using two_fields by blast
  show ?thesis
    by (cases "int_py b")
      (simp_all add: row add_all_Nil add_all_Cons map_of_iadd_wc getitem_wc_def)
next
  case False
  then show ?thesis
    by (simp add: row_step_other row_counts_other add_all_Nil)
qed

lemma row_step_messages:
  "snd (row_step int_py filename row (wc, out)) = out @ row_messages int_py filename row"
proof (cases "length row = 2")
  case True
  then obtain a b where row: "row = [a, b]" using two_fields by blast
  show ?thesis by (cases "int_py b") (simp_all add: row)
next
  case False
  then show ?thesis
    by (simp add: row_step_other row_messages_other)
qed

lemma rows_loop_counts:
  "map_of (fst (rows_loop int_py filename rows st)) w =
     add_all (map_of (fst st) w) (concat (map (row_counts int_py w) rows))"
proof (induction rows arbitrary: st)
  case Nil
  show ?case by (simp add: add_all_Nil)
next
  case (Cons row rows)
  obtain wc out where st: "st = (wc, out)" by (cases st)
  show ?case
    by (simp add: Cons.IH st row_step_counts add_all_append)
qed

lemma rows_loop_messages:
  "snd (rows_loop int_py filename rows st) =
     snd st @ concat (map (row_messages int_py filename) rows)"
proof (induction rows arbitrary: st)
  case Nil
  show ?case by simp
next
  case (Cons row rows)
  obtain wc out where st: "st = (wc, out)" by (cases st)
  show ?case
    by (simp add: Cons.IH st row_step_messages)
qed

lemma rows_loop_append:
  "rows_loop int_py filename (xs @ ys) st =
     rows_loop int_py filename ys (rows_loop int_py filename xs st)"
  by (induction xs arbitrary: st) simp_all

lemma files_loop_append:
  "files_loop int_py (xs @ ys) st = files_loop int_py ys (files_loop int_py xs st)"
proof (induction xs arbitrary: st)
  case Nil
  show ?case by simp
next
  case (Cons f xs)
  obtain filename rows where f: "f = (filename, rows)" by (cases f)
  show ?case by (simp add: f Cons.IH)
qed

lemma files_loop_counts:
  "map_of (fst (files_loop int_py folder st)) w =
     add_all (map_of (fst st) w) (folder_counts int_py w folder)"
proof (induction folder arbitrary: st)
  case Nil
  show ?case by (simp add: folder_counts_def add_all_Nil)
next
  case (Cons f folder)
  obtain filename rows where f: "f = (filename, rows)" by (cases f)
  have "folder_counts int_py w (f # folder) =
      file_counts int_py w f @ folder_counts int_py w folder"
    by (simp add: folder_counts_def)
  then show ?case
    by (simp add: Cons.IH f rows_loop_counts add_all_append file_counts_def add_all_Nil)
qed

lemma files_loop_messages:
  "snd (files_loop int_py folder st) = snd st @ folder_messages int_py folder"
proof (induction folder arbitrary: st)
  case Nil
  show ?case by (simp add: folder_messages_def)
next
  case (Cons f folder)
  obtain filename rows where f: "f = (filename, rows)" by (cases f)
  have "folder_messages int_py (f # folder) =
      file_messages int_py f @ folder_messages int_py folder"
    by (simp add: folder_messages_def)
  then show ?case
    by (simp add: Cons.IH f rows_loop_messages file_messages_def)
qed

lemma row_step_fst:
  "fst st = fst st' \<Longrightarrow>
   fst (row_step int_py filename row st) = fst (row_step int_py filename row st')"
proof (cases "length row = 2")
  case True
  assume eq: "fst st = fst st'"
  obtain a b where row: "row = [a, b]" using True two_fields by blast
  obtain wc out where st: "st = (wc, out)" by (cases st)
  obtain wc' out' where st': "st' = (wc', out')" by (cases st')
  from eq show ?thesis by (cases "int_py b") (simp_all add: row st st')
next
  case False
  assume eq: "fst st = fst st'"
  obtain wc out where st: "st = (wc, out)" by (cases st)
  obtain wc' out' where st': "st' = (wc', out')" by (cases st')
  from eq False show ?thesis by (simp add: st st' row_step_other)
qed

lemma rows_loop_fst:
  "fst st = fst st' \<Longrightarrow>
   fst (rows_loop int_py filename rows st) = fst (rows_loop int_py filename rows st')"
proof (induction rows arbitrary: st st')
  case Nil
  then show ?case by simp
next
  case (Cons row rows)
  show ?case
    by (simp add: Cons.IH [OF row_step_fst [OF Cons.prems]])
qed

lemma files_loop_fst:
  "fst st = fst st' \<Longrightarrow>
   fst (files_loop int_py folder st) = fst (files_loop int_py folder st')"
proof (induction folder arbitrary: st st')
  case Nil
  then show ?case by simp
next
  case (Cons f folder)
  obtain filename rows where f: "f = (filename, rows)" by (cases f)
  have rows: "fst (rows_loop int_py filename rows st) = fst (rows_loop int_py filename rows st')"
    by (rule rows_loop_fst [OF Cons.prems])
  show ?case
  proof (cases "endswith filename ''.csv''")
    case True
    then show ?thesis by (simp add: f Cons.IH [OF rows])
  next
    case False
    then show ?thesis by (simp add: f Cons.IH [OF Cons.prems])
  qed
qed

lemma rows_loop_skip:
  assumes "int_py c = None"
  shows "rows_loop int_py filename (pre @ [w, c] # post) st =
         rows_loop int_py filename post
           (fst (rows_loop int_py filename pre st),
            snd (rows_loop int_py filename pre st) @ [skip_message w filename])"
proof -
  obtain wc out where mid: "rows_loop int_py filename pre st = (wc, out)"
    by (cases "rows_loop int_py filename pre st")
  show ?thesis
    by (simp add: rows_loop_append mid assms)
qed

lemma rows_loop_skip_fst:
  assumes "int_py c = None"
  shows "fst (rows_loop int_py filename (pre @ [w, c] # post) st) =
         fst (rows_loop int_py filename (pre @ post) st)"
proof -
  define mid where "mid = rows_loop int_py filename pre st"
  have "fst (fst mid, snd mid @ [skip_message w filename]) = fst mid" by simp
  then have "fst (rows_loop int_py filename post (fst mid, snd mid @ [skip_message w filename])) =
        fst (rows_loop int_py filename post mid)"
    by (rule rows_loop_fst)
  moreover have "rows_loop int_py filename (pre @ [w, c] # post) st =
      rows_loop int_py filename post (fst mid, snd mid @ [skip_message w filename])"
    unfolding mid_def using assms by (rule rows_loop_skip)
  moreover have "rows_loop int_py filename (pre @ post) st = rows_loop int_py filename post mid"
    unfolding mid_def by (rule rows_loop_append)
  ultimately show ?thesis by simp
qed

lemma files_loop_skip_fst:
  assumes "int_py c = None"
  shows "fst (files_loop int_py (before @ (filename, pre @ [w, c] # post) # after) st) =
         fst (files_loop int_py (before @ (filename, pre @ post) # after) st)"
proof -
  define st0 where "st0 = files_loop int_py before st"
  have rows: "fst (rows_loop int_py filename (pre @ [w, c] # post) st0) =
      fst (rows_loop int_py filename (pre @ post) st0)"
    using assms by (rule rows_loop_skip_fst)
  have "fst (files_loop int_py ((filename, pre @ [w, c] # post) # after) st0) =
        fst (files_loop int_py ((filename, pre @ post) # after) st0)"
  proof (cases "endswith filename ''.csv''")
    case True
    then show ?thesis by (simp add: files_loop_fst [OF rows])
  next
    case False
    then show ?thesis by simp
  qed
  then show ?thesis
    by (simp only: files_loop_append st0_def)
qed

subsection \<open>Rows that are skipped\<close>

text \<open>
  Claim C9.  A two-field row whose count field is not an integer is skipped with a printed
  warning: the loop body leaves the counts as they are and appends the message; the loop
  goes on with the rows after it from that state; and the counts returned for the whole
  folder are those of the same folder without the row, so every later row and every later
  file is still processed.  The warning is among the lines printed when the file is a
  \<open>.csv\<close> file.
\<close>

theorem unparseable_count_is_skipped:
  assumes "int_py c = None"
  shows "row_step int_py filename [w, c] (wc, out) = (wc, out @ [skip_message w filename]) \<and>
         rows_loop int_py filename (pre @ [w, c] # post) st =
           rows_loop int_py filename post
             (fst (rows_loop int_py filename pre st),
              snd (rows_loop int_py filename pre st) @ [skip_message w filename]) \<and>
         fst (read_csv_files int_py (before @ (filename, pre @ [w, c] # post) # after)) =
           fst (read_csv_files int_py (before @ (filename, pre @ post) # after)) \<and>
         (endswith filename ''.csv'' \<longrightarrow>
            skip_message w filename \<in>
              set (snd (read_csv_files int_py (before @ (filename, pre @ [w, c] # post) # after))))"
proof -
  have body: "row_step int_py filename [w, c] (wc, out) = (wc, out @ [skip_message w filename])"
    using assms by simp
  have loop: "rows_loop int_py filename (pre @ [w, c] # post) st =
      rows_loop int_py filename post
        (fst (rows_loop int_py filename pre st),
         snd (rows_loop int_py filename pre st) @ [skip_message w filename])"
    using assms by (rule rows_loop_skip)
  have counts: "fst (read_csv_files int_py (before @ (filename, pre @ [w, c] # post) # after)) =
      fst (read_csv_files int_py (before @ (filename, pre @ post) # after))"
    unfolding read_csv_files_def using assms by (rule files_loop_skip_fst)
  have printed: "skip_message w filename \<in>
      set (snd (read_csv_files int_py (before @ (filename, pre @ [w, c] # post) # after)))"
    if "endswith filename ''.csv''"
    using that assms
    by (simp add: read_csv_files_def files_loop_messages folder_messages_def file_messages_def)
  from body loop counts printed show ?thesis by blast
qed

theorem unparseable_count_is_skipped_witness:
  "int_decimal ''x'' = None \<and>
   row_step int_decimal ''a.csv'' [''the'', ''x''] ([(''the'', 3)], []) =
     ([(''the'', 3)], [skip_message ''the'' ''a.csv'']) \<and>
   fst (read_csv_files int_decimal
          [(''a.csv'', [[''the'', ''3''], [''the'', ''x''], [''the'', ''4'']]),
           (''b.csv'', [[''cat'', ''5'']])]) =
     fst (read_csv_files int_decimal
          [(''a.csv'', [[''the'', ''3''], [''the'', ''4'']]), (''b.csv'', [[''cat'', ''5'']])]) \<and>
   endswith ''a.csv'' ''.csv'' \<and>
   skip_message ''the'' ''a.csv'' \<in>
     set (snd (read_csv_files int_decimal
          [(''a.csv'', [[''the'', ''3''], [''the'', ''x''], [''the'', ''4'']]),
           (''b.csv'', [[''cat'', ''5'']])]))"
proof -
  have h: "int_decimal ''x'' = None"
    by (simp add: int_decimal_def)
  have e: "endswith ''a.csv'' ''.csv''"
    by (simp add: endswith_def)
  show ?thesis
    using h e
      unparseable_count_is_skipped [where int_py = int_decimal and c = "''x''", OF h,
        where filename = "''a.csv''" and w = "''the''" and wc = "[(''the'', 3)]" and out = "[]"
          and pre = "[[''the'', ''3'']]" and post = "[[''the'', ''4'']]" and before = "[]"
          and after = "[(''b.csv'', [[''cat'', ''5'']])]"]
    by simp
qed

text \<open>
  Claim C10.  A row whose number of fields is not 2 changes nothing: the loop body returns
  the state it was given, counts and printed lines alike.  Hence the dictionary returned
  holds, for each word, the sum of the integer counts of the two-field rows of the
  \<open>.csv\<close> files naming that word (and no entry for a word without such a row), and the
  lines printed are exactly the warnings of two-field rows with a count that is no
  integer.
\<close>

theorem malformed_rows_are_ignored:
  "(length row \<noteq> 2 \<longrightarrow> row_step int_py filename row st = st) \<and>
   map_of (fst (read_csv_files int_py folder)) w =
     (if folder_counts int_py w folder = [] then None
      else Some (sum_list (folder_counts int_py w folder))) \<and>
   getitem_wc (fst (read_csv_files int_py folder)) w = sum_list (folder_counts int_py w folder) \<and>
   snd (read_csv_files int_py folder) = folder_messages int_py folder"
proof -
  obtain wc out where st: "st = (wc, out)" by (cases st)
  have ignored: "length row \<noteq> 2 \<longrightarrow> row_step int_py filename row st = st"
    by (simp add: st row_step_other)
  have entry: "map_of (fst (read_csv_files int_py folder)) w =
      (if folder_counts int_py w folder = [] then None
       else Some (sum_list (folder_counts int_py w folder)))"
    by (simp add: read_csv_files_def files_loop_counts add_all_def)
  have total: "getitem_wc (fst (read_csv_files int_py folder)) w =
      sum_list (folder_counts int_py w folder)"
    by (simp add: getitem_wc_def entry)
  have printed: "snd (read_csv_files int_py folder) = folder_messages int_py folder"
    by (simp add: read_csv_files_def files_loop_messages)
  from ignored entry total printed show ?thesis by blast
qed

theorem malformed_rows_are_ignored_witness:
  "length [''cat'', ''2'', ''9''] \<noteq> 2 \<and>
   row_step int_decimal ''a.csv'' [''cat'', ''2'', ''9''] ([(''the'', 3)], []) = ([(''the'', 3)], []) \<and>
   map_of (fst (read_csv_files int_decimal
      [(''a.csv'', [[''the'', ''3''], [''lonely''], [''cat'', ''2'', ''9''], [''the'', ''4'']]),
       (''notes.txt'', [[''the'', ''100'']])])) ''the'' = Some 7 \<and>
   snd (read_csv_files int_decimal
      [(''a.csv'', [[''the'', ''3''], [''lonely''], [''cat'', ''2'', ''9''], [''the'', ''4'']]),
       (''notes.txt'', [[''the'', ''100'']])]) = []"
  using malformed_rows_are_ignored [of "[''cat'', ''2'', ''9'']" int_decimal "''a.csv''"
      "([(''the'', 3)], [])"
      "[(''a.csv'', [[''the'', ''3''], [''lonely''], [''cat'', ''2'', ''9''], [''the'', ''4'']]),
        (''notes.txt'', [[''the'', ''100'']])]" "''the''"]
  by (simp add: folder_counts_def file_counts_def folder_messages_def file_messages_def
      endswith_def int_decimal_def)

section \<open>excel\_to\_markdown.py: results\<close>

subsection \<open>Sequencing\<close>

lemma bnd_Inl [simp]: "bnd (Inl e) f = Inl e"
  by (simp add: bnd_def)

lemma bnd_Inr [simp]: "bnd (Inr x) f = f x"
  by (simp add: bnd_def)

lemma bnd_eq_Inr:
  "bnd m f = Inr y \<longleftrightarrow> (\<exists>x. m = Inr x \<and> f x = Inr y)"
  by (cases m) simp_all

subsection \<open>Splitting and the bullets of a location\<close>

lemma split_from_not_Nil: "split_from sep piece s \<noteq> []"
  by (induction s arbitrary: piece) simp_all

lemma split_py_not_Nil: "split_py s sep \<noteq> []"
  by (simp add: split_py_def split_from_not_Nil)

lemma split_from_absent:
  "\<not> contains s sep \<Longrightarrow> split_from sep piece s = [piece @ s]"
  by (induction s arbitrary: piece) auto

lemma split_py_absent: "\<not> contains s sep \<Longrightarrow> split_py s sep = [s]"
  by (simp add: split_py_def split_from_absent)

lemma min_locs_loop_append:
  "min_locs_loop js (a @ b) = a @ min_locs_loop js b"
  by (induction js arbitrary: b) simp_all

lemma subsubparts_loop_append:
  "subsubparts_loop ssp is (a @ b) = a @ subsubparts_loop ssp is b"
  by (induction "is" arbitrary: b) (simp_all add: min_locs_loop_append)

lemma parts_loop_append:
  "parts_loop ps (a @ b) = a @ parts_loop ps b"
proof (induction ps arbitrary: b)
  case Nil
  show ?case by simp
next
  case (Cons p ps)
  have "parts_loop (p # ps) (a @ b) =
      parts_loop ps (a @ subsubparts_loop (split_py p '' - '') [1..<length (split_py p '' - '')]
        (b @ '' - '' @ split_py p '' - '' ! 0 @ ''\<newline>''))"
    using subsubparts_loop_append [of "split_py p '' - ''" _ a "b @ '' - '' @ split_py p '' - '' ! 0 @ ''\<newline>''"]
    by (simp add: Let_def)
  then show ?case
    by (simp add: Cons.IH Let_def)
qed

lemma parts_loop_content: "parts_loop ps content = content @ parts_loop ps []"
  using parts_loop_append [of ps content "[]"] by simp

lemma render_setting_plain:
  assumes "\<not> contains loc ''. ''" and "\<not> contains loc '' - ''"
  shows "render_setting (CStr loc) content = Inr (content @ '' - '' @ loc @ ''\<newline>'')"
  using assms by (simp add: split_py_absent Let_def)

text \<open>
  Claim C3, as stated, fails: a location without \<open>" - "\<close> and without \<open>", "\<close> can still
  hold \<open>". "\<close>, on which line 178 splits first, and then renders as several top-level
  bullets.
\<close>

theorem plain_location_counterexample:
  "\<not> contains ''Inn. Yard'' '' - '' \<and> \<not> contains ''Inn. Yard'' '', '' \<and>
   render_setting (CStr ''Inn. Yard'') [] = Inr '' - Inn\<newline> - Yard\<newline>''"
  by (simp add: split_py_def Let_def)

text \<open>
  Claim C3, amended.  For a location string that contains none of \<open>". "\<close>, \<open>" - "\<close> and
  \<open>", "\<close>, the setting loop appends exactly one top-level bullet holding the whole string
  and no sub-bullet.
\<close>

theorem plain_location_one_bullet:
  assumes "\<not> contains loc ''. ''" and "\<not> contains loc '' - ''" and "\<not> contains loc '', ''"
  shows "render_setting (CStr loc) content = Inr (content @ '' - '' @ loc @ ''\<newline>'') \<and>
         setting_text loc = '' - '' @ loc @ ''\<newline>''"
  using assms by (simp add: render_setting_plain setting_text_def split_py_absent Let_def)

theorem plain_location_one_bullet_witness:
  "\<not> contains ''Old Mill'' ''. '' \<and> \<not> contains ''Old Mill'' '' - '' \<and>
   \<not> contains ''Old Mill'' '', '' \<and>
   render_setting (CStr ''Old Mill'') ''x'' = Inr (''x'' @ '' - '' @ ''Old Mill'' @ ''\<newline>'') \<and>
   setting_text ''Old Mill'' = '' - '' @ ''Old Mill'' @ ''\<newline>''"
proof -
  have a: "\<not> contains ''Old Mill'' ''. ''" by simp
  have b: "\<not> contains ''Old Mill'' '' - ''" by simp
  have c: "\<not> contains ''Old Mill'' '', ''" by simp
  from a b c plain_location_one_bullet [OF a b c, of "''x''"] show ?thesis by blast
qed

subsection \<open>Aggregating rows\<close>

lemma complete_getitem:
  "complete r \<Longrightarrow> c \<in> set columns \<Longrightarrow> getitem_row r c = Inr (col r c)"
  by (auto simp: complete_def getitem_row_def col_def list_all_iff)

lemma parse_row_complete:
  assumes "complete r"
  shows "parse_row ev r chs =
    Inr (case find_key ev (map fst chs) (chapter_of r) of
           None \<Rightarrow> chs @ [(chapter_of r, add_row r new_chapter)]
         | Some i \<Rightarrow> chs[i := (fst (chs ! i), add_row r (snd (chs ! i)))])"
proof -
  have g: "getitem_row r c = Inr (col r c)" if "c \<in> set columns" for c
    using assms that by (rule complete_getitem)
  have "getitem_row r ''Week'' = Inr (col r ''Week'')"
    "getitem_row r ''Arc'' = Inr (col r ''Arc'')"
    "getitem_row r ''Chapter'' = Inr (col r ''Chapter'')"
    "getitem_row r ''Location'' = Inr (col r ''Location'')"
    "getitem_row r ''Uniform'' = Inr (col r ''Uniform'')"
    "getitem_row r ''Time'' = Inr (col r ''Time'')"
    "getitem_row r ''Weather'' = Inr (col r ''Weather'')"
    "getitem_row r ''Day'' = Inr (col r ''Day'')"
    "getitem_row r ''Description'' = Inr (col r ''Description'')"
    "getitem_row r ''POV'' = Inr (col r ''POV'')"
    "getitem_row r ''Temperature'' = Inr (col r ''Temperature'')"
    by (rule g, simp add: columns_def)+
  then show ?thesis
    by (simp add: parse_row_def add_row_def chapter_of_def cong: option.case_cong)
qed

lemma getitem_row_Inr: "getitem_row r c = Inr v \<Longrightarrow> map_of r c \<noteq> None"
  by (simp add: getitem_row_def split: option.splits)

lemma parse_row_Inr_complete:
  assumes "parse_row ev r chs = Inr chs'"
  shows "complete r"
  using assms unfolding parse_row_def bnd_eq_Inr
  by (auto simp: complete_def columns_def dest!: getitem_row_Inr)

lemma parse_loop_Inr_complete:
  "parse_loop ev rs chs = Inr chs' \<Longrightarrow> list_all complete rs"
proof (induction rs arbitrary: chs)
  case Nil
  show ?case by simp
next
  case (Cons r rs)
  from Cons.prems obtain mid where
    mid: "parse_row ev r chs = Inr mid" "parse_loop ev rs mid = Inr chs'"
    by (auto simp: bnd_eq_Inr)
  show ?case
    using parse_row_Inr_complete [OF mid(1)] Cons.IH [OF mid(2)] by simp
qed

lemma parse_loop_append:
  "parse_loop ev (xs @ ys) chs = bnd (parse_loop ev xs chs) (parse_loop ev ys)"
proof (induction xs arbitrary: chs)
  case Nil
  show ?case by simp
next
  case (Cons x xs)
  show ?case by (cases "parse_row ev x chs") (simp_all add: Cons.IH)
qed

lemma find_key_Some:
  "find_key ev ks k = Some i \<Longrightarrow> i < length ks \<and> same_key ev (ks ! i) k"
  by (induction ks arbitrary: i) (auto split: if_splits)

lemma find_key_None: "find_key ev ks k = None \<longleftrightarrow> \<not> list_ex (\<lambda>k'. same_key ev k' k) ks"
  by (induction ks) auto

lemma aggregate_Nil: "aggregate [] = new_chapter"
  by (simp add: aggregate_def)

lemma aggregate_snoc: "aggregate (rs @ [r]) = add_row r (aggregate rs)"
  by (simp add: aggregate_def)

lemma aggregate_single: "aggregate [r] = add_row r new_chapter"
  using aggregate_snoc [of "[]" r] by (simp add: aggregate_Nil)

lemma map_fst_aggregated: "map fst (aggregated g) = map fst g"
  by (simp add: aggregated_def comp_def)

lemma length_aggregated: "length (aggregated g) = length g"
  by (simp add: aggregated_def)

lemma aggregated_nth:
  "i < length g \<Longrightarrow> aggregated g ! i = (fst (g ! i), aggregate (snd (g ! i)))"
  by (simp add: aggregated_def)

lemma parse_row_aggregated:
  assumes "complete r"
  shows "parse_row ev r (aggregated g) = Inr (aggregated (file_row ev g r))"
proof (cases "find_key ev (map fst g) (chapter_of r)")
  case None
  have "aggregated (g @ [(chapter_of r, [r])]) =
      aggregated g @ [(chapter_of r, add_row r new_chapter)]"
    by (simp add: aggregated_def aggregate_single)
  with None show ?thesis
    unfolding parse_row_complete [OF assms] map_fst_aggregated file_row_def by simp
next
  case (Some i)
  then have i: "i < length g" using find_key_Some [OF Some] by simp
  have "aggregated (g[i := (fst (g ! i), snd (g ! i) @ [r])]) =
      (aggregated g)[i := (fst (g ! i), add_row r (aggregate (snd (g ! i))))]"
    by (simp add: aggregated_def map_update aggregate_snoc)
  with Some i show ?thesis
    unfolding parse_row_complete [OF assms] map_fst_aggregated file_row_def
    by (simp add: aggregated_nth)
qed

lemma parse_loop_aggregated:
  "list_all complete rs \<Longrightarrow>
   parse_loop ev rs (aggregated g) = Inr (aggregated (foldl (file_row ev) g rs))"
proof (induction rs arbitrary: g)
  case Nil
  show ?case by simp
next
  case (Cons r rs)
  then have r: "complete r" and rs: "list_all complete rs" by simp_all
  show ?case
    by (simp add: parse_row_aggregated [OF r] Cons.IH [OF rs])
qed

lemma parse_loop_eq:
  "parse_loop ev rows [] = Inr chs \<longleftrightarrow> list_all complete rows \<and> chs = table ev rows"
proof -
  have "parse_loop ev rows [] = Inr (table ev rows)" if "list_all complete rows"
    using parse_loop_aggregated [OF that, of ev "[]"]
    by (simp add: table_def chapter_rows_def aggregated_def)
  then show ?thesis
    using parse_loop_Inr_complete [of ev rows "[]" chs] by auto
qed

subsection \<open>The chapters of an input\<close>

lemma chapter_rows_snoc:
  "chapter_rows ev (rows @ [r]) = file_row ev (chapter_rows ev rows) r"
  by (simp add: chapter_rows_def)

lemma keys_of_snoc: "keys_of ev (rows @ [r]) = insert_key ev (keys_of ev rows) (chapter_of r)"
  by (simp add: keys_of_def)

lemma map_fst_file_row:
  "map fst (file_row ev g r) = insert_key ev (map fst g) (chapter_of r)"
proof (cases "find_key ev (map fst g) (chapter_of r)")
  case None
  then have "\<not> list_ex (\<lambda>k'. same_key ev k' (chapter_of r)) (map fst g)"
    by (simp add: find_key_None)
  with None show ?thesis
    by (simp add: file_row_def insert_key_def)
next
  case (Some i)
  then have "find_key ev (map fst g) (chapter_of r) \<noteq> None" by simp
  then have ex: "list_ex (\<lambda>k'. same_key ev k' (chapter_of r)) (map fst g)"
    by (simp add: find_key_None)
  have i: "i < length g" using find_key_Some [OF Some] by simp
  have "map fst (g[i := (fst (g ! i), snd (g ! i) @ [r])]) = map fst g"
    using i by (simp add: map_update list_update_same_conv)
  with Some ex show ?thesis
    by (simp add: file_row_def insert_key_def)
qed

lemma map_fst_chapter_rows: "map fst (chapter_rows ev rows) = keys_of ev rows"
proof (induction rows rule: rev_induct)
  case Nil
  show ?case by (simp add: chapter_rows_def keys_of_def)
next
  case (snoc r rows)
  then show ?case
    by (simp add: chapter_rows_snoc keys_of_snoc map_fst_file_row)
qed

lemma length_chapter_rows: "length (chapter_rows ev rows) = length (keys_of ev rows)"
  using map_fst_chapter_rows [of ev rows] by (metis length_map)

lemma in_file_row:
  assumes "x \<in> set (file_row ev g r)"
  shows "x \<in> set g \<or> x = (chapter_of r, [r]) \<or>
         (\<exists>y\<in>set g. same_key ev (fst y) (chapter_of r) \<and> x = (fst y, snd y @ [r]))"
proof (cases "find_key ev (map fst g) (chapter_of r)")
  case None
  with assms show ?thesis by (auto simp: file_row_def)
next
  case (Some i)
  then have i: "i < length g" and same: "same_key ev (fst (g ! i)) (chapter_of r)"
    using find_key_Some [OF Some] by auto
  from assms Some have "x \<in> set (g[i := (fst (g ! i), snd (g ! i) @ [r])])"
    by (simp add: file_row_def)
  then have "x = (fst (g ! i), snd (g ! i) @ [r]) \<or> x \<in> set g"
    using set_update_subset_insert [of g i] by auto
  with i same show ?thesis by (metis nth_mem)
qed

text \<open>
  Every chapter has rows; they are rows of the input in input order; the first of them
  brought the chapter's key, and the key of each later one was found to be that key.
\<close>

lemma chapter_rows_sound:
  assumes "x \<in> set (chapter_rows ev rows)"
  shows "snd x \<noteq> [] \<and> subseq (snd x) rows \<and> chapter_of (hd (snd x)) = fst x \<and>
         (\<forall>r\<in>set (tl (snd x)). same_key ev (fst x) (chapter_of r))"
  using assms
proof (induction rows arbitrary: x rule: rev_induct)
  case Nil
  then show ?case by (simp add: chapter_rows_def)
next
  case (snoc r rows)
  from snoc.prems have "x \<in> set (file_row ev (chapter_rows ev rows) r)"
    by (simp add: chapter_rows_snoc)
  from in_file_row [OF this] consider
    (old) "x \<in> set (chapter_rows ev rows)" |
    (new) "x = (chapter_of r, [r])" |
    (upd) y where "y \<in> set (chapter_rows ev rows)" "same_key ev (fst y) (chapter_of r)"
      "x = (fst y, snd y @ [r])"
    by blast
  then show ?case
  proof cases
    case old
    from snoc.IH [OF old] show ?thesis
      by (simp add: list_emb_prefix)
  next
    case new
    have "subseq [r] (rows @ [r])"
      using list_emb_append2 [of "(=)" "[r]" "[r]" rows] by simp
    with new show ?thesis by simp
  next
    case upd
    from snoc.IH [OF upd(1)] have y: "snd y \<noteq> []" "subseq (snd y) rows"
      "chapter_of (hd (snd y)) = fst y"
      "\<forall>r\<in>set (tl (snd y)). same_key ev (fst y) (chapter_of r)"
      by simp_all
    have "subseq (snd y @ [r]) (rows @ [r])"
      using list_emb_append_mono [OF y(2), of "[r]" "[r]"] by simp
    with y upd(2) show ?thesis
      unfolding upd(3) by (cases "snd y") auto
  qed
qed

lemma chapter_rows_Nil_iff: "chapter_rows ev rows = [] \<longleftrightarrow> rows = []"
proof (cases rows rule: rev_cases)
  case Nil
  then show ?thesis by (simp add: chapter_rows_def)
next
  case (snoc rows' r)
  have "file_row ev g r \<noteq> []" for g
    by (cases "find_key ev (map fst g) (chapter_of r)") (auto simp: file_row_def)
  then show ?thesis by (simp add: snoc chapter_rows_snoc)
qed

text \<open>Every row of the input is filed under exactly one chapter.\<close>

lemma sum_list_update_Suc:
  "i < length (xs :: nat list) \<Longrightarrow> sum_list (xs[i := Suc (xs ! i)]) = Suc (sum_list xs)"
  by (induction xs arbitrary: i) (auto split: nat.splits)

lemma chapter_rows_sizes:
  "sum_list (map (\<lambda>x. length (snd x)) (chapter_rows ev rows)) = length rows"
proof (induction rows rule: rev_induct)
  case Nil
  show ?case by (simp add: chapter_rows_def)
next
  case (snoc r rows)
  let ?g = "chapter_rows ev rows"
  show ?case
  proof (cases "find_key ev (map fst ?g) (chapter_of r)")
    case None
    then show ?thesis by (simp add: chapter_rows_snoc file_row_def snoc.IH)
  next
    case (Some i)
    then have i: "i < length ?g" using find_key_Some [OF Some] by simp
    have "map (\<lambda>x. length (snd x)) (?g[i := (fst (?g ! i), snd (?g ! i) @ [r])]) =
        (map (\<lambda>x. length (snd x)) ?g)[i := Suc (map (\<lambda>x. length (snd x)) ?g ! i)]"
      using i by (simp add: map_update)
    then have "sum_list (map (\<lambda>x. length (snd x)) (?g[i := (fst (?g ! i), snd (?g ! i) @ [r])])) =
        Suc (sum_list (map (\<lambda>x. length (snd x)) ?g))"
      using i by (simp only: sum_list_update_Suc length_map)
    with Some show ?thesis
      by (simp add: chapter_rows_snoc file_row_def snoc.IH)
  qed
qed

subsection \<open>Keys that compare as the cells do\<close>

lemma rows_of_snoc:
  "rows_of k (rows @ [r]) = (if chapter_of r = k then rows_of k rows @ [r] else rows_of k rows)"
  by (simp add: rows_of_def)

lemma rows_of_absent: "k \<notin> chapter_of ` set rows \<Longrightarrow> rows_of k rows = []"
  by (auto simp: rows_of_def filter_empty_conv)

lemma rows_of_present: "k \<in> chapter_of ` set rows \<Longrightarrow> rows_of k rows \<noteq> []"
  by (auto simp: rows_of_def filter_empty_conv)


lemma plain_keys_iff:
  "plain_keys ev rows \<longleftrightarrow>
   (\<forall>a\<in>set rows. \<forall>b\<in>set rows.
      same_key ev (chapter_of a) (chapter_of b) = (chapter_of a = chapter_of b))"
  by (simp add: plain_keys_def list_all_iff)

lemma plain_keys_butlast: "plain_keys ev (rows @ [r]) \<Longrightarrow> plain_keys ev rows"
  by (simp add: plain_keys_iff)

lemma set_keys_of_subset: "set (keys_of ev rows) \<subseteq> chapter_of ` set rows"
proof (induction rows rule: rev_induct)
  case Nil
  show ?case by (simp add: keys_of_def)
next
  case (snoc r rows)
  then show ?case by (auto simp: keys_of_snoc insert_key_def)
qed

lemma plain_same_key:
  assumes "plain_keys ev (rows @ [r])" and "k' \<in> set (keys_of ev rows)"
  shows "same_key ev k' (chapter_of r) \<longleftrightarrow> k' = chapter_of r"
proof -
  from assms(2) set_keys_of_subset [of ev rows] obtain a where
    a: "a \<in> set rows" "k' = chapter_of a" by auto
  with assms(1) show ?thesis by (simp add: plain_keys_iff)
qed

lemma plain_list_ex:
  assumes "plain_keys ev (rows @ [r])"
  shows "list_ex (\<lambda>k'. same_key ev k' (chapter_of r)) (keys_of ev rows) \<longleftrightarrow>
         chapter_of r \<in> set (keys_of ev rows)"
  using plain_same_key [OF assms] by (auto simp: list_ex_iff)

lemma keys_of_plain:
  "plain_keys ev rows \<Longrightarrow>
   set (keys_of ev rows) = chapter_of ` set rows \<and> distinct (keys_of ev rows)"
proof (induction rows rule: rev_induct)
  case Nil
  show ?case by (simp add: keys_of_def)
next
  case (snoc r rows)
  from snoc.IH [OF plain_keys_butlast [OF snoc.prems]]
  have IH: "set (keys_of ev rows) = chapter_of ` set rows" "distinct (keys_of ev rows)"
    by simp_all
  show ?case
    using IH by (auto simp: keys_of_snoc insert_key_def plain_list_ex [OF snoc.prems])
qed

lemma length_keys_of_plain:
  "plain_keys ev rows \<Longrightarrow> length (keys_of ev rows) = card (chapter_of ` set rows)"
  using keys_of_plain [of ev rows] distinct_card [of "keys_of ev rows"] by simp

text \<open>
  Where the dictionary compares the keys of the input as the cells compare, the chapters
  are the distinct \<open>Chapter\<close> cells in the order of their first rows, each with the rows
  that hold this cell.
\<close>

lemma chapter_rows_plain:
  "plain_keys ev rows \<Longrightarrow>
   chapter_rows ev rows = map (\<lambda>k. (k, rows_of k rows)) (keys_of ev rows)"
proof (induction rows rule: rev_induct)
  case Nil
  show ?case by (simp add: chapter_rows_def keys_of_def)
next
  case (snoc r rows)
  let ?ks = "keys_of ev rows"
  let ?k = "chapter_of r"
  let ?g = "map (\<lambda>k. (k, rows_of k rows)) ?ks"
  have plain: "plain_keys ev rows" using snoc.prems by (rule plain_keys_butlast)
  have g: "chapter_rows ev rows = ?g" using plain by (rule snoc.IH)
  have fst_g: "map fst ?g = ?ks" by (simp add: comp_def)
  from keys_of_plain [OF plain]
  have ks: "set ?ks = chapter_of ` set rows" "distinct ?ks" by simp_all
  show ?case
  proof (cases "find_key ev ?ks ?k")
    case None
    then have "\<not> list_ex (\<lambda>k'. same_key ev k' ?k) ?ks" by (simp add: find_key_None)
    then have absent: "?k \<notin> set ?ks"
      by (simp add: plain_list_ex [OF snoc.prems])
    then have keys: "keys_of ev (rows @ [r]) = ?ks @ [?k]"
      by (simp add: keys_of_snoc insert_key_def plain_list_ex [OF snoc.prems])
    have new: "rows_of ?k (rows @ [r]) = [r]"
      using absent ks(1) by (simp add: rows_of_snoc rows_of_absent)
    have old: "map (\<lambda>k. (k, rows_of k (rows @ [r]))) ?ks = ?g"
      using absent by (intro map_cong) (auto simp: rows_of_snoc)
    have "chapter_rows ev (rows @ [r]) = ?g @ [(?k, [r])]"
      unfolding chapter_rows_snoc g file_row_def fst_g None by simp
    then show ?thesis
      by (simp add: keys new old)
  next
    case (Some i)
    from find_key_Some [OF Some] have i: "i < length ?ks" and "same_key ev (?ks ! i) ?k"
      by simp_all
    then have at: "?ks ! i = ?k"
      using plain_same_key [OF snoc.prems, of "?ks ! i"] by simp
    then have present: "?k \<in> set ?ks" using i by (metis nth_mem)
    then have keys: "keys_of ev (rows @ [r]) = ?ks"
      by (simp add: keys_of_snoc insert_key_def plain_list_ex [OF snoc.prems])
    have "?g[i := (fst (?g ! i), snd (?g ! i) @ [r])] =
        map (\<lambda>k. (k, rows_of k (rows @ [r]))) ?ks"
    proof (rule nth_equalityI)
      show "length (?g[i := (fst (?g ! i), snd (?g ! i) @ [r])]) =
          length (map (\<lambda>k. (k, rows_of k (rows @ [r]))) ?ks)"
        by simp
    next
      fix j assume "j < length (?g[i := (fst (?g ! i), snd (?g ! i) @ [r])])"
      then have j: "j < length ?ks" by simp
      show "?g[i := (fst (?g ! i), snd (?g ! i) @ [r])] ! j =
          map (\<lambda>k. (k, rows_of k (rows @ [r]))) ?ks ! j"
      proof (cases "j = i")
        case True
        then show ?thesis using i at by (simp add: rows_of_snoc)
      next
        case False
        then have "?ks ! j \<noteq> ?k"
          using ks(2) i j at by (metis nth_eq_iff_index_eq)
        with False show ?thesis using i j by (simp add: rows_of_snoc)
      qed
    qed
    moreover have "chapter_rows ev (rows @ [r]) = ?g[i := (fst (?g ! i), snd (?g ! i) @ [r])]"
      unfolding chapter_rows_snoc g file_row_def fst_g Some by simp
    ultimately show ?thesis
      by (simp add: keys)
  qed
qed

lemma chapter_rows_plain_nth:
  assumes "plain_keys ev rows" and "j < length (chapter_rows ev rows)"
  shows "snd (chapter_rows ev rows ! j) = rows_of (fst (chapter_rows ev rows ! j)) rows"
  using assms(2) unfolding chapter_rows_plain [OF assms(1)] by simp

subsection \<open>The aggregate of a chapter\<close>

lemma aggregate_counts:
  "scenes (aggregate rs) = [1..<Suc (length rs)] \<and> scene_counter (aggregate rs) = Suc (length rs)"
  by (induction rs rule: rev_induct)
    (simp_all add: aggregate_Nil aggregate_snoc new_chapter_def add_row_def add_scene_def)

lemma length_scenes_aggregate: "length (scenes (aggregate rs)) = length rs"
  by (simp add: aggregate_counts del: upt_Suc)

lemma aggregate_lists:
  "day (aggregate rs) = map (\<lambda>r. col r ''Day'') rs"
  "settings (aggregate rs) = map (\<lambda>r. col r ''Location'') rs"
  "uniform (aggregate rs) = map (\<lambda>r. col r ''Uniform'') rs"
  "weather (aggregate rs) = map (\<lambda>r. col r ''Weather'') rs"
  "time (aggregate rs) = map (\<lambda>r. col r ''Time'') rs"
  "descriptions (aggregate rs) = map (\<lambda>r. col r ''Description'') rs"
  "week (aggregate rs) = map (\<lambda>r. col r ''Week'') rs"
  by (induction rs rule: rev_induct;
      simp add: aggregate_Nil aggregate_snoc new_chapter_def add_row_def add_scene_def)+

lemma aggregate_scalars:
  assumes "rs \<noteq> []"
  shows "POV (aggregate rs) = col (last rs) ''POV''"
    and "arc (aggregate rs) = col (last rs) ''Arc''"
    and "temperature (aggregate rs) = Some (col (last rs) ''Temperature'')"
  using assms
  by (induction rs rule: rev_induct;
      simp add: aggregate_snoc add_row_def add_scene_def)+


lemma table_nth:
  assumes "j < length (chapter_rows ev rows)"
  shows "table ev rows ! j =
         (fst (chapter_rows ev rows ! j), aggregate (snd (chapter_rows ev rows ! j)))"
  using assms by (simp add: table_def aggregated_nth)

lemma length_table: "length (table ev rows) = length (chapter_rows ev rows)"
  by (simp add: table_def length_aggregated)

lemma chapter_rows_nth_sound:
  assumes "j < length (chapter_rows ev rows)"
  shows "snd (chapter_rows ev rows ! j) \<noteq> []"
    and "subseq (snd (chapter_rows ev rows ! j)) rows"
    and "chapter_of (hd (snd (chapter_rows ev rows ! j))) = fst (chapter_rows ev rows ! j)"
  using chapter_rows_sound [of "chapter_rows ev rows ! j" ev rows] assms by simp_all

text \<open>
  Claim C2.  The loop of \<open>parse_scenes\<close> over the rows passes through the dictionary built
  from their first \<open>n\<close> rows (all of them for \<open>n\<close> at least the number of rows).  Whatever
  prefix has been consumed, the dictionary holds the chapters of the prefix, and in every
  chapter the per-scene sequences \<open>day\<close>, \<open>settings\<close>, \<open>uniform\<close>, \<open>weather\<close>, \<open>time\<close>,
  \<open>descriptions\<close>, \<open>scenes\<close> and \<open>week\<close> have one length, the number of rows consumed so far
  that the dictionary has filed under the chapter's key; \<open>scene_counter\<close> is one more.
  Where the dictionary compares the keys of the prefix as the cells compare, these rows
  are the rows of the prefix whose \<open>Chapter\<close> cell is the key.
\<close>

theorem parallel_sequences_invariant:
  assumes "parse_loop ev (take n df) [] = Inr chs" and "j < length chs"
  shows "parse_loop ev df [] = bnd (parse_loop ev (take n df) []) (parse_loop ev (drop n df)) \<and>
         length chs = length (chapter_rows ev (take n df)) \<and>
         fst (chs ! j) = fst (chapter_rows ev (take n df) ! j) \<and>
         length (day (snd (chs ! j))) = length (snd (chapter_rows ev (take n df) ! j)) \<and>
         length (settings (snd (chs ! j))) = length (snd (chapter_rows ev (take n df) ! j)) \<and>
         length (uniform (snd (chs ! j))) = length (snd (chapter_rows ev (take n df) ! j)) \<and>
         length (weather (snd (chs ! j))) = length (snd (chapter_rows ev (take n df) ! j)) \<and>
         length (time (snd (chs ! j))) = length (snd (chapter_rows ev (take n df) ! j)) \<and>
         length (descriptions (snd (chs ! j))) = length (snd (chapter_rows ev (take n df) ! j)) \<and>
         length (scenes (snd (chs ! j))) = length (snd (chapter_rows ev (take n df) ! j)) \<and>
         length (week (snd (chs ! j))) = length (snd (chapter_rows ev (take n df) ! j)) \<and>
         scene_counter (snd (chs ! j)) = length (snd (chapter_rows ev (take n df) ! j)) + 1 \<and>
         (plain_keys ev (take n df) \<longrightarrow>
            snd (chapter_rows ev (take n df) ! j) = rows_of (fst (chs ! j)) (take n df))"
proof -
  from assms(1) have chs: "chs = table ev (take n df)"
    by (simp add: parse_loop_eq)
  with assms(2) have j: "j < length (chapter_rows ev (take n df))"
    by (simp add: length_table)
  have at: "chs ! j = (fst (chapter_rows ev (take n df) ! j),
      aggregate (snd (chapter_rows ev (take n df) ! j)))"
    unfolding chs using j by (rule table_nth)
  have "parse_loop ev (take n df @ drop n df) [] =
      bnd (parse_loop ev (take n df) []) (parse_loop ev (drop n df))"
    by (rule parse_loop_append)
  then have through:
    "parse_loop ev df [] = bnd (parse_loop ev (take n df) []) (parse_loop ev (drop n df))"
    by simp
  have len: "length chs = length (chapter_rows ev (take n df))"
    by (simp add: chs length_table)
  have key: "fst (chs ! j) = fst (chapter_rows ev (take n df) ! j)"
    and d: "snd (chs ! j) = aggregate (snd (chapter_rows ev (take n df) ! j))"
    by (simp_all add: at)
  have plain: "plain_keys ev (take n df) \<longrightarrow>
      snd (chapter_rows ev (take n df) ! j) = rows_of (fst (chs ! j)) (take n df)"
    unfolding key using chapter_rows_plain_nth [OF _ j] by blast
  have lens: "length (day (snd (chs ! j))) = length (snd (chapter_rows ev (take n df) ! j))"
    "length (settings (snd (chs ! j))) = length (snd (chapter_rows ev (take n df) ! j))"
    "length (uniform (snd (chs ! j))) = length (snd (chapter_rows ev (take n df) ! j))"
    "length (weather (snd (chs ! j))) = length (snd (chapter_rows ev (take n df) ! j))"
    "length (time (snd (chs ! j))) = length (snd (chapter_rows ev (take n df) ! j))"
    "length (descriptions (snd (chs ! j))) = length (snd (chapter_rows ev (take n df) ! j))"
    "length (scenes (snd (chs ! j))) = length (snd (chapter_rows ev (take n df) ! j))"
    "length (week (snd (chs ! j))) = length (snd (chapter_rows ev (take n df) ! j))"
    "scene_counter (snd (chs ! j)) = length (snd (chapter_rows ev (take n df) ! j)) + 1"
    unfolding d
    by (simp_all add: aggregate_lists aggregate_counts length_scenes_aggregate del: upt_Suc)
  from through len key lens plain show ?thesis by blast
qed

lemma sample_complete: "complete (sample_row ch loc d)"
  by (simp add: complete_def sample_row_def columns_def)

lemma sample_chapter: "chapter_of (sample_row ch loc d) = CStr ch"
  by (simp add: chapter_of_def col_def sample_row_def)


lemma keyed_complete: "complete (keyed_row k loc d)"
  by (simp add: complete_def keyed_row_def columns_def)

lemma keyed_chapter: "chapter_of (keyed_row k loc d) = k"
  by (simp add: chapter_of_def col_def keyed_row_def)

theorem parallel_sequences_invariant_witness:
  "parse_loop sample_env (take 3 [sample_row ''1'' (CStr ''Forest'') ''a'',
       sample_row ''2'' (CStr ''Town'') ''b'', sample_row ''1'' (CStr ''Lake'') ''c'',
       sample_row ''1'' (CStr ''Lake'') ''d'']) [] =
     Inr [(CStr ''1'', aggregate [sample_row ''1'' (CStr ''Forest'') ''a'',
                                  sample_row ''1'' (CStr ''Lake'') ''c'']),
          (CStr ''2'', aggregate [sample_row ''2'' (CStr ''Town'') ''b''])] \<and>
   plain_keys sample_env (take 3 [sample_row ''1'' (CStr ''Forest'') ''a'',
       sample_row ''2'' (CStr ''Town'') ''b'', sample_row ''1'' (CStr ''Lake'') ''c'',
       sample_row ''1'' (CStr ''Lake'') ''d'']) \<and>
   rows_of (CStr ''1'') (take 3 [sample_row ''1'' (CStr ''Forest'') ''a'',
       sample_row ''2'' (CStr ''Town'') ''b'', sample_row ''1'' (CStr ''Lake'') ''c'',
       sample_row ''1'' (CStr ''Lake'') ''d'']) =
     [sample_row ''1'' (CStr ''Forest'') ''a'', sample_row ''1'' (CStr ''Lake'') ''c''] \<and>
   length (day (aggregate [sample_row ''1'' (CStr ''Forest'') ''a'',
                           sample_row ''1'' (CStr ''Lake'') ''c''])) = 2 \<and>
   length (scenes (aggregate [sample_row ''1'' (CStr ''Forest'') ''a'',
                              sample_row ''1'' (CStr ''Lake'') ''c''])) = 2 \<and>
   scene_counter (aggregate [sample_row ''1'' (CStr ''Forest'') ''a'',
                             sample_row ''1'' (CStr ''Lake'') ''c'']) = 3"
proof -
  let ?df = "[sample_row ''1'' (CStr ''Forest'') ''a'', sample_row ''2'' (CStr ''Town'') ''b'',
       sample_row ''1'' (CStr ''Lake'') ''c'', sample_row ''1'' (CStr ''Lake'') ''d'']"
  let ?rs = "[sample_row ''1'' (CStr ''Forest'') ''a'', sample_row ''1'' (CStr ''Lake'') ''c'']"
  let ?chs = "[(CStr ''1'', aggregate ?rs),
      (CStr ''2'', aggregate [sample_row ''2'' (CStr ''Town'') ''b''])]"
  have tk: "take 3 ?df = [sample_row ''1'' (CStr ''Forest'') ''a'',
      sample_row ''2'' (CStr ''Town'') ''b'', sample_row ''1'' (CStr ''Lake'') ''c'']"
    by simp
  have rows: "chapter_rows sample_env (take 3 ?df) =
      [(CStr ''1'', ?rs), (CStr ''2'', [sample_row ''2'' (CStr ''Town'') ''b''])]"
    unfolding tk by (simp add: chapter_rows_def file_row_def sample_chapter)
  have "table sample_env (take 3 ?df) = ?chs"
    unfolding table_def rows by (simp add: aggregated_def)
  moreover have "list_all complete (take 3 ?df)"
    unfolding tk by (simp add: sample_complete)
  ultimately have a: "parse_loop sample_env (take 3 ?df) [] = Inr ?chs"
    by (simp only: parse_loop_eq)
  have b: "0 < length ?chs" by simp
  have p: "plain_keys sample_env (take 3 ?df)"
    unfolding tk by (simp add: plain_keys_def sample_chapter)
  have r: "rows_of (CStr ''1'') (take 3 ?df) = ?rs"
    unfolding tk by (simp add: rows_of_def sample_chapter)
  note t = parallel_sequences_invariant [OF a b, unfolded rows]
  from t have "length (day (aggregate ?rs)) = 2" "length (scenes (aggregate ?rs)) = 2"
    "scene_counter (aggregate ?rs) = 3"
    by simp_all
  with a p r show ?thesis by blast
qed

text \<open>
  Empty \<open>Chapter\<close> cells are floats \<open>nan\<close>, each an object of its own that no lookup finds
  again: every such row opens a chapter.  The int \<open>1\<close> and the bool \<open>True\<close> are one key,
  stored as the object that came first.
\<close>

lemma blank_chapter_cells:
  "chapter_rows sample_env
     [keyed_row (COther ''float'' ''nan'') (CStr ''Forest'') ''a'',
      keyed_row (COther ''float'' ''nan'') (CStr ''Town'') ''b'',
      keyed_row (COther ''float'' ''3.0'') (CStr ''Lake'') ''c''] =
   [(COther ''float'' ''nan'', [keyed_row (COther ''float'' ''nan'') (CStr ''Forest'') ''a'']),
    (COther ''float'' ''nan'', [keyed_row (COther ''float'' ''nan'') (CStr ''Town'') ''b'']),
    (COther ''float'' ''3.0'', [keyed_row (COther ''float'' ''3.0'') (CStr ''Lake'') ''c''])]"
  by (simp add: chapter_rows_def file_row_def keyed_chapter sample_env_def sample_obj_eq_def)

lemma int_and_bool_chapter_cells:
  "chapter_rows sample_env
     [keyed_row (COther ''int'' ''1'') (CStr ''Forest'') ''a'',
      keyed_row (COther ''bool'' ''True'') (CStr ''Town'') ''b''] =
   [(COther ''int'' ''1'', [keyed_row (COther ''int'' ''1'') (CStr ''Forest'') ''a'',
                            keyed_row (COther ''bool'' ''True'') (CStr ''Town'') ''b''])]"
  by (simp add: chapter_rows_def file_row_def keyed_chapter sample_env_def sample_obj_eq_def)

subsection \<open>Rendering the scenes of a chapter\<close>

lemma parts_loop_Cons: "parts_loop ps (c # b) = c # parts_loop ps b"
  using parts_loop_append [of ps "[c]" b] by simp

lemma getitem_list_map:
  "i < length rs \<Longrightarrow> getitem_list (map f rs) i = Inr (f (rs ! i))"
  by (simp add: getitem_list_def)

lemma scene_body_str:
  assumes "i < length rs" and "col (rs ! i) ''Location'' = CStr loc"
  shows "scene_body (aggregate rs) pov temp i content =
         Inr (content @ scene_section pov temp (Suc i) (rs ! i))"
  using assms
  by (simp add: scene_body_def aggregate_lists getitem_list_map scene_section_def
      scene_fields_def setting_text_def parts_loop_append parts_loop_Cons)

lemma scene_body_other:
  assumes "i < length rs" and "col (rs ! i) ''Location'' = COther ty s"
  shows "scene_body (aggregate rs) pov temp i content = Inl (AttributeError ty)"
  using assms
  by (simp add: scene_body_def aggregate_lists getitem_list_map)

lemma scene_body_Inr_str:
  assumes "i < length rs" and "scene_body (aggregate rs) pov temp i content = Inr c'"
  shows "is_str (col (rs ! i) ''Location'')"
  using assms scene_body_other [of i rs]
  by (cases "col (rs ! i) ''Location''") simp_all

lemma is_strE: "is_str c \<Longrightarrow> \<exists>s. c = CStr s"
  by (cases c) simp_all

lemma scenes_loop_str:
  assumes "\<forall>i\<in>set is. i < length rs \<and> is_str (col (rs ! i) ''Location'')"
  shows "scenes_loop (aggregate rs) pov temp is (content, sn) =
         Inr (content @ concat (map (\<lambda>i. scene_section pov temp (Suc i) (rs ! i)) is),
              if is = [] then sn else Some (Suc (last is)))"
  using assms
proof (induction "is" arbitrary: content sn)
  case Nil
  show ?case by simp
next
  case (Cons i "is")
  then have i: "i < length rs" and "is_str (col (rs ! i) ''Location'')" by simp_all
  then obtain loc where loc: "col (rs ! i) ''Location'' = CStr loc"
    using is_strE by blast
  from Cons.prems have rest: "\<forall>i\<in>set is. i < length rs \<and> is_str (col (rs ! i) ''Location'')"
    by simp
  show ?case
    by (simp add: scene_body_str [OF i loc] Cons.IH [OF rest])
qed

lemma scenes_loop_Inr_str:
  assumes "\<forall>i\<in>set is. i < length rs"
    and "scenes_loop (aggregate rs) pov temp is st = Inr st'"
  shows "\<forall>i\<in>set is. is_str (col (rs ! i) ''Location'')"
  using assms
proof (induction "is" arbitrary: st)
  case Nil
  show ?case by simp
next
  case (Cons i "is")
  obtain content sn where st: "st = (content, sn)" by (cases st)
  from Cons.prems have i: "i < length rs" and rest: "\<forall>i\<in>set is. i < length rs" by simp_all
  from Cons.prems(2) obtain c' where
    body: "scene_body (aggregate rs) pov temp i content = Inr c'" and
    loop: "scenes_loop (aggregate rs) pov temp is (c', Some (i + 1)) = Inr st'"
    by (cases "scene_body (aggregate rs) pov temp i content") (simp_all add: st)
  show ?case
    using scene_body_Inr_str [OF i body] Cons.IH [OF rest loop] by simp
qed

lemma str_locations_nth:
  "str_locations rs \<longleftrightarrow> (\<forall>i\<in>set [0..<length rs]. i < length rs \<and> is_str (col (rs ! i) ''Location''))"
  by (auto simp: str_locations_def list_all_length)

lemma chapter_content_aggregate:
  assumes "rs \<noteq> []" and "str_locations rs" and "am \<longrightarrow> tags \<noteq> None"
  shows "chapter_content ev n tags am k (aggregate rs) sn =
         Inr (chapter_doc ev n tags am k rs, Some (length rs))"
proof -
  have loop: "scenes_loop (aggregate rs) pov temp [0..<length rs] (content, sn) =
      Inr (content @ concat (scene_sections pov temp rs), Some (length rs))" for pov temp content
    using assms(1,2) scenes_loop_str [of "[0..<length rs]" rs pov temp content sn]
    unfolding str_locations_nth scene_sections_def
    by (simp del: upt_Suc)
  show ?thesis
  proof (cases am)
    case True
    with assms(3) obtain ts where ts: "tags = Some ts" by auto
    show ?thesis
      using True assms(1)
      by (simp add: chapter_content_def ts aggregate_scalars length_scenes_aggregate loop
          chapter_doc_def tag_list_def del: upt_Suc)
  next
    case False
    then show ?thesis
      using assms(1)
      by (simp add: chapter_content_def aggregate_scalars length_scenes_aggregate loop
          chapter_doc_def del: upt_Suc)
  qed
qed

lemma chapter_content_aggregate_Inr:
  assumes "chapter_content ev n tags am k (aggregate rs) sn = Inr (doc, sn')"
  shows "str_locations rs \<and> (am \<longrightarrow> tags \<noteq> None)"
proof -
  have tags: "am \<longrightarrow> tags \<noteq> None"
    using assms by (cases tags) (auto simp: chapter_content_def)
  obtain content temp where
    "scenes_loop (aggregate rs) (POV (aggregate rs)) temp [0..<length rs] (content, sn) = Inr (doc, sn')"
    using assms
    by (auto simp: chapter_content_def length_scenes_aggregate Let_def
        split: if_splits option.splits sum.splits simp del: upt_Suc)
  then have "\<forall>i\<in>set [0..<length rs]. is_str (col (rs ! i) ''Location'')"
    by (intro scenes_loop_Inr_str [where st = "(content, sn)" and st' = "(doc, sn')"
          and pov = "POV (aggregate rs)" and temp = temp]) simp_all
  then have "str_locations rs"
    unfolding str_locations_nth by simp
  with tags show ?thesis by simp
qed

lemma scene_sections_length: "length (scene_sections pov temp rs) = length rs"
  by (simp add: scene_sections_def)

lemma scene_sections_nth:
  "i < length rs \<Longrightarrow>
   scene_sections pov temp rs ! i =
     ''### Scene '' @ str_nat (Suc i) @ ''\<newline>\<newline>'' @ scene_fields pov temp (rs ! i)"
  by (simp add: scene_sections_def scene_section_def del: upt_Suc)

text \<open>
  Claim C1.  Take a chapter of the dictionary that \<open>parse_scenes\<close> built, and the \<open>N\<close> rows
  of the input that the dictionary has filed under its key: there is at least one, and
  they stand in the order in which they stand in the input.  \<open>generate_markdown_content\<close>
  renders a document for the chapter exactly when every \<open>Location\<close> cell of these rows is
  a string (and a tag list is there if metadata is asked for), and the document is then
  the heading lines followed by the \<open>N\<close> scene sections of \<open>scene_sections\<close>: section
  number \<open>i + 1\<close> starts with the heading \<open>### Scene i+1\<close> and shows the fields of the row
  at position \<open>i\<close>.  The variable \<open>scene_number\<close> ends at \<open>N\<close>.  Where the dictionary
  compares the keys of the input as the cells compare, the rows of the chapter are the
  rows of the input whose \<open>Chapter\<close> cell is the key.
\<close>

theorem scene_sections_in_input_order:
  assumes "parse_loop ev df [] = Inr chs" and "j < length chs"
  shows "fst (chs ! j) = fst (chapter_rows ev df ! j) \<and>
         snd (chapter_rows ev df ! j) \<noteq> [] \<and>
         subseq (snd (chapter_rows ev df ! j)) df \<and>
         (plain_keys ev df \<longrightarrow> snd (chapter_rows ev df ! j) = rows_of (fst (chs ! j)) df) \<and>
         (chapter_content ev n tags am (fst (chs ! j)) (snd (chs ! j)) sn = Inr (doc, sn') \<longleftrightarrow>
            str_locations (snd (chapter_rows ev df ! j)) \<and> (am \<longrightarrow> tags \<noteq> None) \<and>
            doc = chapter_doc ev n tags am (fst (chs ! j)) (snd (chapter_rows ev df ! j)) \<and>
            sn' = Some (length (snd (chapter_rows ev df ! j)))) \<and>
         length (scene_sections pov temp (snd (chapter_rows ev df ! j))) =
           length (snd (chapter_rows ev df ! j)) \<and>
         (\<forall>i < length (snd (chapter_rows ev df ! j)).
            scene_sections pov temp (snd (chapter_rows ev df ! j)) ! i =
              ''### Scene '' @ str_nat (Suc i) @ ''\<newline>\<newline>'' @
              scene_fields pov temp (snd (chapter_rows ev df ! j) ! i))"
proof -
  let ?rs = "snd (chapter_rows ev df ! j)"
  from assms(1) have chs: "chs = table ev df"
    by (simp add: parse_loop_eq)
  with assms(2) have j: "j < length (chapter_rows ev df)"
    by (simp add: length_table)
  have at: "chs ! j = (fst (chapter_rows ev df ! j), aggregate ?rs)"
    unfolding chs using j by (rule table_nth)
  then have key: "fst (chs ! j) = fst (chapter_rows ev df ! j)"
    and cd: "snd (chs ! j) = aggregate ?rs"
    by simp_all
  have ne: "?rs \<noteq> []" and sub: "subseq ?rs df"
    using j by (rule chapter_rows_nth_sound)+
  have plain: "plain_keys ev df \<longrightarrow> ?rs = rows_of (fst (chs ! j)) df"
    unfolding key using chapter_rows_plain_nth [OF _ j] by blast
  have content: "chapter_content ev n tags am (fst (chs ! j)) (snd (chs ! j)) sn = Inr (doc, sn') \<longleftrightarrow>
      str_locations ?rs \<and> (am \<longrightarrow> tags \<noteq> None) \<and>
      doc = chapter_doc ev n tags am (fst (chs ! j)) ?rs \<and> sn' = Some (length ?rs)"
    (is "?l \<longleftrightarrow> ?r")
  proof
    assume l: ?l
    then have ok: "str_locations ?rs \<and> (am \<longrightarrow> tags \<noteq> None)"
      unfolding cd by (rule chapter_content_aggregate_Inr)
    then have "chapter_content ev n tags am (fst (chs ! j)) (snd (chs ! j)) sn =
        Inr (chapter_doc ev n tags am (fst (chs ! j)) ?rs, Some (length ?rs))"
      unfolding cd using ne by (simp add: chapter_content_aggregate)
    with l ok show ?r by simp
  next
    assume ?r
    then show ?l
      unfolding cd using ne by (simp add: chapter_content_aggregate)
  qed
  have secs: "length (scene_sections pov temp ?rs) = length ?rs"
    "\<forall>i < length ?rs. scene_sections pov temp ?rs ! i =
       ''### Scene '' @ str_nat (Suc i) @ ''\<newline>\<newline>'' @ scene_fields pov temp (?rs ! i)"
    by (simp_all add: scene_sections_length scene_sections_nth)
  from key ne sub plain content secs show ?thesis by blast
qed

theorem scene_sections_in_input_order_witness:
  "parse_loop sample_env [sample_row ''1'' (CStr ''Forest'') ''a'',
       sample_row ''2'' (CStr ''Town'') ''b'', sample_row ''1'' (CStr ''Lake'') ''c''] [] =
     Inr [(CStr ''1'', aggregate [sample_row ''1'' (CStr ''Forest'') ''a'',
                                  sample_row ''1'' (CStr ''Lake'') ''c'']),
          (CStr ''2'', aggregate [sample_row ''2'' (CStr ''Town'') ''b''])] \<and>
   plain_keys sample_env [sample_row ''1'' (CStr ''Forest'') ''a'',
       sample_row ''2'' (CStr ''Town'') ''b'', sample_row ''1'' (CStr ''Lake'') ''c''] \<and>
   rows_of (CStr ''1'') [sample_row ''1'' (CStr ''Forest'') ''a'',
       sample_row ''2'' (CStr ''Town'') ''b'', sample_row ''1'' (CStr ''Lake'') ''c''] =
     [sample_row ''1'' (CStr ''Forest'') ''a'', sample_row ''1'' (CStr ''Lake'') ''c''] \<and>
   chapter_content sample_env 0 None False (CStr ''1'')
     (aggregate [sample_row ''1'' (CStr ''Forest'') ''a'', sample_row ''1'' (CStr ''Lake'') ''c'']) None =
     Inr (chapter_doc sample_env 0 None False (CStr ''1'')
       [sample_row ''1'' (CStr ''Forest'') ''a'', sample_row ''1'' (CStr ''Lake'') ''c''], Some 2) \<and>
   length (scene_sections (CStr ''Ann'') (CStr ''20'')
       [sample_row ''1'' (CStr ''Forest'') ''a'', sample_row ''1'' (CStr ''Lake'') ''c'']) = 2 \<and>
   scene_sections (CStr ''Ann'') (CStr ''20'')
       [sample_row ''1'' (CStr ''Forest'') ''a'', sample_row ''1'' (CStr ''Lake'') ''c''] ! 1 =
     ''### Scene 2\<newline>\<newline>'' @
       scene_fields (CStr ''Ann'') (CStr ''20'') (sample_row ''1'' (CStr ''Lake'') ''c'')"
proof -
  let ?df = "[sample_row ''1'' (CStr ''Forest'') ''a'', sample_row ''2'' (CStr ''Town'') ''b'',
       sample_row ''1'' (CStr ''Lake'') ''c'']"
  let ?rs = "[sample_row ''1'' (CStr ''Forest'') ''a'', sample_row ''1'' (CStr ''Lake'') ''c'']"
  let ?chs = "[(CStr ''1'', aggregate ?rs),
      (CStr ''2'', aggregate [sample_row ''2'' (CStr ''Town'') ''b''])]"
  have rows: "chapter_rows sample_env ?df =
      [(CStr ''1'', ?rs), (CStr ''2'', [sample_row ''2'' (CStr ''Town'') ''b''])]"
    by (simp add: chapter_rows_def file_row_def sample_chapter)
  have "table sample_env ?df = ?chs"
    unfolding table_def rows by (simp add: aggregated_def)
  moreover have "list_all complete ?df"
    by (simp add: sample_complete)
  ultimately have a: "parse_loop sample_env ?df [] = Inr ?chs"
    by (simp only: parse_loop_eq)
  have b: "0 < length ?chs" by simp
  have p: "plain_keys sample_env ?df"
    by (simp add: plain_keys_def sample_chapter)
  have r: "rows_of (CStr ''1'') ?df = ?rs"
    by (simp add: rows_of_def sample_chapter)
  have s: "str_locations ?rs"
    by (simp add: str_locations_def col_def sample_row_def)
  note t = scene_sections_in_input_order [OF a b, where n = 0 and tags = None and am = False
      and sn = None and doc = "chapter_doc sample_env 0 None False (CStr ''1'') ?rs"
      and sn' = "Some 2" and pov = "CStr ''Ann''" and temp = "CStr ''20''", unfolded rows]
  from t s have c: "chapter_content sample_env 0 None False (CStr ''1'') (aggregate ?rs) None =
      Inr (chapter_doc sample_env 0 None False (CStr ''1'') ?rs, Some 2)"
    by simp
  from t have l: "length (scene_sections (CStr ''Ann'') (CStr ''20'') ?rs) = 2"
    by simp
  from t have "\<forall>i < length ?rs. scene_sections (CStr ''Ann'') (CStr ''20'') ?rs ! i =
      ''### Scene '' @ str_nat (Suc i) @ ''\<newline>\<newline>'' @
      scene_fields (CStr ''Ann'') (CStr ''20'') (?rs ! i)"
    by simp
  then have "scene_sections (CStr ''Ann'') (CStr ''20'') ?rs ! 1 =
      ''### Scene '' @ str_nat (Suc 1) @ ''\<newline>\<newline>'' @
      scene_fields (CStr ''Ann'') (CStr ''20'') (?rs ! 1)"
    by (elim allE [of _ 1]) simp
  then have n: "scene_sections (CStr ''Ann'') (CStr ''20'') ?rs ! 1 =
      ''### Scene 2\<newline>\<newline>'' @
      scene_fields (CStr ''Ann'') (CStr ''20'') (sample_row ''1'' (CStr ''Lake'') ''c'')"
    by (simp add: digit_def)
  from a p r c l n show ?thesis by blast
qed

subsection \<open>The metadata block\<close>

lemma render_setting_prefix: "render_setting loc x = Inr y \<Longrightarrow> prefix x y"
  by (cases loc) (auto simp: parts_loop_content [of _ x])

lemma scene_body_prefix:
  assumes "scene_body cd pov temp i content = Inr c'"
  shows "prefix content c'"
  using assms unfolding scene_body_def Let_def bnd_eq_Inr
  by (auto dest!: render_setting_prefix simp: prefix_def)

lemma scenes_loop_prefix:
  "scenes_loop cd pov temp is (content, sn) = Inr (doc, sn') \<Longrightarrow> prefix content doc"
proof (induction "is" arbitrary: content sn)
  case Nil
  then show ?case by simp
next
  case (Cons i "is")
  from Cons.prems obtain c' where
    body: "scene_body cd pov temp i content = Inr c'" and
    loop: "scenes_loop cd pov temp is (c', Some (i + 1)) = Inr (doc, sn')"
    by (cases "scene_body cd pov temp i content") simp_all
  from scene_body_prefix [OF body] Cons.IH [OF loop] show ?case
    by (rule prefix_order.trans)
qed

lemma chapter_content_Inr:
  assumes "chapter_content ev n tags am k cd sn = Inr (doc, sn')"
  shows "(am \<longrightarrow> (\<exists>ts. tags = Some ts)) \<and>
         prefix ((if am then add_metadata ev n [] (arc cd) (POV cd) (join_py '', '' (tag_list tags))
                  else []) @ ''# Chapter '' @ fmt k @ ''\<newline>'' @ ''## Scenes\<newline>'') doc"
proof -
  obtain head temp where
    head: "head = (if am then add_metadata ev n [] (arc cd) (POV cd) (join_py '', '' (tag_list tags))
                   else [])"
    and tags: "am \<longrightarrow> (\<exists>ts. tags = Some ts)"
    and loop: "scenes_loop cd (POV cd) temp [0..<length (scenes cd)]
        ((head @ ''# Chapter '' @ fmt k @ ''\<newline>'') @ ''## Scenes\<newline>'', sn) = Inr (doc, sn')"
    using assms
    by (cases am; cases tags; cases "temperature cd")
      (simp_all add: chapter_content_def tag_list_def Let_def)
  from scenes_loop_prefix [OF loop] tags show ?thesis
    by (simp add: head)
qed

text \<open>
  Claim C6.  A document that \<open>generate_markdown_content\<close> renders for a chapter begins with
  the line \<open>---\<close> that opens the metadata block if and only if \<open>am\<close> is true.  When \<open>am\<close> is
  true a tag list was supplied and the document begins with the block of \<open>add_metadata\<close>,
  whose line \<open>tags:\<close> holds the tags joined with a comma and a space, unchanged; when
  \<open>am\<close> is false it begins with the chapter heading.
\<close>

theorem metadata_block_iff_requested:
  assumes "chapter_content ev n tags am k cd sn = Inr (doc, sn')"
  shows "(prefix ''---\<newline>'' doc \<longleftrightarrow> am) \<and>
         (am \<longrightarrow> (\<exists>ts. tags = Some ts \<and>
            prefix (''---\<newline>'' @
                    ''created: '' @ now ev n @ ''\<newline>'' @
                    ''generated_by: '' @ script ev @ ''\<newline>'' @
                    ''tags: '' @ join_py '', '' ts @ ''\<newline>'' @
                    ''POV: '' @ fmt (POV cd) @ ''\<newline>'' @
                    ''Arc: '' @ fmt (arc cd) @ ''\<newline>'' @
                    ''---\<newline>\<newline>'' @
                    ''# Chapter '' @ fmt k @ ''\<newline>'') doc)) \<and>
         (\<not> am \<longrightarrow> prefix (''# Chapter '' @ fmt k @ ''\<newline>'') doc)"
proof (cases am)
  case True
  with chapter_content_Inr [OF assms] obtain ts rest where ts: "tags = Some ts"
    and doc: "doc = (add_metadata ev n [] (arc cd) (POV cd) (join_py '', '' ts) @
        ''# Chapter '' @ fmt k @ ''\<newline>'' @ ''## Scenes\<newline>'') @ rest"
    by (auto simp: prefix_def tag_list_def)
  show ?thesis
    using True by (simp add: ts doc add_metadata_def)
next
  case False
  with chapter_content_Inr [OF assms] obtain rest where
    doc: "doc = (''# Chapter '' @ fmt k @ ''\<newline>'' @ ''## Scenes\<newline>'') @ rest"
    by (auto simp: prefix_def)
  show ?thesis
    using False by (simp add: doc)
qed

theorem metadata_block_iff_requested_witness:
  "chapter_content sample_env 0 (Some [''draft'', ''act one'']) True (CStr ''1'')
     (aggregate [sample_row ''1'' (CStr ''Forest'') ''a'']) None =
   Inr (chapter_doc sample_env 0 (Some [''draft'', ''act one'']) True (CStr ''1'')
          [sample_row ''1'' (CStr ''Forest'') ''a''], Some 1) \<and>
   prefix ''---\<newline>'' (chapter_doc sample_env 0 (Some [''draft'', ''act one'']) True (CStr ''1'')
          [sample_row ''1'' (CStr ''Forest'') ''a'']) \<and>
   prefix (''---\<newline>created: 2024-01-01 10:00:00\<newline>generated_by: excel_to_markdown.py\<newline>'' @
           ''tags: draft, act one\<newline>POV: Ann\<newline>Arc: 2\<newline>---\<newline>\<newline># Chapter 1\<newline>'')
     (chapter_doc sample_env 0 (Some [''draft'', ''act one'']) True (CStr ''1'')
          [sample_row ''1'' (CStr ''Forest'') ''a''])"
proof -
  let ?rs = "[sample_row ''1'' (CStr ''Forest'') ''a'']"
  let ?tags = "Some [''draft'', ''act one'']"
  have s: "str_locations ?rs"
    by (simp add: str_locations_def col_def sample_row_def)
  have a: "chapter_content sample_env 0 ?tags True (CStr ''1'') (aggregate ?rs) None =
      Inr (chapter_doc sample_env 0 ?tags True (CStr ''1'') ?rs, Some 1)"
    using chapter_content_aggregate [of ?rs True ?tags sample_env 0 "CStr ''1''" None] s
    by simp
  have fields: "POV (aggregate ?rs) = CStr ''Ann''" "arc (aggregate ?rs) = COther ''int'' ''2''"
    by (simp_all add: aggregate_scalars col_def sample_row_def)
  from metadata_block_iff_requested [OF a] a show ?thesis
    by (simp add: fields sample_env_def)
qed

subsection \<open>Reading traces\<close>

lemma opened_append: "opened (xs @ ys) = opened xs @ opened ys"
  by (induction xs rule: opened.induct) simp_all

lemma files_written_append: "files_written (xs @ ys) = files_written xs @ files_written ys"
  by (induction xs rule: files_written.induct) simp_all

lemma errors_logged_append: "errors_logged (xs @ ys) = errors_logged xs @ errors_logged ys"
  by (induction xs rule: errors_logged.induct) simp_all

lemma trace_emit: "trace (emit e w) = trace w @ [e]"
  by (simp add: emit_def)

lemma dir_exists_emit: "dir_exists (emit e w) = dir_exists w"
  by (simp add: emit_def)

lemmas trace_simps =
  trace_emit dir_exists_emit opened_append files_written_append errors_logged_append

subsection \<open>Writing one chapter\<close>

lemma write_markdown_effect:
  assumes "dir_exists w \<or> makedirs_error ev = None"
  shows "fst (write_markdown ev (''Chapter '' @ fmt k) output_dir content w) = None \<and>
         dir_exists (snd (write_markdown ev (''Chapter '' @ fmt k) output_dir content w)) \<and>
         opened (trace (snd (write_markdown ev (''Chapter '' @ fmt k) output_dir content w))) =
           opened (trace w) @ [chapter_file output_dir k] \<and>
         files_written (trace (snd (write_markdown ev (''Chapter '' @ fmt k) output_dir content w))) =
           files_written (trace w) @
           (case open_error ev (chapter_file output_dir k) of
              None \<Rightarrow> [(chapter_file output_dir k, content)] | Some msg \<Rightarrow> []) \<and>
         errors_logged (trace (snd (write_markdown ev (''Chapter '' @ fmt k) output_dir content w))) =
           errors_logged (trace w) @ logged_for ev output_dir (k, rs)"
proof (cases "dir_exists w")
  case True
  then show ?thesis
    by (cases "open_error ev (chapter_file output_dir k)")
      (simp_all add: write_markdown_def Let_def trace_simps chapter_file_def logged_for_def
        save_error_def)
next
  case False
  with assms have "makedirs_error ev = None" by simp
  with False show ?thesis
    by (cases "open_error ev (chapter_file output_dir k)")
      (simp_all add: write_markdown_def Let_def trace_simps chapter_file_def logged_for_def
        save_error_def)
qed

lemma chapter_step_effect:
  assumes "good_rows tags am rs" and "dir_exists w \<or> makedirs_error ev = None"
  shows "\<exists>w'. chapter_step ev tags output_dir am n (k, aggregate rs) (w, sn) =
                 (None, w', Some (length rs)) \<and>
              dir_exists w' \<and>
              opened (trace w') = opened (trace w) @ [chapter_file output_dir k] \<and>
              files_written (trace w') =
                files_written (trace w) @ written_for ev output_dir tags am (n, k, rs) \<and>
              errors_logged (trace w') = errors_logged (trace w) @ logged_for ev output_dir (k, rs)"
proof -
  let ?w1 = "emit (LogInfo (''Chapter '' @ fmt k @ '', Scene '' @ str_nat (length rs) @ '' created.'')) w"
  let ?r = "write_markdown ev (''Chapter '' @ fmt k) output_dir (chapter_doc ev n tags am k rs) ?w1"
  have content: "chapter_content ev n tags am k (aggregate rs) sn =
      Inr (chapter_doc ev n tags am k rs, Some (length rs))"
    using assms(1) by (simp add: good_rows_def chapter_content_aggregate)
  have step: "chapter_step ev tags output_dir am n (k, aggregate rs) (w, sn) =
      (fst ?r, snd ?r, Some (length rs))"
    by (simp add: chapter_step_def content Let_def)
  have dir: "dir_exists ?w1 \<or> makedirs_error ev = None"
    using assms(2) by (simp add: dir_exists_emit)
  note eff = write_markdown_effect [OF dir, of k output_dir "chapter_doc ev n tags am k rs" rs]
  show ?thesis
  proof (intro exI conjI)
    show "chapter_step ev tags output_dir am n (k, aggregate rs) (w, sn) =
        (None, snd ?r, Some (length rs))"
      using eff by (simp add: step)
    show "dir_exists (snd ?r)" using eff by simp
    show "opened (trace (snd ?r)) = opened (trace w) @ [chapter_file output_dir k]"
      using eff by (simp add: trace_simps)
    show "files_written (trace (snd ?r)) =
        files_written (trace w) @ written_for ev output_dir tags am (n, k, rs)"
      using eff by (simp add: trace_simps written_for_def)
    show "errors_logged (trace (snd ?r)) = errors_logged (trace w) @ logged_for ev output_dir (k, rs)"
      using eff by (simp add: trace_simps)
  qed
qed

subsection \<open>The loop over the chapters\<close>

lemma chapters_loop_effect:
  assumes "\<forall>x\<in>set krs. good_rows tags am (snd x)" and "dir_exists w \<or> makedirs_error ev = None"
  shows "\<exists>w' sn'. chapters_loop ev tags output_dir am n
                     (map (\<lambda>x. (fst x, aggregate (snd x))) krs) (w, sn) = (None, w', sn') \<and>
           (dir_exists w' \<longleftrightarrow> dir_exists w \<or> krs \<noteq> []) \<and>
           opened (trace w') = opened (trace w) @ map (\<lambda>x. chapter_file output_dir (fst x)) krs \<and>
           files_written (trace w') =
             files_written (trace w) @
             concat (map (written_for ev output_dir tags am) (enumerate n krs)) \<and>
           errors_logged (trace w') =
             errors_logged (trace w) @ concat (map (logged_for ev output_dir) krs)"
  using assms
proof (induction krs arbitrary: n w sn)
  case Nil
  show ?case by simp
next
  case (Cons x krs)
  obtain k rs where x: "x = (k, rs)" by (cases x)
  from Cons.prems have good: "good_rows tags am rs"
    and rest: "\<forall>x\<in>set krs. good_rows tags am (snd x)" by (simp_all add: x)
  from chapter_step_effect [OF good Cons.prems(2), of output_dir n k sn]
  obtain w1 where step: "chapter_step ev tags output_dir am n (k, aggregate rs) (w, sn) =
      (None, w1, Some (length rs))"
    and dir1: "dir_exists w1"
    and o1: "opened (trace w1) = opened (trace w) @ [chapter_file output_dir k]"
    and f1: "files_written (trace w1) =
        files_written (trace w) @ written_for ev output_dir tags am (n, k, rs)"
    and e1: "errors_logged (trace w1) = errors_logged (trace w) @ logged_for ev output_dir (k, rs)"
    by blast
  from dir1 have "dir_exists w1 \<or> makedirs_error ev = None" by simp
  from Cons.IH [OF rest this, of "Suc n" "Some (length rs)"]
  obtain w' sn' where loop: "chapters_loop ev tags output_dir am (Suc n)
        (map (\<lambda>x. (fst x, aggregate (snd x))) krs) (w1, Some (length rs)) = (None, w', sn')"
    and dir': "dir_exists w' \<longleftrightarrow> dir_exists w1 \<or> krs \<noteq> []"
    and o': "opened (trace w') =
        opened (trace w1) @ map (\<lambda>x. chapter_file output_dir (fst x)) krs"
    and f': "files_written (trace w') =
        files_written (trace w1) @
        concat (map (written_for ev output_dir tags am) (enumerate (Suc n) krs))"
    and e': "errors_logged (trace w') =
        errors_logged (trace w1) @ concat (map (logged_for ev output_dir) krs)"
    by blast
  show ?case
  proof (intro exI conjI)
    show "chapters_loop ev tags output_dir am n
        (map (\<lambda>x. (fst x, aggregate (snd x))) (x # krs)) (w, sn) = (None, w', sn')"
      by (simp add: x step loop)
    show "dir_exists w' \<longleftrightarrow> dir_exists w \<or> x # krs \<noteq> []"
      using dir' dir1 by simp
    show "opened (trace w') =
        opened (trace w) @ map (\<lambda>x. chapter_file output_dir (fst x)) (x # krs)"
      by (simp add: o' o1 x)
    show "files_written (trace w') =
        files_written (trace w) @
        concat (map (written_for ev output_dir tags am) (enumerate n (x # krs)))"
      by (simp add: f' f1 x)
    show "errors_logged (trace w') =
        errors_logged (trace w) @ concat (map (logged_for ev output_dir) (x # krs))"
      by (simp add: e' e1 x)
  qed
qed

lemma table_chapter_rows:
  "table ev df = map (\<lambda>x. (fst x, aggregate (snd x))) (chapter_rows ev df)"
  by (simp add: table_def aggregated_def)

lemma str_locations_subseq:
  assumes "subseq rs df" and "str_locations df"
  shows "str_locations rs"
  using assms(2) list_emb_set [OF assms(1)] by (auto simp: str_locations_def list_all_iff)

lemma good_chapter_rows:
  assumes "str_locations df" and "am \<longrightarrow> tags \<noteq> None"
  shows "\<forall>x\<in>set (chapter_rows ev df). good_rows tags am (snd x)"
proof
  fix x assume "x \<in> set (chapter_rows ev df)"
  from chapter_rows_sound [OF this] have "snd x \<noteq> []" "subseq (snd x) df" by simp_all
  with assms str_locations_subseq [of "snd x" df] show "good_rows tags am (snd x)"
    by (simp add: good_rows_def)
qed

lemma generate_effect:
  assumes "str_locations df" and "am \<longrightarrow> tags \<noteq> None"
    and "dir_exists w \<or> makedirs_error ev = None"
  shows "fst (generate_markdown_content ev (Some (table ev df)) tags output_dir am w) = Returned \<and>
    (dir_exists (snd (generate_markdown_content ev (Some (table ev df)) tags output_dir am w)) \<longleftrightarrow>
       dir_exists w \<or> df \<noteq> []) \<and>
    opened (trace (snd (generate_markdown_content ev (Some (table ev df)) tags output_dir am w))) =
      opened (trace w) @ map (\<lambda>x. chapter_file output_dir (fst x)) (chapter_rows ev df) \<and>
    files_written (trace (snd (generate_markdown_content ev (Some (table ev df)) tags output_dir am w))) =
      files_written (trace w) @
      concat (map (written_for ev output_dir tags am) (enumerate 0 (chapter_rows ev df))) \<and>
    errors_logged (trace (snd (generate_markdown_content ev (Some (table ev df)) tags output_dir am w))) =
      errors_logged (trace w) @ concat (map (logged_for ev output_dir) (chapter_rows ev df))"
proof -
  let ?w1 = "emit (LogInfo (''Generating .md markdown files for '' @
      str_nat (length (table ev df)) @ '' chapters.'')) w"
  have dir: "dir_exists ?w1 \<or> makedirs_error ev = None"
    using assms(3) by (simp add: dir_exists_emit)
  from chapters_loop_effect [OF good_chapter_rows [OF assms(1,2), where ev = ev] dir,
      of output_dir 0 None]
  obtain w' sn' where loop: "chapters_loop ev tags output_dir am 0 (table ev df) (?w1, None) =
      (None, w', sn')"
    and d: "dir_exists w' \<longleftrightarrow> dir_exists ?w1 \<or> chapter_rows ev df \<noteq> []"
    and o: "opened (trace w') =
        opened (trace ?w1) @ map (\<lambda>x. chapter_file output_dir (fst x)) (chapter_rows ev df)"
    and f: "files_written (trace w') = files_written (trace ?w1) @
        concat (map (written_for ev output_dir tags am) (enumerate 0 (chapter_rows ev df)))"
    and e: "errors_logged (trace w') =
        errors_logged (trace ?w1) @ concat (map (logged_for ev output_dir) (chapter_rows ev df))"
    unfolding table_chapter_rows [symmetric] by blast
  have gen: "generate_markdown_content ev (Some (table ev df)) tags output_dir am w = (Returned, w')"
    unfolding generate_markdown_content_def Let_def option.case loop prod.case ..
  have ne: "chapter_rows ev df \<noteq> [] \<longleftrightarrow> df \<noteq> []"
    by (simp add: chapter_rows_Nil_iff)
  show ?thesis
    unfolding gen using d o f e ne by (simp add: trace_simps)
qed

subsection \<open>The whole run\<close>

lemma parse_scenes_ok:
  assumes "list_all complete df"
  shows "fst (parse_scenes ev df num_rows w) = Some (table ev df) \<and>
         dir_exists (snd (parse_scenes ev df num_rows w)) = dir_exists w \<and>
         opened (trace (snd (parse_scenes ev df num_rows w))) = opened (trace w) \<and>
         files_written (trace (snd (parse_scenes ev df num_rows w))) = files_written (trace w) \<and>
         errors_logged (trace (snd (parse_scenes ev df num_rows w))) = errors_logged (trace w)"
proof -
  from assms have "parse_loop ev df [] = Inr (table ev df)" by (simp add: parse_loop_eq)
  then show ?thesis
    by (simp add: parse_scenes_def Let_def trace_simps)
qed

lemma parse_scenes_fault:
  assumes "parse_loop ev df [] = Inl e"
  shows "fst (parse_scenes ev df num_rows w) = None \<and>
         dir_exists (snd (parse_scenes ev df num_rows w)) = dir_exists w \<and>
         opened (trace (snd (parse_scenes ev df num_rows w))) = opened (trace w) \<and>
         files_written (trace (snd (parse_scenes ev df num_rows w))) = files_written (trace w) \<and>
         errors_logged (trace (snd (parse_scenes ev df num_rows w))) =
           errors_logged (trace w) @ [''Error: An error occurred while parsing scenes: '' @ exc_str e]"
  using assms by (simp add: parse_scenes_def Let_def trace_simps)

lemma main_fault:
  assumes "parse_loop ev df [] = Inl e"
  shows "fst (main ev input_file df num_rows tags am output_dir w) = Raised (TypeError no_len_of_None) \<and>
         dir_exists (snd (main ev input_file df num_rows tags am output_dir w)) = dir_exists w \<and>
         opened (trace (snd (main ev input_file df num_rows tags am output_dir w))) = opened (trace w) \<and>
         files_written (trace (snd (main ev input_file df num_rows tags am output_dir w))) =
           files_written (trace w)"
proof -
  let ?w1 = "emit (Print ''Script started.'') (emit (LogInfo ''Script started'') w)"
  note p = parse_scenes_fault [OF assms, of num_rows ?w1]
  obtain c w2 where ps: "parse_scenes ev df num_rows ?w1 = (c, w2)"
    by (cases "parse_scenes ev df num_rows ?w1")
  with p have c: "c = None" and w2: "dir_exists w2 = dir_exists w"
    "opened (trace w2) = opened (trace w)" "files_written (trace w2) = files_written (trace w)"
    by (simp_all add: trace_simps)
  show ?thesis
    by (simp add: main_def Let_def ps c generate_markdown_content_def w2 no_len_of_None_def)
qed

lemma main_effect:
  assumes "list_all complete df" and "str_locations df" and "am \<longrightarrow> tags \<noteq> None"
    and "dir_exists w \<or> makedirs_error ev = None"
  shows "fst (main ev input_file df num_rows tags am output_dir w) = Returned \<and>
    (dir_exists (snd (main ev input_file df num_rows tags am output_dir w)) \<longleftrightarrow>
       dir_exists w \<or> df \<noteq> []) \<and>
    opened (trace (snd (main ev input_file df num_rows tags am output_dir w))) =
      opened (trace w) @ map (\<lambda>x. chapter_file output_dir (fst x)) (chapter_rows ev df) \<and>
    files_written (trace (snd (main ev input_file df num_rows tags am output_dir w))) =
      files_written (trace w) @
      concat (map (written_for ev output_dir tags am) (enumerate 0 (chapter_rows ev df))) \<and>
    errors_logged (trace (snd (main ev input_file df num_rows tags am output_dir w))) =
      errors_logged (trace w) @ concat (map (logged_for ev output_dir) (chapter_rows ev df))"
proof -
  let ?w1 = "emit (Print ''Script started.'') (emit (LogInfo ''Script started'') w)"
  note p = parse_scenes_ok [OF assms(1), of ev num_rows ?w1]
  obtain c w2 where ps: "parse_scenes ev df num_rows ?w1 = (c, w2)"
    by (cases "parse_scenes ev df num_rows ?w1")
  with p have c: "c = Some (table ev df)" and w2: "dir_exists w2 = dir_exists w"
    "opened (trace w2) = opened (trace w)" "files_written (trace w2) = files_written (trace w)"
    "errors_logged (trace w2) = errors_logged (trace w)"
    by (simp_all add: trace_simps)
  from assms(4) w2(1) have dir: "dir_exists w2 \<or> makedirs_error ev = None" by simp
  note g = generate_effect [OF assms(2,3) dir, of output_dir]
  obtain oc w3 where gen: "generate_markdown_content ev (Some (table ev df)) tags output_dir am w2 = (oc, w3)"
    by (cases "generate_markdown_content ev (Some (table ev df)) tags output_dir am w2")
  with g have oc: "oc = Returned" and w3: "dir_exists w3 \<longleftrightarrow> dir_exists w2 \<or> df \<noteq> []"
    "opened (trace w3) =
      opened (trace w2) @ map (\<lambda>x. chapter_file output_dir (fst x)) (chapter_rows ev df)"
    "files_written (trace w3) = files_written (trace w2) @
      concat (map (written_for ev output_dir tags am) (enumerate 0 (chapter_rows ev df)))"
    "errors_logged (trace w3) =
      errors_logged (trace w2) @ concat (map (logged_for ev output_dir) (chapter_rows ev df))"
    by simp_all
  show ?thesis
    by (simp add: main_def Let_def ps c gen oc w3 w2 trace_simps)
qed

text \<open>
  Claim C7.  Let the rows before \<open>r\<close> be aggregated without a fault into \<open>chs\<close>, and let
  the aggregation of \<open>r\<close> raise \<open>e\<close>.  Then the loop raises \<open>e\<close> whatever rows follow,
  \<open>parse_scenes\<close> returns \<open>None\<close> (the chapters in \<open>chs\<close> are lost), the call of
  \<open>generate_markdown_content\<close> raises \<open>TypeError\<close> out of \<open>main\<close>, and the run has opened
  and written no file and created no directory.
\<close>

theorem aggregation_fault_is_fatal:
  assumes "parse_loop ev before [] = Inr chs" and "parse_row ev r chs = Inl e"
  shows "parse_loop ev (before @ r # after) [] = Inl e \<and>
         fst (parse_scenes ev (before @ r # after) num_rows w) = None \<and>
         fst (main ev input_file (before @ r # after) num_rows tags am output_dir w) =
           Raised (TypeError no_len_of_None) \<and>
         opened (trace (snd (main ev input_file (before @ r # after) num_rows tags am output_dir w))) =
           opened (trace w) \<and>
         files_written (trace (snd (main ev input_file (before @ r # after) num_rows tags am output_dir w))) =
           files_written (trace w) \<and>
         dir_exists (snd (main ev input_file (before @ r # after) num_rows tags am output_dir w)) =
           dir_exists w"
proof -
  have fault: "parse_loop ev (before @ r # after) [] = Inl e"
    using assms by (simp add: parse_loop_append)
  from fault parse_scenes_fault [OF fault, of num_rows w]
    main_fault [OF fault, of input_file num_rows tags am output_dir w]
  show ?thesis by simp
qed

theorem aggregation_fault_is_fatal_witness:
  "parse_loop sample_env [sample_row ''1'' (CStr ''Forest'') ''a''] [] =
     Inr (table sample_env [sample_row ''1'' (CStr ''Forest'') ''a'']) \<and>
   parse_row sample_env [(''Week'', CStr ''1'')] (table sample_env [sample_row ''1'' (CStr ''Forest'') ''a'']) =
     Inl (KeyError ''Arc'') \<and>
   fst (main sample_env ''plan.xlsx''
          ([sample_row ''1'' (CStr ''Forest'') ''a''] @ [(''Week'', CStr ''1'')] #
           [sample_row ''2'' (CStr ''Town'') ''b''])
          (Some 3) None False ''out'' fresh_world) = Raised (TypeError no_len_of_None) \<and>
   opened (trace (snd (main sample_env ''plan.xlsx''
          ([sample_row ''1'' (CStr ''Forest'') ''a''] @ [(''Week'', CStr ''1'')] #
           [sample_row ''2'' (CStr ''Town'') ''b''])
          (Some 3) None False ''out'' fresh_world))) = [] \<and>
   files_written (trace (snd (main sample_env ''plan.xlsx''
          ([sample_row ''1'' (CStr ''Forest'') ''a''] @ [(''Week'', CStr ''1'')] #
           [sample_row ''2'' (CStr ''Town'') ''b''])
          (Some 3) None False ''out'' fresh_world))) = []"
proof -
  have a: "parse_loop sample_env [sample_row ''1'' (CStr ''Forest'') ''a''] [] =
      Inr (table sample_env [sample_row ''1'' (CStr ''Forest'') ''a''])"
    by (simp only: parse_loop_eq) (simp add: sample_complete)
  have b: "parse_row sample_env [(''Week'', CStr ''1'')]
        (table sample_env [sample_row ''1'' (CStr ''Forest'') ''a'']) =
      Inl (KeyError ''Arc'')"
    by (simp add: parse_row_def getitem_row_def)
  from aggregation_fault_is_fatal [OF a b, of "[sample_row ''2'' (CStr ''Town'') ''b'']"
      "Some 3" fresh_world "''plan.xlsx''" None False "''out''"] a b
  show ?thesis by (simp add: fresh_world_def)
qed

subsection \<open>Runs that stop at a chapter\<close>

lemma main_after_parse:
  assumes "list_all complete df"
  obtains w2 where
    "parse_scenes ev df num_rows
       (emit (Print ''Script started.'') (emit (LogInfo ''Script started'') w)) =
     (Some (table ev df), w2)"
    and "dir_exists w2 = dir_exists w"
    and "opened (trace w2) = opened (trace w)"
    and "files_written (trace w2) = files_written (trace w)"
    and "errors_logged (trace w2) = errors_logged (trace w)"
proof -
  let ?w1 = "emit (Print ''Script started.'') (emit (LogInfo ''Script started'') w)"
  note p = parse_scenes_ok [OF assms, of ev num_rows ?w1]
  obtain c w2 where ps: "parse_scenes ev df num_rows ?w1 = (c, w2)"
    by (cases "parse_scenes ev df num_rows ?w1")
  with p have "c = Some (table ev df)" "dir_exists w2 = dir_exists w"
    "opened (trace w2) = opened (trace w)" "files_written (trace w2) = files_written (trace w)"
    "errors_logged (trace w2) = errors_logged (trace w)"
    by (simp_all add: trace_simps)
  with ps that show thesis by simp
qed

lemma chapter_rows_two:
  "\<not> same_key ev (chapter_of r1) (chapter_of r2) \<Longrightarrow>
   chapter_rows ev [r1, r2] = [(chapter_of r1, [r1]), (chapter_of r2, [r2])]"
  by (simp add: chapter_rows_def file_row_def)

lemma table_two:
  "\<not> same_key ev (chapter_of r1) (chapter_of r2) \<Longrightarrow>
   table ev [r1, r2] = [(chapter_of r1, aggregate [r1]), (chapter_of r2, aggregate [r2])]"
  by (simp add: table_def chapter_rows_two aggregated_def)

lemma keys_of_two:
  "\<not> same_key ev (chapter_of r1) (chapter_of r2) \<Longrightarrow>
   keys_of ev [r1, r2] = [chapter_of r1, chapter_of r2]"
  using map_fst_chapter_rows [of ev "[r1, r2]"] by (simp add: chapter_rows_two)

lemma chapter_content_nan:
  assumes "complete r" and "col r ''Location'' = COther ty s"
  shows "chapter_content ev n tags False k (aggregate [r]) sn = Inl (AttributeError ty, Some 1)"
proof -
  have loc: "col ([r] ! 0) ''Location'' = COther ty s"
    using assms(2) by simp
  have body: "scene_body (aggregate [r]) pov temp 0 content = Inl (AttributeError ty)"
    for pov temp content
    by (rule scene_body_other [OF _ loc]) simp
  show ?thesis
    by (simp add: chapter_content_def aggregate_scalars length_scenes_aggregate body)
qed

text \<open>
  A run of two chapters in which rendering the first one raises in its first scene: the
  handler around the loop logs once, and nothing is opened or written.
\<close>

lemma main_nan_first:
  assumes "complete r1" and "complete r2"
    and "\<not> same_key ev (chapter_of r1) (chapter_of r2)"
    and "col r1 ''Location'' = COther ty s"
  shows "fst (main ev input_file [r1, r2] num_rows tags False output_dir w) = Returned \<and>
         opened (trace (snd (main ev input_file [r1, r2] num_rows tags False output_dir w))) =
           opened (trace w) \<and>
         files_written (trace (snd (main ev input_file [r1, r2] num_rows tags False output_dir w))) =
           files_written (trace w) \<and>
         errors_logged (trace (snd (main ev input_file [r1, r2] num_rows tags False output_dir w))) =
           errors_logged (trace w) @
           [''Error: An error occured while parsing Chapter '' @ fmt (chapter_of r1) @
            '', Scene 1: '' @ exc_str (AttributeError ty)]"
proof -
  have "list_all complete [r1, r2]" using assms(1,2) by simp
  from main_after_parse [OF this, of ev num_rows w] obtain w2 where
    ps: "parse_scenes ev [r1, r2] num_rows
       (emit (Print ''Script started.'') (emit (LogInfo ''Script started'') w)) =
     (Some (table ev [r1, r2]), w2)"
    and w2: "opened (trace w2) = opened (trace w)"
      "files_written (trace w2) = files_written (trace w)"
      "errors_logged (trace w2) = errors_logged (trace w)"
    by blast
  show ?thesis
    by (simp add: main_def Let_def ps table_two [OF assms(3)] generate_markdown_content_def
        chapter_step_def chapter_content_nan [OF assms(1,4)] trace_simps w2 digit_def)
qed

text \<open>The same when the metadata block is asked for and no tag list was given.\<close>

lemma main_no_tags:
  assumes "list_all complete (r # rs)"
  shows "files_written (trace (snd (main ev input_file (r # rs) num_rows None True output_dir w))) =
           files_written (trace w)"
proof -
  from main_after_parse [OF assms, of ev num_rows w] obtain w2 where
    ps: "parse_scenes ev (r # rs) num_rows
       (emit (Print ''Script started.'') (emit (LogInfo ''Script started'') w)) =
     (Some (table ev (r # rs)), w2)"
    and w2: "files_written (trace w2) = files_written (trace w)"
    by blast
  have "chapter_rows ev (r # rs) \<noteq> []" by (simp add: chapter_rows_Nil_iff)
  then obtain kc rest where tab: "table ev (r # rs) = kc # rest"
    by (cases "chapter_rows ev (r # rs)") (auto simp: table_def aggregated_def)
  have step: "chapter_step ev None output_dir True 0 kc (w', None) =
      (Some (TypeError ''can only join an iterable''), w', None)" for w'
    by (simp add: chapter_step_def chapter_content_def)
  show ?thesis
    by (simp add: main_def Let_def ps tab generate_markdown_content_def step trace_simps w2)
qed

text \<open>The same when the output directory is absent and cannot be created.\<close>

lemma main_no_directory:
  assumes "list_all complete (r # rs)" and "str_locations (r # rs)"
    and "\<not> dir_exists w" and "makedirs_error ev = Some msg"
  shows "files_written (trace (snd (main ev input_file (r # rs) num_rows tags False output_dir w))) =
           files_written (trace w)"
proof -
  from main_after_parse [OF assms(1), of ev num_rows w] obtain w2 where
    ps: "parse_scenes ev (r # rs) num_rows
       (emit (Print ''Script started.'') (emit (LogInfo ''Script started'') w)) =
     (Some (table ev (r # rs)), w2)"
    and w2: "files_written (trace w2) = files_written (trace w)" "dir_exists w2 = dir_exists w"
    by blast
  have ne: "chapter_rows ev (r # rs) \<noteq> []" by (simp add: chapter_rows_Nil_iff)
  then obtain x rest where g: "chapter_rows ev (r # rs) = x # rest"
    by (cases "chapter_rows ev (r # rs)") auto
  then have tab: "table ev (r # rs) = (fst x, aggregate (snd x)) # aggregated rest"
    by (simp add: table_def aggregated_def)
  have "x \<in> set (chapter_rows ev (r # rs))" by (simp add: g)
  with good_chapter_rows [OF assms(2), of False tags ev] have "good_rows tags False (snd x)"
    by simp
  then have content: "chapter_content ev 0 tags False (fst x) (aggregate (snd x)) sn =
      Inr (chapter_doc ev 0 tags False (fst x) (snd x), Some (length (snd x)))" for sn
    by (simp add: good_rows_def chapter_content_aggregate)
  have step: "chapter_step ev tags output_dir False 0 (fst x, aggregate (snd x)) (w', None) =
      (Some (OSError msg),
       emit (LogInfo (''Writing .md file at '' @ md_name output_dir (''Chapter '' @ fmt (fst x))))
         (emit (LogInfo (''Chapter '' @ fmt (fst x) @ '', Scene '' @ str_nat (length (snd x)) @
                         '' created.'')) w'),
       Some (length (snd x)))" if "\<not> dir_exists w'" for w'
    using that assms(4)
    by (simp add: chapter_step_def content Let_def write_markdown_def dir_exists_emit)
  have dir: "\<not> dir_exists w2" using assms(3) w2(2) by simp
  show ?thesis
    by (simp add: main_def Let_def ps tab generate_markdown_content_def step dir trace_simps w2)
qed

subsection \<open>One document per chapter\<close>

lemma written_documents:
  assumes "list_all (\<lambda>k. open_error ev (chapter_file output_dir k) = None) (map fst g)"
  shows "concat (map (written_for ev output_dir tags am) (enumerate n g)) =
         map (\<lambda>x. (chapter_file output_dir (fst (snd x)),
                   chapter_doc ev (fst x) tags am (fst (snd x)) (snd (snd x))))
           (enumerate n g)"
  using assms by (induction g arbitrary: n) (auto simp: written_for_def split: prod.splits)

lemma map_fst_documents:
  "map fst (documents ev output_dir tags am df) = map (chapter_file output_dir) (keys_of ev df)"
proof -
  have "map (\<lambda>x. chapter_file output_dir (fst (snd x))) (enumerate n g) =
      map (chapter_file output_dir) (map fst g)" for n and g :: "(cell \<times> row list) list"
    by (induction g arbitrary: n) simp_all
  then show ?thesis
    by (simp add: documents_def comp_def map_fst_chapter_rows [symmetric])
qed

lemma length_documents: "length (documents ev output_dir tags am df) = length (keys_of ev df)"
  using map_fst_documents [of ev output_dir tags am df] by (metis length_map)

lemma main_documents:
  assumes "list_all complete df" and "str_locations df" and "am \<longrightarrow> tags \<noteq> None"
    and "dir_exists w \<or> makedirs_error ev = None"
    and "list_all (\<lambda>k. open_error ev (chapter_file output_dir k) = None) (keys_of ev df)"
  shows "files_written (trace (snd (main ev input_file df num_rows tags am output_dir w))) =
           files_written (trace w) @ documents ev output_dir tags am df"
proof -
  from assms(5)
  have "list_all (\<lambda>k. open_error ev (chapter_file output_dir k) = None)
      (map fst (chapter_rows ev df))"
    by (simp only: map_fst_chapter_rows)
  from written_documents [OF this, of tags am 0]
  have "concat (map (written_for ev output_dir tags am) (enumerate 0 (chapter_rows ev df))) =
      documents ev output_dir tags am df"
    by (simp add: documents_def)
  with main_effect [OF assms(1-4), of input_file num_rows output_dir] show ?thesis
    by simp
qed

text \<open>
  Claim C5, as stated, fails, in six ways.  (1) An empty \<open>Location\<close> cell (the float \<open>nan\<close>)
  in the first chapter raises \<open>AttributeError\<close> at line 178; the handler around the whole
  loop ends \<open>generate_markdown_content\<close>, and no document is written for the two chapter
  keys.  (2) When opening \<open>Chapter 1.md\<close> fails, one document is written for two keys.
  (3) Two rows with an empty \<open>Chapter\<close> cell have two keys, and both documents go to the
  one file \<open>Chapter nan.md\<close>.  (4) A row that lacks a column: no document.  (5) The
  metadata block asked for and no tag list given: no document.  (6) The output directory
  absent and not to be created: no document.
\<close>

theorem one_document_per_chapter_counterexample:
  "keys_of sample_env [sample_row ''1'' (COther ''float'' ''nan'') ''a'',
                       sample_row ''2'' (CStr ''Town'') ''b''] = [CStr ''1'', CStr ''2''] \<and>
   files_written (trace (snd (main sample_env ''plan.xlsx''
      [sample_row ''1'' (COther ''float'' ''nan'') ''a'', sample_row ''2'' (CStr ''Town'') ''b'']
      (Some 2) None False ''out'' fresh_world))) = [] \<and>
   keys_of locked_env [sample_row ''1'' (CStr ''Forest'') ''a'',
                       sample_row ''2'' (CStr ''Town'') ''b''] = [CStr ''1'', CStr ''2''] \<and>
   map fst (files_written (trace (snd (main locked_env ''plan.xlsx''
      [sample_row ''1'' (CStr ''Forest'') ''a'', sample_row ''2'' (CStr ''Town'') ''b'']
      (Some 2) None False ''out'' fresh_world)))) = [''./out/Chapter 2.md''] \<and>
   keys_of sample_env [keyed_row (COther ''float'' ''nan'') (CStr ''Forest'') ''a'',
                       keyed_row (COther ''float'' ''nan'') (CStr ''Town'') ''b''] =
     [COther ''float'' ''nan'', COther ''float'' ''nan''] \<and>
   map fst (files_written (trace (snd (main sample_env ''plan.xlsx''
      [keyed_row (COther ''float'' ''nan'') (CStr ''Forest'') ''a'',
       keyed_row (COther ''float'' ''nan'') (CStr ''Town'') ''b'']
      (Some 2) None False ''out'' fresh_world)))) =
     [''./out/Chapter nan.md'', ''./out/Chapter nan.md''] \<and>
   keys_of sample_env [sample_row ''1'' (CStr ''Forest'') ''a'', [(''Chapter'', CStr ''2'')]] =
     [CStr ''1'', CStr ''2''] \<and>
   files_written (trace (snd (main sample_env ''plan.xlsx''
      [sample_row ''1'' (CStr ''Forest'') ''a'', [(''Chapter'', CStr ''2'')]]
      (Some 2) None False ''out'' fresh_world))) = [] \<and>
   files_written (trace (snd (main sample_env ''plan.xlsx''
      [sample_row ''1'' (CStr ''Forest'') ''a'', sample_row ''2'' (CStr ''Town'') ''b'']
      (Some 2) None True ''out'' fresh_world))) = [] \<and>
   files_written (trace (snd (main (sample_env\<lparr>makedirs_error := Some ''Permission denied''\<rparr>)
      ''plan.xlsx''
      [sample_row ''1'' (CStr ''Forest'') ''a'', sample_row ''2'' (CStr ''Town'') ''b'']
      (Some 2) None False ''out'' fresh_world))) = []"
proof -
  let ?nan = "COther ''float'' ''nan''"
  let ?ok = "[sample_row ''1'' (CStr ''Forest'') ''a'', sample_row ''2'' (CStr ''Town'') ''b'']"
  let ?loc = "[sample_row ''1'' ?nan ''a'', sample_row ''2'' (CStr ''Town'') ''b'']"
  let ?blank = "[keyed_row ?nan (CStr ''Forest'') ''a'', keyed_row ?nan (CStr ''Town'') ''b'']"
  let ?cols = "[sample_row ''1'' (CStr ''Forest'') ''a'', [(''Chapter'', CStr ''2'')]]"
  have w: "files_written (trace fresh_world) = []" "\<not> dir_exists fresh_world"
    by (simp_all add: fresh_world_def)
  have no_tags: "False \<longrightarrow> (None :: string list option) \<noteq> None" by simp
  have keys: "keys_of ev [sample_row ''1'' l1 d1, sample_row ''2'' l2 d2] =
      [CStr ''1'', CStr ''2'']" for ev l1 d1 l2 d2
    by (simp add: keys_of_def insert_key_def sample_chapter)
  have rows: "chapter_rows ev [sample_row ''1'' l1 d1, sample_row ''2'' l2 d2] =
      [(CStr ''1'', [sample_row ''1'' l1 d1]), (CStr ''2'', [sample_row ''2'' l2 d2])]"
    for ev l1 d1 l2 d2
    by (simp add: chapter_rows_def file_row_def sample_chapter)
  have "list_all complete ?ok"
    by (simp add: sample_complete)
  moreover have "str_locations ?ok"
    by (simp add: str_locations_def col_def sample_row_def)
  ultimately have ok: "list_all complete ?ok" "str_locations ?ok" .
  have one: "files_written (trace (snd (main sample_env ''plan.xlsx'' ?loc (Some 2) None False
      ''out'' fresh_world))) = []"
  proof -
    have "\<not> same_key sample_env (chapter_of (sample_row ''1'' ?nan ''a''))
        (chapter_of (sample_row ''2'' (CStr ''Town'') ''b''))"
      by (simp add: sample_chapter)
    moreover have "col (sample_row ''1'' ?nan ''a'') ''Location'' = ?nan"
      by (simp add: col_def sample_row_def)
    ultimately show ?thesis
      using main_nan_first [of "sample_row ''1'' ?nan ''a''" "sample_row ''2'' (CStr ''Town'') ''b''"
          sample_env "''float''" "''nan''" "''plan.xlsx''" "Some 2" None "''out''" fresh_world]
      by (simp add: sample_complete w)
  qed
  have two: "map fst (files_written (trace (snd (main locked_env ''plan.xlsx'' ?ok (Some 2) None
      False ''out'' fresh_world)))) = [''./out/Chapter 2.md'']"
  proof -
    have "dir_exists fresh_world \<or> makedirs_error locked_env = None"
      by (simp add: locked_env_def sample_env_def)
    from main_effect [OF ok no_tags this, of "''plan.xlsx''" "Some 2" "''out''"]
    show ?thesis
      by (simp add: rows w written_for_def chapter_file_def md_path_def locked_env_def)
  qed
  have blank_keys: "\<not> same_key sample_env ?nan ?nan"
    by (simp add: sample_env_def sample_obj_eq_def)
  have three_keys: "keys_of sample_env ?blank = [?nan, ?nan]"
    using blank_keys by (simp add: keys_of_def insert_key_def keyed_chapter)
  have three: "map fst (files_written (trace (snd (main sample_env ''plan.xlsx'' ?blank (Some 2)
      None False ''out'' fresh_world)))) = [''./out/Chapter nan.md'', ''./out/Chapter nan.md'']"
  proof -
    have a: "list_all complete ?blank" by (simp add: keyed_complete)
    have b: "str_locations ?blank" by (simp add: str_locations_def col_def keyed_row_def)
    have d: "dir_exists fresh_world \<or> makedirs_error sample_env = None"
      by (simp add: sample_env_def)
    have r: "chapter_rows sample_env ?blank =
        [(?nan, [keyed_row ?nan (CStr ''Forest'') ''a'']),
         (?nan, [keyed_row ?nan (CStr ''Town'') ''b''])]"
      using blank_keys by (simp add: chapter_rows_def file_row_def keyed_chapter)
    have oe: "open_error sample_env p = None" for p
      by (simp add: sample_env_def)
    from main_effect [OF a b no_tags d, of "''plan.xlsx''" "Some 2" "''out''"]
    show ?thesis
      by (simp add: r w written_for_def chapter_file_def md_path_def oe)
  qed
  have "chapter_of [(''Chapter'', CStr ''2'')] = CStr ''2''"
    by (simp add: chapter_of_def col_def)
  then have four_keys: "keys_of sample_env ?cols = [CStr ''1'', CStr ''2'']"
    by (simp add: keys_of_def insert_key_def sample_chapter)
  have four: "files_written (trace (snd (main sample_env ''plan.xlsx'' ?cols (Some 2) None False
      ''out'' fresh_world))) = []"
  proof -
    have "parse_loop sample_env ?cols [] = Inl (KeyError ''Week'')"
      by (simp add: parse_row_complete [OF sample_complete])
        (simp add: parse_row_def getitem_row_def)
    from main_fault [OF this, of "''plan.xlsx''" "Some 2" None False "''out''" fresh_world]
    show ?thesis by (simp add: w)
  qed
  have five: "files_written (trace (snd (main sample_env ''plan.xlsx'' ?ok (Some 2) None True
      ''out'' fresh_world))) = []"
    using main_no_tags [OF ok(1), of sample_env "''plan.xlsx''" "Some 2" "''out''" fresh_world]
    by (simp add: w)
  have six: "files_written (trace (snd (main (sample_env\<lparr>makedirs_error := Some ''Permission denied''\<rparr>)
      ''plan.xlsx'' ?ok (Some 2) None False ''out'' fresh_world))) = []"
    using main_no_directory [OF ok w(2), of "sample_env\<lparr>makedirs_error := Some ''Permission denied''\<rparr>"
        "''Permission denied''" "''plan.xlsx''" "Some 2" None "''out''"]
    by (simp add: w)
  from keys one two three_keys three four_keys four five six show ?thesis
    by simp
qed

text \<open>
  Claim C5, amended.  Take an input in which each row has all eleven columns and a string
  in the column \<open>Location\<close>, with a tag list supplied when metadata is asked for, an output
  directory that exists or can be created, no chapter file whose opening or writing
  fails, and chapter keys that give pairwise different file names.  Then the run writes
  the documents of \<open>documents\<close> and no other file: one document per chapter key, in the
  order the keys are first seen, into pairwise different files.  The number of documents
  written is the number of chapter keys of the input as the dictionary tells them apart;
  where it compares the keys as the cells compare, this is the number of distinct
  \<open>Chapter\<close> cells of the input.
\<close>

theorem one_document_per_chapter:
  assumes "list_all complete df" and "str_locations df" and "am \<longrightarrow> tags \<noteq> None"
    and "dir_exists w \<or> makedirs_error ev = None"
    and "list_all (\<lambda>k. open_error ev (chapter_file output_dir k) = None) (keys_of ev df)"
    and "distinct (map (chapter_file output_dir) (keys_of ev df))"
  shows "fst (main ev input_file df num_rows tags am output_dir w) = Returned \<and>
         files_written (trace (snd (main ev input_file df num_rows tags am output_dir w))) =
           files_written (trace w) @ documents ev output_dir tags am df \<and>
         map fst (documents ev output_dir tags am df) =
           map (chapter_file output_dir) (keys_of ev df) \<and>
         distinct (map fst (documents ev output_dir tags am df)) \<and>
         length (documents ev output_dir tags am df) = length (keys_of ev df) \<and>
         (plain_keys ev df \<longrightarrow>
            length (documents ev output_dir tags am df) = card (chapter_of ` set df))"
proof -
  have ret: "fst (main ev input_file df num_rows tags am output_dir w) = Returned"
    using main_effect [OF assms(1-4), of input_file num_rows output_dir] by blast
  have files: "files_written (trace (snd (main ev input_file df num_rows tags am output_dir w))) =
      files_written (trace w) @ documents ev output_dir tags am df"
    using assms(1-5) by (rule main_documents)
  have names: "map fst (documents ev output_dir tags am df) =
      map (chapter_file output_dir) (keys_of ev df)"
    by (rule map_fst_documents)
  have dist: "distinct (map fst (documents ev output_dir tags am df))"
    unfolding names using assms(6) .
  have len: "length (documents ev output_dir tags am df) = length (keys_of ev df)"
    by (rule length_documents)
  have plain: "plain_keys ev df \<longrightarrow>
      length (documents ev output_dir tags am df) = card (chapter_of ` set df)"
    unfolding len using length_keys_of_plain [of ev df] by blast
  from ret files names dist len plain show ?thesis by blast
qed

theorem one_document_per_chapter_witness:
  "list_all complete [sample_row ''1'' (CStr ''Forest'') ''a'', sample_row ''2'' (CStr ''Town'') ''b'',
       sample_row ''1'' (CStr ''Lake'') ''c''] \<and>
   str_locations [sample_row ''1'' (CStr ''Forest'') ''a'', sample_row ''2'' (CStr ''Town'') ''b'',
       sample_row ''1'' (CStr ''Lake'') ''c''] \<and>
   makedirs_error sample_env = None \<and>
   keys_of sample_env [sample_row ''1'' (CStr ''Forest'') ''a'', sample_row ''2'' (CStr ''Town'') ''b'',
       sample_row ''1'' (CStr ''Lake'') ''c''] = [CStr ''1'', CStr ''2''] \<and>
   open_error sample_env (chapter_file ''out'' (CStr ''1'')) = None \<and>
   open_error sample_env (chapter_file ''out'' (CStr ''2'')) = None \<and>
   plain_keys sample_env [sample_row ''1'' (CStr ''Forest'') ''a'',
       sample_row ''2'' (CStr ''Town'') ''b'', sample_row ''1'' (CStr ''Lake'') ''c''] \<and>
   fst (main sample_env ''plan.xlsx''
         [sample_row ''1'' (CStr ''Forest'') ''a'', sample_row ''2'' (CStr ''Town'') ''b'',
          sample_row ''1'' (CStr ''Lake'') ''c''] (Some 3) None False ''out'' fresh_world) = Returned \<and>
   files_written (trace (snd (main sample_env ''plan.xlsx''
         [sample_row ''1'' (CStr ''Forest'') ''a'', sample_row ''2'' (CStr ''Town'') ''b'',
          sample_row ''1'' (CStr ''Lake'') ''c''] (Some 3) None False ''out'' fresh_world))) =
     [(''./out/Chapter 1.md'',
       chapter_doc sample_env 0 None False (CStr ''1'')
         [sample_row ''1'' (CStr ''Forest'') ''a'', sample_row ''1'' (CStr ''Lake'') ''c'']),
      (''./out/Chapter 2.md'',
       chapter_doc sample_env 1 None False (CStr ''2'') [sample_row ''2'' (CStr ''Town'') ''b''])] \<and>
   card (chapter_of ` set [sample_row ''1'' (CStr ''Forest'') ''a'',
          sample_row ''2'' (CStr ''Town'') ''b'', sample_row ''1'' (CStr ''Lake'') ''c'']) = 2"
proof -
  let ?df = "[sample_row ''1'' (CStr ''Forest'') ''a'', sample_row ''2'' (CStr ''Town'') ''b'',
       sample_row ''1'' (CStr ''Lake'') ''c'']"
  have a: "list_all complete ?df" by (simp add: sample_complete)
  have b: "str_locations ?df" by (simp add: str_locations_def col_def sample_row_def)
  have c: "False \<longrightarrow> (None :: string list option) \<noteq> None" by simp
  have m: "makedirs_error sample_env = None" by (simp add: sample_env_def)
  then have d: "dir_exists fresh_world \<or> makedirs_error sample_env = None" by simp
  have keys: "keys_of sample_env ?df = [CStr ''1'', CStr ''2'']"
    by (simp add: keys_of_def insert_key_def sample_chapter)
  have o: "open_error sample_env (chapter_file ''out'' (CStr ''1'')) = None"
    "open_error sample_env (chapter_file ''out'' (CStr ''2'')) = None"
    by (simp_all add: sample_env_def)
  have f: "chapter_file ''out'' (CStr ''1'') = ''./out/Chapter 1.md''"
    "chapter_file ''out'' (CStr ''2'') = ''./out/Chapter 2.md''"
    by (simp_all add: chapter_file_def md_path_def)
  have e: "list_all (\<lambda>k. open_error sample_env (chapter_file ''out'' k) = None)
      (keys_of sample_env ?df)"
    unfolding keys using o by simp
  have g: "distinct (map (chapter_file ''out'') (keys_of sample_env ?df))"
    unfolding keys by (simp add: f)
  have p: "plain_keys sample_env ?df"
    by (simp add: plain_keys_def sample_chapter)
  have rows: "chapter_rows sample_env ?df =
      [(CStr ''1'', [sample_row ''1'' (CStr ''Forest'') ''a'', sample_row ''1'' (CStr ''Lake'') ''c'']),
       (CStr ''2'', [sample_row ''2'' (CStr ''Town'') ''b''])]"
    by (simp add: chapter_rows_def file_row_def sample_chapter)
  have docs: "documents sample_env ''out'' None False ?df =
     [(''./out/Chapter 1.md'',
       chapter_doc sample_env 0 None False (CStr ''1'')
         [sample_row ''1'' (CStr ''Forest'') ''a'', sample_row ''1'' (CStr ''Lake'') ''c'']),
      (''./out/Chapter 2.md'',
       chapter_doc sample_env 1 None False (CStr ''2'') [sample_row ''2'' (CStr ''Town'') ''b''])]"
    unfolding documents_def rows by (simp add: f)
  have w: "files_written (trace fresh_world) = []" by (simp add: fresh_world_def)
  note t = one_document_per_chapter [OF a b c d e g, of "''plan.xlsx''" "Some 3"]
  from t have r: "fst (main sample_env ''plan.xlsx'' ?df (Some 3) None False ''out'' fresh_world) =
      Returned" by blast
  from t have fw: "files_written (trace (snd (main sample_env ''plan.xlsx'' ?df (Some 3) None False
      ''out'' fresh_world))) = documents sample_env ''out'' None False ?df"
    by (simp add: w)
  from t p have "length (documents sample_env ''out'' None False ?df) = card (chapter_of ` set ?df)"
    by blast
  then have n: "card (chapter_of ` set ?df) = 2"
    by (simp only: docs) simp
  from a b m keys o p r fw n show ?thesis
    unfolding docs by blast
qed

subsection \<open>Failures while writing\<close>

lemma write_markdown_makedirs:
  assumes "\<not> dir_exists w" and "makedirs_error ev = None"
  shows "\<exists>before after.
           trace (snd (write_markdown ev file_path output_dir content w)) =
             trace w @ before @ MakeDirs output_dir # after \<and>
           opened before = [] \<and> opened after = [md_path output_dir file_path]"
proof (cases "open_error ev (md_path output_dir file_path)")
  case None
  show ?thesis
    by (rule exI [of _ "[LogInfo (''Writing .md file at '' @ md_name output_dir file_path)]"],
        rule exI [of _ "[WriteFile (md_path output_dir file_path) content,
          LogInfo (''Markdown file saved successfully: '' @ md_name output_dir file_path)]"])
      (simp add: write_markdown_def Let_def trace_simps assms None)
next
  case (Some msg)
  show ?thesis
    by (rule exI [of _ "[LogInfo (''Writing .md file at '' @ md_name output_dir file_path)]"],
        rule exI [of _ "[WriteFailed (md_path output_dir file_path),
          LogError (''Error: An error occurred while saving the file '' @
                    md_name output_dir file_path @ '': '' @ msg),
          Print (''Error: An error occurred while saving the file '' @
                    md_name output_dir file_path @ '': '' @ msg)]"])
      (simp add: write_markdown_def Let_def trace_simps assms Some)
qed

text \<open>
  Claim C8, as stated, fails in its generalisation to rendering failures: the handler of
  \<open>generate_markdown_content\<close> stands around the loop over the chapters, not inside it.
  Here the second chapter renders without fault when taken alone, but the empty
  \<open>Location\<close> cell of the first chapter ends the loop: one error record is logged and
  no file is opened for the second chapter.
\<close>

theorem write_failures_are_isolated_counterexample:
  "chapter_content sample_env 1 None False (CStr ''2'')
     (aggregate [sample_row ''2'' (CStr ''Town'') ''b'']) (Some 1) =
     Inr (chapter_doc sample_env 1 None False (CStr ''2'') [sample_row ''2'' (CStr ''Town'') ''b''],
          Some 1) \<and>
   opened (trace (snd (main sample_env ''plan.xlsx''
          [sample_row ''1'' (COther ''float'' ''nan'') ''a'', sample_row ''2'' (CStr ''Town'') ''b'']
          (Some 2) None False ''out'' fresh_world))) = [] \<and>
   files_written (trace (snd (main sample_env ''plan.xlsx''
          [sample_row ''1'' (COther ''float'' ''nan'') ''a'', sample_row ''2'' (CStr ''Town'') ''b'']
          (Some 2) None False ''out'' fresh_world))) = [] \<and>
   errors_logged (trace (snd (main sample_env ''plan.xlsx''
          [sample_row ''1'' (COther ''float'' ''nan'') ''a'', sample_row ''2'' (CStr ''Town'') ''b'']
          (Some 2) None False ''out'' fresh_world))) =
     [''Error: An error occured while parsing Chapter 1, Scene 1: '' @
      exc_str (AttributeError ''float'')]"
proof -
  have ne: "\<not> same_key sample_env (chapter_of (sample_row ''1'' (COther ''float'' ''nan'') ''a''))
      (chapter_of (sample_row ''2'' (CStr ''Town'') ''b''))"
    by (simp add: sample_chapter)
  have loc: "col (sample_row ''1'' (COther ''float'' ''nan'') ''a'') ''Location'' =
      COther ''float'' ''nan''"
    by (simp add: col_def sample_row_def)
  have s: "str_locations [sample_row ''2'' (CStr ''Town'') ''b'']"
    by (simp add: str_locations_def col_def sample_row_def)
  have alone: "chapter_content sample_env 1 None False (CStr ''2'')
       (aggregate [sample_row ''2'' (CStr ''Town'') ''b'']) (Some 1) =
     Inr (chapter_doc sample_env 1 None False (CStr ''2'') [sample_row ''2'' (CStr ''Town'') ''b''],
          Some 1)"
    using chapter_content_aggregate [of "[sample_row ''2'' (CStr ''Town'') ''b'']" False None
        sample_env 1 "CStr ''2''" "Some 1"] s
    by simp
  from main_nan_first [OF sample_complete sample_complete ne loc, of "''plan.xlsx''" "Some 2"
      None "''out''" fresh_world] alone
  show ?thesis
    by (simp add: fresh_world_def sample_chapter)
qed

text \<open>
  Claim C8, amended.  In a run without aggregation or rendering faults (every row has all
  columns and a string \<open>Location\<close>, tags are given if metadata is asked for, the output
  directory exists or can be created), whichever files fail to open or to be written:
  \<open>write_markdown\<close> is called for every chapter in turn, the chapters being those the
  dictionary of \<open>parse_scenes\<close> holds (\<open>chapter_rows\<close>), in the order in which their keys
  are first seen; every chapter whose file does not fail is written with its document;
  every failure is logged with the record of line 221; and the run returns.  A call of
  \<open>write_markdown\<close> that finds the directory absent creates it before it opens the file,
  so the directory exists after a run with at least one row.
\<close>

theorem write_failures_are_isolated:
  assumes "list_all complete df" and "str_locations df" and "am \<longrightarrow> tags \<noteq> None"
    and "dir_exists w \<or> makedirs_error ev = None"
  shows "fst (main ev input_file df num_rows tags am output_dir w) = Returned \<and>
    opened (trace (snd (main ev input_file df num_rows tags am output_dir w))) =
      opened (trace w) @ map (\<lambda>x. chapter_file output_dir (fst x)) (chapter_rows ev df) \<and>
    files_written (trace (snd (main ev input_file df num_rows tags am output_dir w))) =
      files_written (trace w) @
      concat (map (written_for ev output_dir tags am) (enumerate 0 (chapter_rows ev df))) \<and>
    errors_logged (trace (snd (main ev input_file df num_rows tags am output_dir w))) =
      errors_logged (trace w) @ concat (map (logged_for ev output_dir) (chapter_rows ev df)) \<and>
    (dir_exists (snd (main ev input_file df num_rows tags am output_dir w)) \<longleftrightarrow>
       dir_exists w \<or> df \<noteq> []) \<and>
    (\<not> dir_exists w \<longrightarrow>
       (\<exists>before after.
           trace (snd (write_markdown ev file_path output_dir content w)) =
             trace w @ before @ MakeDirs output_dir # after \<and>
           opened before = [] \<and> opened after = [md_path output_dir file_path]))"
proof -
  have "\<exists>before after.
      trace (snd (write_markdown ev file_path output_dir content w)) =
        trace w @ before @ MakeDirs output_dir # after \<and>
      opened before = [] \<and> opened after = [md_path output_dir file_path]"
    if "\<not> dir_exists w"
    using that assms(4) by (intro write_markdown_makedirs) simp_all
  with main_effect [OF assms, of input_file num_rows output_dir] show ?thesis
    by blast
qed

theorem write_failures_are_isolated_witness:
  "list_all complete [sample_row ''1'' (CStr ''Forest'') ''a'', sample_row ''2'' (CStr ''Town'') ''b''] \<and>
   str_locations [sample_row ''1'' (CStr ''Forest'') ''a'', sample_row ''2'' (CStr ''Town'') ''b''] \<and>
   makedirs_error locked_env = None \<and>
   open_error locked_env ''./out/Chapter 1.md'' = Some ''Permission denied'' \<and>
   fst (main locked_env ''plan.xlsx''
         [sample_row ''1'' (CStr ''Forest'') ''a'', sample_row ''2'' (CStr ''Town'') ''b'']
         (Some 2) None False ''out'' fresh_world) = Returned \<and>
   opened (trace (snd (main locked_env ''plan.xlsx''
         [sample_row ''1'' (CStr ''Forest'') ''a'', sample_row ''2'' (CStr ''Town'') ''b'']
         (Some 2) None False ''out'' fresh_world))) =
     [''./out/Chapter 1.md'', ''./out/Chapter 2.md''] \<and>
   files_written (trace (snd (main locked_env ''plan.xlsx''
         [sample_row ''1'' (CStr ''Forest'') ''a'', sample_row ''2'' (CStr ''Town'') ''b'']
         (Some 2) None False ''out'' fresh_world))) =
     [(''./out/Chapter 2.md'',
       chapter_doc locked_env 1 None False (CStr ''2'') [sample_row ''2'' (CStr ''Town'') ''b''])] \<and>
   errors_logged (trace (snd (main locked_env ''plan.xlsx''
         [sample_row ''1'' (CStr ''Forest'') ''a'', sample_row ''2'' (CStr ''Town'') ''b'']
         (Some 2) None False ''out'' fresh_world))) =
     [save_error ''out'' (CStr ''1'') ''Permission denied''] \<and>
   dir_exists (snd (main locked_env ''plan.xlsx''
         [sample_row ''1'' (CStr ''Forest'') ''a'', sample_row ''2'' (CStr ''Town'') ''b'']
         (Some 2) None False ''out'' fresh_world)) \<and>
   (\<exists>before after.
      trace (snd (write_markdown locked_env ''Chapter 1'' ''out'' ''text'' fresh_world)) =
        trace fresh_world @ before @ MakeDirs ''out'' # after \<and>
      opened before = [] \<and> opened after = [''./out/Chapter 1.md''])"
proof -
  let ?df = "[sample_row ''1'' (CStr ''Forest'') ''a'', sample_row ''2'' (CStr ''Town'') ''b'']"
  have rows: "chapter_rows locked_env ?df =
      [(CStr ''1'', [sample_row ''1'' (CStr ''Forest'') ''a'']),
       (CStr ''2'', [sample_row ''2'' (CStr ''Town'') ''b''])]"
    by (simp add: chapter_rows_def file_row_def sample_chapter)
  have a: "list_all complete ?df" by (simp add: sample_complete)
  have b: "str_locations ?df" by (simp add: str_locations_def col_def sample_row_def)
  have c: "False \<longrightarrow> (None :: string list option) \<noteq> None" by simp
  have m: "makedirs_error locked_env = None" by (simp add: locked_env_def sample_env_def)
  then have d: "dir_exists fresh_world \<or> makedirs_error locked_env = None" by simp
  have o1: "open_error locked_env ''./out/Chapter 1.md'' = Some ''Permission denied''"
    by (simp add: locked_env_def)
  have o2: "open_error locked_env ''./out/Chapter 2.md'' = None"
    by (simp add: locked_env_def)
  have f: "chapter_file ''out'' (CStr ''1'') = ''./out/Chapter 1.md''"
    "chapter_file ''out'' (CStr ''2'') = ''./out/Chapter 2.md''"
    "md_path ''out'' ''Chapter 1'' = ''./out/Chapter 1.md''"
    by (simp_all add: chapter_file_def md_path_def)
  have w: "opened (trace fresh_world) = []" "files_written (trace fresh_world) = []"
    "errors_logged (trace fresh_world) = []" "\<not> dir_exists fresh_world"
    by (simp_all add: fresh_world_def)
  have e: "enumerate 0 [(CStr ''1'', [sample_row ''1'' (CStr ''Forest'') ''a'']),
      (CStr ''2'', [sample_row ''2'' (CStr ''Town'') ''b''])] =
      [(0, CStr ''1'', [sample_row ''1'' (CStr ''Forest'') ''a'']),
       (1, CStr ''2'', [sample_row ''2'' (CStr ''Town'') ''b''])]"
    by simp
  note t = write_failures_are_isolated [OF a b c d, of "''plan.xlsx''" "Some 2" "''out''"
      "''Chapter 1''" "''text''", unfolded rows]
  from t have r: "fst (main locked_env ''plan.xlsx'' ?df (Some 2) None False ''out'' fresh_world) =
      Returned" by blast
  from t have op: "opened (trace (snd (main locked_env ''plan.xlsx'' ?df (Some 2) None False ''out''
      fresh_world))) = [''./out/Chapter 1.md'', ''./out/Chapter 2.md'']"
    by (simp add: w f)
  from t have fw: "files_written (trace (snd (main locked_env ''plan.xlsx'' ?df (Some 2) None False
      ''out'' fresh_world))) =
      [(''./out/Chapter 2.md'',
        chapter_doc locked_env 1 None False (CStr ''2'') [sample_row ''2'' (CStr ''Town'') ''b''])]"
    unfolding e by (simp add: w f written_for_def o1 o2)
  from t have el: "errors_logged (trace (snd (main locked_env ''plan.xlsx'' ?df (Some 2) None False
      ''out'' fresh_world))) = [save_error ''out'' (CStr ''1'') ''Permission denied'']"
    by (simp add: w f logged_for_def o1 o2)
  from t have de: "dir_exists (snd (main locked_env ''plan.xlsx'' ?df (Some 2) None False ''out''
      fresh_world))" by simp
  from t w(4) have mk: "\<exists>before after.
      trace (snd (write_markdown locked_env ''Chapter 1'' ''out'' ''text'' fresh_world)) =
        trace fresh_world @ before @ MakeDirs ''out'' # after \<and>
      opened before = [] \<and> opened after = [''./out/Chapter 1.md'']"
    unfolding f by blast
  from a b m o1 r op fw el de mk show ?thesis by blast
qed

text \<open>
  A run on rows with the \<open>Chapter\<close> cells \<open>nan\<close>, \<open>nan\<close> and \<open>3.0\<close>, the two \<open>nan\<close> being two
  objects: three chapters, and the file \<open>Chapter nan.md\<close> is opened and written twice.
\<close>

lemma blank_chapter_cells_run:
  "map fst (chapter_rows sample_env
     [keyed_row (COther ''float'' ''nan'') (CStr ''Forest'') ''a'',
      keyed_row (COther ''float'' ''nan'') (CStr ''Town'') ''b'',
      keyed_row (COther ''float'' ''3.0'') (CStr ''Lake'') ''c'']) =
     [COther ''float'' ''nan'', COther ''float'' ''nan'', COther ''float'' ''3.0''] \<and>
   opened (trace (snd (main sample_env ''plan.xlsx''
     [keyed_row (COther ''float'' ''nan'') (CStr ''Forest'') ''a'',
      keyed_row (COther ''float'' ''nan'') (CStr ''Town'') ''b'',
      keyed_row (COther ''float'' ''3.0'') (CStr ''Lake'') ''c'']
     (Some 3) None False ''out'' fresh_world))) =
     [''./out/Chapter nan.md'', ''./out/Chapter nan.md'', ''./out/Chapter 3.0.md''] \<and>
   files_written (trace (snd (main sample_env ''plan.xlsx''
     [keyed_row (COther ''float'' ''nan'') (CStr ''Forest'') ''a'',
      keyed_row (COther ''float'' ''nan'') (CStr ''Town'') ''b'',
      keyed_row (COther ''float'' ''3.0'') (CStr ''Lake'') ''c'']
     (Some 3) None False ''out'' fresh_world))) =
     [(''./out/Chapter nan.md'', chapter_doc sample_env 0 None False (COther ''float'' ''nan'')
         [keyed_row (COther ''float'' ''nan'') (CStr ''Forest'') ''a'']),
      (''./out/Chapter nan.md'', chapter_doc sample_env 1 None False (COther ''float'' ''nan'')
         [keyed_row (COther ''float'' ''nan'') (CStr ''Town'') ''b'']),
      (''./out/Chapter 3.0.md'', chapter_doc sample_env 2 None False (COther ''float'' ''3.0'')
         [keyed_row (COther ''float'' ''3.0'') (CStr ''Lake'') ''c''])]"
proof -
  let ?df = "[keyed_row (COther ''float'' ''nan'') (CStr ''Forest'') ''a'',
      keyed_row (COther ''float'' ''nan'') (CStr ''Town'') ''b'',
      keyed_row (COther ''float'' ''3.0'') (CStr ''Lake'') ''c'']"
  have a: "list_all complete ?df" by (simp add: keyed_complete)
  have b: "str_locations ?df" by (simp add: str_locations_def col_def keyed_row_def)
  have c: "False \<longrightarrow> (None :: string list option) \<noteq> None" by simp
  have d: "dir_exists fresh_world \<or> makedirs_error sample_env = None"
    by (simp add: sample_env_def)
  have oe: "open_error sample_env p = None" for p
    by (simp add: sample_env_def)
  have w: "opened (trace fresh_world) = []" "files_written (trace fresh_world) = []"
    by (simp_all add: fresh_world_def)
  from main_effect [OF a b c d, of "''plan.xlsx''" "Some 3" "''out''", unfolded blank_chapter_cells]
  show ?thesis
    unfolding blank_chapter_cells
    by (simp add: w written_for_def chapter_file_def md_path_def oe numeral_2_eq_2)
qed

subsection \<open>The example of the forest\<close>

lemma setting_text_forest:
  "setting_text ''Forest - Clearing, River'' =
     '' - Forest\<newline>'' @ ''     - Clearing\<newline>'' @ ''     - River\<newline>''"
  by (simp add: setting_text_def split_py_def Let_def)

lemma scene_section_forest:
  assumes "col r ''Location'' = CStr ''Forest - Clearing, River''"
  shows "scene_section pov temp (Suc 0) r = forest_section pov temp ''1'' r"
    and "scene_section pov temp (Suc (Suc 0)) r = forest_section pov temp ''2'' r"
    and "scene_section pov temp (Suc (Suc (Suc 0))) r = forest_section pov temp ''3'' r"
  unfolding scene_section_def scene_fields_def forest_section_def assms fmt.simps
    setting_text_forest
  by (simp_all add: digit_def)

lemma chapter_rows_one:
  assumes "list_all (\<lambda>r. chapter_of r = CStr s) (r # rs)"
  shows "chapter_rows ev (r # rs) = [(CStr s, r # rs)]"
proof -
  have all: "\<forall>x\<in>set (r # rs). chapter_of x = CStr s"
    using assms by (simp add: list_all_iff)
  then have plain: "plain_keys ev (r # rs)"
    by (simp add: plain_keys_iff)
  from keys_of_plain [OF plain] all have s: "set (keys_of ev (r # rs)) = {CStr s}"
    and d: "distinct (keys_of ev (r # rs))"
    by auto
  have "length (keys_of ev (r # rs)) = 1"
    using distinct_card [OF d] by (simp add: s)
  with s have keys: "keys_of ev (r # rs) = [CStr s]"
    by (cases "keys_of ev (r # rs)") auto
  have "rows_of (CStr s) (r # rs) = r # rs"
    unfolding rows_of_def using all by (simp only: filter_True)
  then show ?thesis
    by (simp add: chapter_rows_plain [OF plain] keys)
qed

text \<open>
  Claim C4.  Three rows, each with \<open>Chapter\<close> \<open>"1"\<close> and \<open>Location\<close>
  \<open>"Forest - Clearing, River"\<close> (and any other cells): \<open>parse_scenes\<close> returns one chapter;
  the run opens one file, \<open>Chapter 1.md\<close>, and unless that fails writes the chapter's
  document into it; the document is the heading lines followed by the scene sections
  numbered 1, 2 and 3, and the setting block of each is the bullet \<open>Forest\<close> with the
  sub-bullets \<open>Clearing\<close> and \<open>River\<close>, in this order.
\<close>

theorem forest_example:
  assumes "list_all complete [r1, r2, r3]"
    and "list_all (\<lambda>r. col r ''Chapter'' = CStr ''1'' \<and>
                       col r ''Location'' = CStr ''Forest - Clearing, River'') [r1, r2, r3]"
    and "am \<longrightarrow> tags \<noteq> None"
    and "dir_exists w \<or> makedirs_error ev = None"
  shows "fst (parse_scenes ev [r1, r2, r3] num_rows w) = Some [(CStr ''1'', aggregate [r1, r2, r3])] \<and>
    fst (main ev input_file [r1, r2, r3] num_rows tags am output_dir w) = Returned \<and>
    opened (trace (snd (main ev input_file [r1, r2, r3] num_rows tags am output_dir w))) =
      opened (trace w) @ [md_path output_dir ''Chapter 1''] \<and>
    files_written (trace (snd (main ev input_file [r1, r2, r3] num_rows tags am output_dir w))) =
      files_written (trace w) @
      (case open_error ev (md_path output_dir ''Chapter 1'') of
         None \<Rightarrow> [(md_path output_dir ''Chapter 1'',
                    chapter_doc ev 0 tags am (CStr ''1'') [r1, r2, r3])]
       | Some msg \<Rightarrow> []) \<and>
    chapter_doc ev 0 tags am (CStr ''1'') [r1, r2, r3] =
      (if am
       then add_metadata ev 0 [] (col r3 ''Arc'') (col r3 ''POV'') (join_py '', '' (tag_list tags))
       else []) @
      ''# Chapter 1\<newline>'' @ ''## Scenes\<newline>'' @
      forest_section (col r3 ''POV'') (col r3 ''Temperature'') ''1'' r1 @
      forest_section (col r3 ''POV'') (col r3 ''Temperature'') ''2'' r2 @
      forest_section (col r3 ''POV'') (col r3 ''Temperature'') ''3'' r3"
proof -
  let ?df = "[r1, r2, r3]"
  from assms(2) have ch: "list_all (\<lambda>r. chapter_of r = CStr ''1'') ?df"
    and loc: "col r1 ''Location'' = CStr ''Forest - Clearing, River''"
      "col r2 ''Location'' = CStr ''Forest - Clearing, River''"
      "col r3 ''Location'' = CStr ''Forest - Clearing, River''"
    by (simp_all add: chapter_of_def)
  have rows: "chapter_rows ev ?df = [(CStr ''1'', ?df)]"
    using ch by (rule chapter_rows_one)
  have str: "str_locations ?df"
    by (simp add: str_locations_def loc)
  have tab: "table ev ?df = [(CStr ''1'', aggregate ?df)]"
    by (simp add: table_chapter_rows rows)
  have parsed: "fst (parse_scenes ev ?df num_rows w) = Some [(CStr ''1'', aggregate ?df)]"
    using parse_scenes_ok [OF assms(1), of ev num_rows w] by (simp only: tab)
  have cf: "chapter_file output_dir (CStr ''1'') = md_path output_dir ''Chapter 1''"
    by (simp add: chapter_file_def)
  note m = main_effect [OF assms(1) str assms(3,4), of input_file num_rows output_dir,
      unfolded rows]
  from m have ret: "fst (main ev input_file ?df num_rows tags am output_dir w) = Returned"
    by blast
  from m have op: "opened (trace (snd (main ev input_file ?df num_rows tags am output_dir w))) =
      opened (trace w) @ [md_path output_dir ''Chapter 1'']"
    by (simp add: cf)
  from m have fw: "files_written (trace (snd (main ev input_file ?df num_rows tags am output_dir w))) =
      files_written (trace w) @
      (case open_error ev (md_path output_dir ''Chapter 1'') of
         None \<Rightarrow> [(md_path output_dir ''Chapter 1'', chapter_doc ev 0 tags am (CStr ''1'') ?df)]
       | Some msg \<Rightarrow> [])"
    by (simp add: written_for_def cf cong: option.case_cong)
  have secs: "scene_sections pov temp ?df =
      [forest_section pov temp ''1'' r1, forest_section pov temp ''2'' r2,
       forest_section pov temp ''3'' r3]" for pov temp
    by (simp add: scene_sections_def scene_section_forest loc)
  have doc: "chapter_doc ev 0 tags am (CStr ''1'') ?df =
      (if am
       then add_metadata ev 0 [] (col r3 ''Arc'') (col r3 ''POV'') (join_py '', '' (tag_list tags))
       else []) @
      ''# Chapter 1\<newline>'' @ ''## Scenes\<newline>'' @
      forest_section (col r3 ''POV'') (col r3 ''Temperature'') ''1'' r1 @
      forest_section (col r3 ''POV'') (col r3 ''Temperature'') ''2'' r2 @
      forest_section (col r3 ''POV'') (col r3 ''Temperature'') ''3'' r3"
    unfolding chapter_doc_def secs by simp
  from parsed ret op fw doc show ?thesis by blast
qed

theorem forest_example_witness:
  "list_all complete
         [sample_row ''1'' (CStr ''Forest - Clearing, River'') ''a'',
          sample_row ''1'' (CStr ''Forest - Clearing, River'') ''b'',
          sample_row ''1'' (CStr ''Forest - Clearing, River'') ''c''] \<and>
   list_all (\<lambda>r. col r ''Chapter'' = CStr ''1'' \<and>
                  col r ''Location'' = CStr ''Forest - Clearing, River'')
         [sample_row ''1'' (CStr ''Forest - Clearing, River'') ''a'',
          sample_row ''1'' (CStr ''Forest - Clearing, River'') ''b'',
          sample_row ''1'' (CStr ''Forest - Clearing, River'') ''c''] \<and>
   makedirs_error sample_env = None \<and>
   fst (parse_scenes sample_env
         [sample_row ''1'' (CStr ''Forest - Clearing, River'') ''a'',
          sample_row ''1'' (CStr ''Forest - Clearing, River'') ''b'',
          sample_row ''1'' (CStr ''Forest - Clearing, River'') ''c''] (Some 3) fresh_world) =
     Some [(CStr ''1'', aggregate
         [sample_row ''1'' (CStr ''Forest - Clearing, River'') ''a'',
          sample_row ''1'' (CStr ''Forest - Clearing, River'') ''b'',
          sample_row ''1'' (CStr ''Forest - Clearing, River'') ''c''])] \<and>
   opened (trace (snd (main sample_env ''plan.xlsx''
         [sample_row ''1'' (CStr ''Forest - Clearing, River'') ''a'',
          sample_row ''1'' (CStr ''Forest - Clearing, River'') ''b'',
          sample_row ''1'' (CStr ''Forest - Clearing, River'') ''c''] (Some 3) None False ''out'' fresh_world))) = [''./out/Chapter 1.md''] \<and>
   files_written (trace (snd (main sample_env ''plan.xlsx''
         [sample_row ''1'' (CStr ''Forest - Clearing, River'') ''a'',
          sample_row ''1'' (CStr ''Forest - Clearing, River'') ''b'',
          sample_row ''1'' (CStr ''Forest - Clearing, River'') ''c''] (Some 3) None False ''out'' fresh_world))) =
     [(''./out/Chapter 1.md'',
        ''# Chapter 1\<newline>## Scenes\<newline>'' @
        ''### Scene 1\<newline>\<newline> - POV: Ann\<newline> - Date and Time: Noon\<newline> - Day: Monday\<newline> - Week: 1\<newline> - Temperature: 20\<newline> - Weather: Rain\<newline> - Uniform: Coat\<newline>\<newline> - Description: a\<newline>\<newline> #### Setting:\<newline> - Forest\<newline>     - Clearing\<newline>     - River\<newline>\<newline>'' @
        ''### Scene 2\<newline>\<newline> - POV: Ann\<newline> - Date and Time: Noon\<newline> - Day: Monday\<newline> - Week: 1\<newline> - Temperature: 20\<newline> - Weather: Rain\<newline> - Uniform: Coat\<newline>\<newline> - Description: b\<newline>\<newline> #### Setting:\<newline> - Forest\<newline>     - Clearing\<newline>     - River\<newline>\<newline>'' @
        ''### Scene 3\<newline>\<newline> - POV: Ann\<newline> - Date and Time: Noon\<newline> - Day: Monday\<newline> - Week: 1\<newline> - Temperature: 20\<newline> - Weather: Rain\<newline> - Uniform: Coat\<newline>\<newline> - Description: c\<newline>\<newline> #### Setting:\<newline> - Forest\<newline>     - Clearing\<newline>     - River\<newline>\<newline>'')]"
proof -
  let ?df = "[sample_row ''1'' (CStr ''Forest - Clearing, River'') ''a'',
          sample_row ''1'' (CStr ''Forest - Clearing, River'') ''b'',
          sample_row ''1'' (CStr ''Forest - Clearing, River'') ''c'']"
  have a: "list_all complete ?df" by (simp add: sample_complete)
  have b: "list_all (\<lambda>r. col r ''Chapter'' = CStr ''1'' \<and>
      col r ''Location'' = CStr ''Forest - Clearing, River'') ?df"
    by (simp add: col_def sample_row_def)
  have c: "False \<longrightarrow> (None :: string list option) \<noteq> None" by simp
  have m: "makedirs_error sample_env = None" by (simp add: sample_env_def)
  then have d: "dir_exists fresh_world \<or> makedirs_error sample_env = None" by simp
  have p: "md_path ''out'' ''Chapter 1'' = ''./out/Chapter 1.md''"
    by (simp add: md_path_def)
  have o: "open_error sample_env ''./out/Chapter 1.md'' = None"
    by (simp add: sample_env_def)
  have w: "opened (trace fresh_world) = []" "files_written (trace fresh_world) = []"
    by (simp_all add: fresh_world_def)
  note t = forest_example [OF a b c d, of "Some 3" "''plan.xlsx''" "''out''", unfolded p]
  from t have parsed: "fst (parse_scenes sample_env ?df (Some 3) fresh_world) =
      Some [(CStr ''1'', aggregate ?df)]" by blast
  from t have op: "opened (trace (snd (main sample_env ''plan.xlsx'' ?df (Some 3) None False ''out''
      fresh_world))) = [''./out/Chapter 1.md'']"
    by (simp add: w)
  from t have doc: "chapter_doc sample_env 0 None False (CStr ''1'') ?df =
        ''# Chapter 1\<newline>## Scenes\<newline>'' @
        ''### Scene 1\<newline>\<newline> - POV: Ann\<newline> - Date and Time: Noon\<newline> - Day: Monday\<newline> - Week: 1\<newline> - Temperature: 20\<newline> - Weather: Rain\<newline> - Uniform: Coat\<newline>\<newline> - Description: a\<newline>\<newline> #### Setting:\<newline> - Forest\<newline>     - Clearing\<newline>     - River\<newline>\<newline>'' @
        ''### Scene 2\<newline>\<newline> - POV: Ann\<newline> - Date and Time: Noon\<newline> - Day: Monday\<newline> - Week: 1\<newline> - Temperature: 20\<newline> - Weather: Rain\<newline> - Uniform: Coat\<newline>\<newline> - Description: b\<newline>\<newline> #### Setting:\<newline> - Forest\<newline>     - Clearing\<newline>     - River\<newline>\<newline>'' @
        ''### Scene 3\<newline>\<newline> - POV: Ann\<newline> - Date and Time: Noon\<newline> - Day: Monday\<newline> - Week: 1\<newline> - Temperature: 20\<newline> - Weather: Rain\<newline> - Uniform: Coat\<newline>\<newline> - Description: c\<newline>\<newline> #### Setting:\<newline> - Forest\<newline>     - Clearing\<newline>     - River\<newline>\<newline>''"
    by (simp add: forest_section_def col_def sample_row_def)
  from t have "files_written (trace (snd (main sample_env ''plan.xlsx'' ?df (Some 3) None False
      ''out'' fresh_world))) =
      [(''./out/Chapter 1.md'', chapter_doc sample_env 0 None False (CStr ''1'') ?df)]"
    by (simp add: w o)
  then have fw: "files_written (trace (snd (main sample_env ''plan.xlsx'' ?df (Some 3) None False
      ''out'' fresh_world))) =
      [(''./out/Chapter 1.md'',
        ''# Chapter 1\<newline>## Scenes\<newline>'' @
        ''### Scene 1\<newline>\<newline> - POV: Ann\<newline> - Date and Time: Noon\<newline> - Day: Monday\<newline> - Week: 1\<newline> - Temperature: 20\<newline> - Weather: Rain\<newline> - Uniform: Coat\<newline>\<newline> - Description: a\<newline>\<newline> #### Setting:\<newline> - Forest\<newline>     - Clearing\<newline>     - River\<newline>\<newline>'' @
        ''### Scene 2\<newline>\<newline> - POV: Ann\<newline> - Date and Time: Noon\<newline> - Day: Monday\<newline> - Week: 1\<newline> - Temperature: 20\<newline> - Weather: Rain\<newline> - Uniform: Coat\<newline>\<newline> - Description: b\<newline>\<newline> #### Setting:\<newline> - Forest\<newline>     - Clearing\<newline>     - River\<newline>\<newline>'' @
        ''### Scene 3\<newline>\<newline> - POV: Ann\<newline> - Date and Time: Noon\<newline> - Day: Monday\<newline> - Week: 1\<newline> - Temperature: 20\<newline> - Weather: Rain\<newline> - Uniform: Coat\<newline>\<newline> - Description: c\<newline>\<newline> #### Setting:\<newline> - Forest\<newline>     - Clearing\<newline>     - River\<newline>\<newline>'')]"
    by (simp only: doc)
  from a b m parsed op fw show ?thesis by blast
qed

end
